(* ===== verification/Prelude.thy ===== *)
theory Prelude
  imports Complex_Main "HOL-Library.Multiset" "HOL-Library.AList"
begin

text \<open>
  Shared vocabulary of the development: Go's \<open>time.Time\<close> and \<open>time.Duration\<close> as integer
  nanoseconds, byte slices and strings as character lists, the dynamic values that flow through
  \<open>interface{}\<close>, finite Go maps as association lists with distinct keys where the iteration
  order is visible, and the generic list lemmas the component theories share.
\<close>

section \<open>Collections of rewrite rules\<close>

named_theorems go_defs \<open>definitions of small Go helpers that proofs unfold\<close>
named_theorems inv_intros \<open>preservation of component invariants\<close>

section \<open>Time\<close>

text \<open>
  An instant is the number of nanoseconds since Go's zero time (January 1, year 1, UTC), so
  \<open>t.IsZero()\<close> is \<open>t = 0\<close>, \<open>t.After(u)\<close> is \<open>u < t\<close> and \<open>t.Add(d)\<close> is \<open>t + d\<close>. A duration is a
  number of nanoseconds.
\<close>

type_synonym time = int
type_synonym duration = int
type_synonym bytes = string

definition zero_time :: time where
  "zero_time = 0"

definition is_zero :: "time \<Rightarrow> bool" where
  [go_defs]: "is_zero t \<longleftrightarrow> t = zero_time"

definition second :: duration where "second = 1000000000"
definition minute :: duration where "minute = 60 * second"
definition hour :: duration where "hour = 60 * minute"

lemma duration_values [simp]:
  "second = 1000000000" "minute = 60000000000" "hour = 3600000000000"
  by (simp_all add: second_def minute_def hour_def)

lemma is_zero_iff [simp]: "is_zero t \<longleftrightarrow> t = 0"
  by (simp add: is_zero_def zero_time_def)

section \<open>Errors\<close>

text \<open>\<open>apperror.NewError\<close>, the same with \<open>AddError\<close> of a foreign and of an application error, and \<open>apperror.Wrap\<close> of a foreign and of an application error.\<close>

datatype serr = SErr string | SErrWith string string | SErrOf string serr | SWrap string | SWrapErr serr

section \<open>Replies\<close>

text \<open>What a call of the Redis client ends with: a value, \<open>redis.Nil\<close> or another error.\<close>

datatype 'a reply = Val 'a | RNil | RErr string

section \<open>Machine integers\<close>

definition int64_range :: "int \<Rightarrow> bool" where
  [go_defs]: "int64_range n \<longleftrightarrow> - (2 ^ 63) \<le> n \<and> n < 2 ^ 63"

text \<open>The result of 64-bit addition or subtraction whose exact value is \<open>n\<close>.\<close>

definition wrap64 :: "int \<Rightarrow> int" where
  "wrap64 n = (n + 2 ^ 63) mod 2 ^ 64 - 2 ^ 63"

lemma wrap64_id: "int64_range n \<Longrightarrow> wrap64 n = n"
  by (simp add: wrap64_def int64_range_def)

lemma wrap64_over: "2 ^ 63 \<le> n \<Longrightarrow> n < 3 * 2 ^ 63 \<Longrightarrow> wrap64 n = n - 2 ^ 64"
proof -
  assume "2 ^ 63 \<le> n" "n < 3 * 2 ^ 63"
  then have "(n + 2 ^ 63 - 2 ^ 64) mod 2 ^ 64 = n + 2 ^ 63 - 2 ^ 64" by simp
  moreover have "(n + 2 ^ 63 - 2 ^ 64) mod 2 ^ 64 = (n + 2 ^ 63) mod 2 ^ 64" by (rule minus_mod_self2)
  ultimately show ?thesis by (simp add: wrap64_def)
qed

section \<open>Dynamic values\<close>

text \<open>
  The values the code stores in an \<open>interface{}\<close>: what \<open>encoding/json\<close> decodes into one (nil,
  booleans, float64 numbers, strings, slices, maps) and the Go types the callers put in
  (\<open>[]byte\<close>, \<open>int\<close>, \<open>[]string\<close>, pointers).
\<close>

datatype "value" =
    VNil
  | VBool bool
  | VInt int
  | VFloat rat
  | VString string
  | VBytes bytes
  | VStrings "string list"
  | VList "value list"
  | VMap "(string \<times> value) list"
  | VPtr "value"

section \<open>Lists\<close>

lemma distinct_remove1_set: "distinct xs \<Longrightarrow> set (remove1 x xs) = set xs - {x}"
  by (rule set_remove1_eq)

lemma int_length_remove1: "x \<in> set xs \<Longrightarrow> int (length (remove1 x xs)) = int (length xs) - 1"
  by (induction xs) auto

lemma sum_list_remove1:
  fixes f :: "'a \<Rightarrow> int"
  shows "x \<in> set xs \<Longrightarrow> sum_list (map f (remove1 x xs)) = sum_list (map f xs) - f x"
  by (induction xs) auto

lemma sum_list_upd_notin:
  fixes f :: "'b \<Rightarrow> int"
  shows "x \<notin> set xs \<Longrightarrow> sum_list (map (\<lambda>e. f (if e = x then v else h e)) xs) = sum_list (map (\<lambda>e. f (h e)) xs)"
  by (rule arg_cong [where f = sum_list]) auto

lemma sum_list_upd:
  fixes f :: "'b \<Rightarrow> int"
  shows "distinct xs \<Longrightarrow> x \<in> set xs \<Longrightarrow>
    sum_list (map (\<lambda>e. f (if e = x then v else h e)) xs) = sum_list (map (\<lambda>e. f (h e)) xs) - f (h x) + f v"
  by (induction xs) (auto simp: sum_list_upd_notin)

lemma map_remove1_filter:
  assumes "distinct xs" "\<And>x. x \<in> set xs \<Longrightarrow> g x = g e \<Longrightarrow> x = e"
  shows "map (\<lambda>x. (g x, h x)) (remove1 e xs) = filter (\<lambda>p. fst p \<noteq> g e) (map (\<lambda>x. (g x, h x)) xs)"
proof -
  have "filter (\<lambda>x. g x \<noteq> g e) xs = filter (\<lambda>x. x \<noteq> e) xs"
    using assms(2) by (intro filter_cong) auto
  also have "\<dots> = remove1 e xs"
    using assms(1) by (simp add: distinct_remove1_removeAll removeAll_filter_not_eq) metis
  finally show ?thesis by (simp add: filter_map o_def)
qed

lemma remove1_last: "distinct xs \<Longrightarrow> xs \<noteq> [] \<Longrightarrow> remove1 (last xs) xs = butlast xs"
  by (induction xs) auto

section \<open>State machines\<close>

text \<open>
  What a component with concurrent steps has to show of an invariant, and what its clients get: the
  invariant holds in every state that any interleaving of steps reaches.
\<close>

locale state_machine =
  fixes start :: 's
    and step :: "'s \<Rightarrow> 's \<Rightarrow> bool"
    and I :: "'s \<Rightarrow> bool"
  assumes start_I: "I start"
    and step_I: "I s \<Longrightarrow> step s s' \<Longrightarrow> I s'"
begin

lemma reachable_I: "step\<^sup>*\<^sup>* start s \<Longrightarrow> I s"
  by (induction rule: rtranclp_induct) (auto intro: start_I step_I)

end

end
