(* ===== verification/CacheBase.thy ===== *)
theory CacheBase
  imports Prelude
begin

text \<open>
  The part of the cache package shared by every backend (\<open>src/cache/cache.go\<close>): statistics,
  items and their expiry, events, configuration, serializers, \<open>BaseCache\<close> with its helpers
  \<open>updateStats\<close>, \<open>emitEvent\<close>, \<open>recordError\<close>, \<open>formatKey\<close> and \<open>calculateTTL\<close>, and the cache
  error type. Events handed to the event handler are recorded in emission order in
  \<open>bc_events\<close>; the hit ratio is kept as an exact rational.
\<close>

section \<open>Data\<close>

record Stats =
  cs_Hits :: int
  cs_Misses :: int
  cs_Sets :: int
  cs_Deletes :: int
  cs_Evictions :: int
  cs_Size :: int
  cs_MaxSize :: int
  cs_HitRatio :: rat
  cs_Memory :: int
  cs_Errors :: int
  cs_LastError :: string
  cs_LastErrorAt :: time

definition zero_stats :: Stats where
  "zero_stats = \<lparr>cs_Hits = 0, cs_Misses = 0, cs_Sets = 0, cs_Deletes = 0, cs_Evictions = 0,
     cs_Size = 0, cs_MaxSize = 0, cs_HitRatio = 0, cs_Memory = 0, cs_Errors = 0,
     cs_LastError = [], cs_LastErrorAt = zero_time\<rparr>"

record Item =
  it_Key :: string
  it_Value :: bytes
  it_ExpiresAt :: time
  it_CreatedAt :: time
  it_UpdatedAt :: time
  it_AccessAt :: time
  it_TTL :: duration
  it_Size :: int
  it_Namespace :: string

definition IsExpired :: "time \<Rightarrow> Item \<Rightarrow> bool" where
  "IsExpired now i \<longleftrightarrow> \<not> is_zero (it_ExpiresAt i) \<and> now > it_ExpiresAt i"

datatype EventType = EventSet | EventGet | EventDelete | EventEvict | EventExpire | EventClear

fun EventType_String :: "EventType \<Rightarrow> string" where
  "EventType_String EventSet = ''set''"
| "EventType_String EventGet = ''get''"
| "EventType_String EventDelete = ''delete''"
| "EventType_String EventEvict = ''evict''"
| "EventType_String EventExpire = ''expire''"
| "EventType_String EventClear = ''clear''"

text \<open>
  Errors: a plain Go error known only by its text, an \<open>apperror.Error\<close> (its trace is not looked
  at by this package) and the package's own \<open>Error\<close> wrapping operation and key.
\<close>

datatype cache_error =
    GoError string
  | AppErr string
  | CacheErr string string cache_error

fun Error_string :: "cache_error \<Rightarrow> string" where
  "Error_string (GoError m) = m"
| "Error_string (AppErr m) = m"
| "Error_string (CacheErr op k e) =
     (if k \<noteq> [] then ''cache '' @ op @ '' failed for key '' @ [CHR 0x27] @ k @ [CHR 0x27] @ '': '' @ Error_string e
      else ''cache '' @ op @ '' failed: '' @ Error_string e)"

fun Unwrap :: "cache_error \<Rightarrow> cache_error option" where
  "Unwrap (CacheErr op k e) = Some e"
| "Unwrap _ = None"

definition NewCacheError :: "string \<Rightarrow> string \<Rightarrow> cache_error \<Rightarrow> cache_error" where
  [go_defs]: "NewCacheError op k e = CacheErr op k e"

record Event =
  ev_Type :: EventType
  ev_Key :: string
  ev_Value :: "value option"
  ev_Timestamp :: time
  ev_Namespace :: string
  ev_Error :: "cache_error option"

section \<open>Serializers\<close>

text \<open>
  What the destination pointer passed to \<open>Deserialize\<close> points to: a \<open>[]byte\<close>, a \<open>string\<close> or
  anything else. A serializer returns \<open>Inl\<close> of its error or \<open>Inr\<close> of the result.
\<close>

datatype dest = DestBytes | DestString | DestAny

record Serializer =
  Serialize :: "value \<Rightarrow> cache_error + bytes"
  Deserialize :: "bytes \<Rightarrow> dest \<Rightarrow> cache_error + value"

fun NoOp_Serialize :: "value \<Rightarrow> cache_error + bytes" where
  "NoOp_Serialize (VBytes data) = Inr data"
| "NoOp_Serialize (VString str) = Inr str"
| "NoOp_Serialize _ = Inl (AppErr ''NoOpSerializer can only handle []byte or string values'')"

fun NoOp_Deserialize :: "bytes \<Rightarrow> dest \<Rightarrow> cache_error + value" where
  "NoOp_Deserialize data DestBytes = Inr (VBytes data)"
| "NoOp_Deserialize data DestString = Inr (VString data)"
| "NoOp_Deserialize data DestAny =
     Inl (AppErr ''NoOpSerializer can only deserialize to *[]byte or *string'')"

definition NoOpSerializer :: Serializer where
  "NoOpSerializer = \<lparr>Serialize = NoOp_Serialize, Deserialize = NoOp_Deserialize\<rparr>"

section \<open>Configuration and BaseCache\<close>

record Config =
  cfg_MaxSize :: int
  cfg_DefaultTTL :: duration
  cfg_CleanupInterval :: duration
  cfg_EnableLRU :: bool
  cfg_EnableStats :: bool
  cfg_EnableEvents :: bool
  cfg_Namespace :: string
  cfg_Serializer :: "Serializer option"
  cfg_EventHandler :: bool \<comment> \<open>whether a handler is set\<close>

text \<open>\<open>json\<close> stands for \<open>&JSONSerializer{}\<close>, which only calls \<open>encoding/json\<close>.\<close>

definition DefaultConfig :: "Serializer \<Rightarrow> Config" where
  "DefaultConfig json = \<lparr>cfg_MaxSize = 1000, cfg_DefaultTTL = hour, cfg_CleanupInterval = minute * 5,
     cfg_EnableLRU = True, cfg_EnableStats = True, cfg_EnableEvents = False, cfg_Namespace = [],
     cfg_Serializer = Some json, cfg_EventHandler = False\<rparr>"

text \<open>
  \<open>bc_serializer\<close> is the value of \<open>config.Serializer\<close>, which \<open>NewBaseCache\<close> makes non-nil.
\<close>

record BaseCache =
  bc_config :: Config
  bc_serializer :: Serializer
  bc_stats :: Stats
  bc_events :: "Event list"

definition NewBaseCache :: "Serializer \<Rightarrow> Config \<Rightarrow> BaseCache" where
  "NewBaseCache json config =
     (let ser = (case cfg_Serializer config of None \<Rightarrow> json | Some s \<Rightarrow> s)
      in \<lparr>bc_config = config\<lparr>cfg_Serializer := Some ser\<rparr>, bc_serializer = ser,
          bc_stats = zero_stats\<lparr>cs_MaxSize := cfg_MaxSize config\<rparr>, bc_events = []\<rparr>)"

definition set_hit_ratio :: "Stats \<Rightarrow> Stats" where
  "set_hit_ratio s =
     (let total = cs_Hits s + cs_Misses s
      in if total > 0 then s\<lparr>cs_HitRatio := of_int (cs_Hits s) / of_int total\<rparr> else s)"

definition updateStats :: "(Stats \<Rightarrow> Stats) \<Rightarrow> BaseCache \<Rightarrow> BaseCache" where
  "updateStats fn bc =
     (if \<not> cfg_EnableStats (bc_config bc) then bc
      else bc\<lparr>bc_stats := set_hit_ratio (fn (bc_stats bc))\<rparr>)"

definition emitEvent ::
  "time \<Rightarrow> EventType \<Rightarrow> string \<Rightarrow> value option \<Rightarrow> cache_error option \<Rightarrow> BaseCache \<Rightarrow> BaseCache" where
  "emitEvent now ty k v err bc =
     (if \<not> cfg_EnableEvents (bc_config bc) \<or> \<not> cfg_EventHandler (bc_config bc) then bc
      else bc\<lparr>bc_events := bc_events bc @
        [\<lparr>ev_Type = ty, ev_Key = k, ev_Value = v, ev_Timestamp = now,
          ev_Namespace = cfg_Namespace (bc_config bc), ev_Error = err\<rparr>]\<rparr>)"

definition recordError :: "time \<Rightarrow> cache_error \<Rightarrow> BaseCache \<Rightarrow> BaseCache" where
  "recordError now err = updateStats (\<lambda>s. s\<lparr>cs_Errors := cs_Errors s + 1,
     cs_LastError := Error_string err, cs_LastErrorAt := now\<rparr>)"

definition formatKey :: "BaseCache \<Rightarrow> string \<Rightarrow> string" where
  "formatKey bc k =
     (if cfg_Namespace (bc_config bc) = [] then k
      else cfg_Namespace (bc_config bc) @ '':'' @ k)"

definition calculateTTL :: "BaseCache \<Rightarrow> duration \<Rightarrow> duration" where
  "calculateTTL bc ttl = (if ttl = 0 then cfg_DefaultTTL (bc_config bc) else ttl)"

abbreviation stats_add_hit :: "Stats \<Rightarrow> Stats" where
  "stats_add_hit s \<equiv> s\<lparr>cs_Hits := cs_Hits s + 1\<rparr>"
abbreviation stats_add_miss :: "Stats \<Rightarrow> Stats" where
  "stats_add_miss s \<equiv> s\<lparr>cs_Misses := cs_Misses s + 1\<rparr>"
abbreviation stats_add_sets :: "int \<Rightarrow> Stats \<Rightarrow> Stats" where
  "stats_add_sets n s \<equiv> s\<lparr>cs_Sets := cs_Sets s + n\<rparr>"
abbreviation stats_add_deletes :: "int \<Rightarrow> Stats \<Rightarrow> Stats" where
  "stats_add_deletes n s \<equiv> s\<lparr>cs_Deletes := cs_Deletes s + n\<rparr>"

section \<open>Frame facts\<close>

text \<open>Statistics updates and events leave the configuration and the serializer alone.\<close>

lemma set_hit_ratio_frame [simp]:
  "cs_Hits (set_hit_ratio s) = cs_Hits s" "cs_Misses (set_hit_ratio s) = cs_Misses s"
  "cs_Size (set_hit_ratio s) = cs_Size s" "cs_Memory (set_hit_ratio s) = cs_Memory s"
  "cs_Sets (set_hit_ratio s) = cs_Sets s" "cs_Deletes (set_hit_ratio s) = cs_Deletes s"
  "cs_Evictions (set_hit_ratio s) = cs_Evictions s" "cs_MaxSize (set_hit_ratio s) = cs_MaxSize s"
  "cs_Errors (set_hit_ratio s) = cs_Errors s"
  by (simp_all add: set_hit_ratio_def Let_def)

lemma base_config_frame [simp]:
  "bc_config (updateStats fn bc) = bc_config bc"
  "bc_config (emitEvent now ty k v err bc) = bc_config bc"
  "bc_config (recordError now e bc) = bc_config bc"
  "bc_serializer (updateStats fn bc) = bc_serializer bc"
  "bc_serializer (emitEvent now ty k v err bc) = bc_serializer bc"
  "bc_serializer (recordError now e bc) = bc_serializer bc"
  by (simp_all add: updateStats_def emitEvent_def recordError_def)

lemma base_stats_frame [simp]:
  "bc_stats (emitEvent now ty k v err bc) = bc_stats bc"
  "bc_events (updateStats fn bc) = bc_events bc"
  "bc_events (recordError now e bc) = bc_events bc"
  by (simp_all add: updateStats_def emitEvent_def recordError_def)

lemma stats_updateStats:
  "bc_stats (updateStats fn bc) =
     (if cfg_EnableStats (bc_config bc) then set_hit_ratio (fn (bc_stats bc)) else bc_stats bc)"
  by (simp add: updateStats_def)

lemma recordError_counters [simp]:
  "cs_Size (bc_stats (recordError now e bc)) = cs_Size (bc_stats bc)"
  "cs_Memory (bc_stats (recordError now e bc)) = cs_Memory (bc_stats bc)"
  "cs_Hits (bc_stats (recordError now e bc)) = cs_Hits (bc_stats bc)"
  "cs_Misses (bc_stats (recordError now e bc)) = cs_Misses (bc_stats bc)"
  by (simp_all add: recordError_def stats_updateStats)

lemma formatKey_frame [simp]:
  "formatKey (updateStats fn bc) k = formatKey bc k"
  "formatKey (emitEvent now ty k' v err bc) k = formatKey bc k"
  "formatKey (recordError now e bc) k = formatKey bc k"
  by (simp_all add: formatKey_def)

section \<open>The hit ratio\<close>

text \<open>
  The ratio invariant: counters are non-negative and, once an access has been counted, the
  stored ratio is exactly hits over accesses. It is kept by every update that does not touch
  the ratio and lets neither counter go negative.
\<close>

definition ratio_ok :: "Stats \<Rightarrow> bool" where
  "ratio_ok s \<longleftrightarrow> 0 \<le> cs_Hits s \<and> 0 \<le> cs_Misses s \<and>
     cs_HitRatio s = (if cs_Hits s + cs_Misses s = 0 then 0
                      else of_int (cs_Hits s) / of_int (cs_Hits s + cs_Misses s))"

lemma ratio_ok_zero [simp]: "ratio_ok (zero_stats\<lparr>cs_MaxSize := m\<rparr>)"
  by (simp add: ratio_ok_def zero_stats_def)

lemma set_hit_ratio_ok:
  assumes "0 \<le> cs_Hits s" "0 \<le> cs_Misses s" "cs_Hits s + cs_Misses s = 0 \<Longrightarrow> cs_HitRatio s = 0"
  shows "ratio_ok (set_hit_ratio s)"
  using assms by (auto simp: ratio_ok_def set_hit_ratio_def Let_def)

lemma updateStats_ratio_ok [inv_intros]:
  assumes "ratio_ok (bc_stats bc)"
    and "cs_HitRatio (fn (bc_stats bc)) = cs_HitRatio (bc_stats bc)"
    and "cs_Hits (fn (bc_stats bc)) \<ge> cs_Hits (bc_stats bc)"
    and "cs_Misses (fn (bc_stats bc)) \<ge> cs_Misses (bc_stats bc)"
  shows "ratio_ok (bc_stats (updateStats fn bc))"
proof (cases "cfg_EnableStats (bc_config bc)")
  case True
  have "ratio_ok (set_hit_ratio (fn (bc_stats bc)))"
    using assms by (intro set_hit_ratio_ok) (auto simp: ratio_ok_def)
  with True show ?thesis by (simp add: stats_updateStats)
next
  case False
  with assms(1) show ?thesis by (simp add: stats_updateStats)
qed

lemma recordError_ratio_ok [inv_intros]:
  "ratio_ok (bc_stats bc) \<Longrightarrow> ratio_ok (bc_stats (recordError now e bc))"
  unfolding recordError_def by (rule updateStats_ratio_ok) simp_all

lemma ratio_ok_bounds: "ratio_ok s \<Longrightarrow> 0 \<le> cs_HitRatio s \<and> cs_HitRatio s \<le> 1"
  by (auto simp: ratio_ok_def divide_le_eq_1)

section \<open>Key formatting\<close>

lemma formatKey_inj: "formatKey bc k = formatKey bc k' \<longleftrightarrow> k = k'"
  by (simp add: formatKey_def)

lemma append_sep_inj:
  "x \<notin> set as \<Longrightarrow> x \<notin> set bs \<Longrightarrow> as @ x # cs = bs @ x # ds \<Longrightarrow> as = bs \<and> cs = ds"
proof (induction as arbitrary: bs)
  case Nil
  then show ?case by (cases bs) auto
next
  case (Cons a as)
  then show ?case by (cases bs) auto
qed

end
