(* ===== verification/CacheContract.thy ===== *)
theory CacheContract
  imports CacheBase
begin

text \<open>
  The \<open>Cache\<close> interface (\<open>src/cache/cache.go\<close>) as a record of operations over a backend state,
  and the contract a client of the interface relies on, as a locale. \<open>Close\<close> is left out: it
  releases resources and no operation of the package is defined after it.
\<close>

record 's Cache =
  i_Get :: "time \<Rightarrow> string \<Rightarrow> dest \<Rightarrow> 's \<Rightarrow> 's \<times> (cache_error + value option)"
  i_Set :: "time \<Rightarrow> string \<Rightarrow> value \<Rightarrow> duration \<Rightarrow> 's \<Rightarrow> 's \<times> (cache_error + unit)"
  i_Delete :: "time \<Rightarrow> string \<Rightarrow> 's \<Rightarrow> 's \<times> (cache_error + unit)"
  i_Exists :: "time \<Rightarrow> string \<Rightarrow> 's \<Rightarrow> 's \<times> (cache_error + bool)"
  i_Clear :: "time \<Rightarrow> 's \<Rightarrow> 's \<times> (cache_error + unit)"
  i_GetMulti :: "time \<Rightarrow> string list \<Rightarrow> 's \<Rightarrow> 's \<times> (cache_error + (string \<times> value) list)"
  i_SetMulti :: "time \<Rightarrow> (string \<times> value) list \<Rightarrow> duration \<Rightarrow> 's \<Rightarrow> 's \<times> (cache_error + unit)"
  i_DeleteMulti :: "time \<Rightarrow> string list \<Rightarrow> 's \<Rightarrow> 's \<times> (cache_error + unit)"
  i_GetTTL :: "time \<Rightarrow> string \<Rightarrow> 's \<Rightarrow> 's \<times> (cache_error + duration)"
  i_SetTTL :: "time \<Rightarrow> string \<Rightarrow> duration \<Rightarrow> 's \<Rightarrow> 's \<times> (cache_error + unit)"
  i_GetStats :: "'s \<Rightarrow> Stats"

text \<open>An entry stored at \<open>now\<close> with a TTL is live at \<open>t\<close>; a TTL that is not positive never ends.\<close>

definition live_until :: "time \<Rightarrow> duration \<Rightarrow> time \<Rightarrow> bool" where
  "live_until now ttl t \<longleftrightarrow> ttl \<le> 0 \<or> now + ttl = 0 \<or> t \<le> now + ttl"

locale cache_contract =
  fixes C :: "'s Cache"
    and inv :: "'s \<Rightarrow> bool"
    and view :: "time \<Rightarrow> 's \<Rightarrow> string \<Rightarrow> bytes option"
    and S :: Serializer
  assumes inv_Get: "inv s \<Longrightarrow> inv (fst (i_Get C now k d s))"
    and inv_Set: "inv s \<Longrightarrow> inv (fst (i_Set C now k v ttl s))"
    and inv_Delete: "inv s \<Longrightarrow> inv (fst (i_Delete C now k s))"
    and inv_Exists: "inv s \<Longrightarrow> inv (fst (i_Exists C now k s))"
    and Get_res: "inv s \<Longrightarrow> snd (i_Get C now k d s) = (case view now s k of None \<Rightarrow> Inr None
      | Some data \<Rightarrow> (case Deserialize S data d of
          Inl err \<Rightarrow> Inl (NewCacheError ''get'' k err) | Inr v \<Rightarrow> Inr (Some v)))"
    and Get_view: "inv s \<Longrightarrow> now \<le> t \<Longrightarrow> view t (fst (i_Get C now k d s)) = view t s"
    and Set_res: "inv s \<Longrightarrow> Serialize S v = Inr b \<Longrightarrow> snd (i_Set C now k v ttl s) = Inr ()"
    and Set_err: "inv s \<Longrightarrow> Serialize S v = Inl e \<Longrightarrow>
      snd (i_Set C now k v ttl s) = Inl (NewCacheError ''set'' k e) \<and> view t (fst (i_Set C now k v ttl s)) = view t s"
    and Set_self_any: "inv s \<Longrightarrow> Serialize S v = Inr b \<Longrightarrow> view t (fst (i_Set C now k v ttl s)) k \<in> {None, Some b}"
    and Set_self: "inv s \<Longrightarrow> Serialize S v = Inr b \<Longrightarrow> ttl \<noteq> 0 \<Longrightarrow>
      view t (fst (i_Set C now k v ttl s)) k = (if live_until now ttl t then Some b else None)"
    and Set_other: "inv s \<Longrightarrow> k' \<noteq> k \<Longrightarrow> view t (fst (i_Set C now k v ttl s)) k' \<in> {None, view t s k'}"
    and Delete_res: "inv s \<Longrightarrow> snd (i_Delete C now k s) = Inr ()"
    and Delete_view: "inv s \<Longrightarrow> view t (fst (i_Delete C now k s)) = (view t s)(k := None)"
    and Exists_res: "inv s \<Longrightarrow> snd (i_Exists C now k s) = Inr (view now s k \<noteq> None)"
    and Exists_view: "inv s \<Longrightarrow> now \<le> t \<Longrightarrow> view t (fst (i_Exists C now k s)) = view t s"
begin

lemma Get_hit:
  "inv s \<Longrightarrow> view now s k = Some b \<Longrightarrow> Deserialize S b d = Inr v \<Longrightarrow> snd (i_Get C now k d s) = Inr (Some v)"
  by (simp add: Get_res)

lemma Get_miss: "inv s \<Longrightarrow> view now s k = None \<Longrightarrow> snd (i_Get C now k d s) = Inr None"
  by (simp add: Get_res)

lemma Get_after_Set:
  assumes "inv s" "Serialize S v = Inr b" "Deserialize S b d = Inr v" "ttl \<noteq> 0" "live_until now ttl t"
  shows "snd (i_Get C t k d (fst (i_Set C now k v ttl s))) = Inr (Some v)"
  using assms by (simp add: Get_res inv_Set Set_self)

lemma Get_after_Delete: "inv s \<Longrightarrow> snd (i_Get C t k d (fst (i_Delete C now k s))) = Inr None"
  by (simp add: Get_res inv_Delete Delete_view)

end

end
