(* ===== verification/MemoryCache.thy ===== *)
theory MemoryCache
  imports CacheContract
begin

text \<open>
  The in-memory cache (\<open>src/cache/memory.go\<close>). List elements of \<open>container/list\<close> are addresses
  (natural numbers): \<open>mc_items\<close> is the map from formatted keys to elements, \<open>mc_lru\<close> the list
  from front to back, \<open>mc_elem\<close> the \<open>Value\<close> stored at each element, \<open>mc_next\<close> the next fresh
  address. Every operation runs under the cache mutex and is one atomic step that reads the
  clock once (\<open>now\<close>); \<open>Exists\<close> gives the lock up between its check and its removal, so it is
  also given as its two critical sections.
\<close>

section \<open>State\<close>

record memoryItem =
  mi_item :: Item
  mi_dataSize :: int

record MemoryCache =
  mc_base :: BaseCache
  mc_items :: "string \<rightharpoonup> nat"
  mc_lru :: "nat list"
  mc_elem :: "nat \<Rightarrow> memoryItem"
  mc_next :: nat
  mc_stopped :: bool \<comment> \<open>whether \<open>stopChan\<close> is closed\<close>

abbreviation mc_config :: "MemoryCache \<Rightarrow> Config" where
  "mc_config mc \<equiv> bc_config (mc_base mc)"
abbreviation mc_stats :: "MemoryCache \<Rightarrow> Stats" where
  "mc_stats mc \<equiv> bc_stats (mc_base mc)"
abbreviation item_at :: "MemoryCache \<Rightarrow> nat \<Rightarrow> Item" where
  "item_at mc e \<equiv> mi_item (mc_elem mc e)"
definition on_base :: "(BaseCache \<Rightarrow> BaseCache) \<Rightarrow> MemoryCache \<Rightarrow> MemoryCache" where
  "on_base f mc = mc\<lparr>mc_base := f (mc_base mc)\<rparr>"
abbreviation set_item :: "nat \<Rightarrow> Item \<Rightarrow> MemoryCache \<Rightarrow> MemoryCache" where
  "set_item e i mc \<equiv> mc\<lparr>mc_elem := (mc_elem mc)(e := (mc_elem mc e)\<lparr>mi_item := i\<rparr>)\<rparr>"

text \<open>\<open>empty_elem\<close> fills addresses that are not allocated yet; no operation reads one.\<close>

definition empty_elem :: memoryItem where
  "empty_elem = \<lparr>mi_item = \<lparr>it_Key = [], it_Value = [], it_ExpiresAt = 0, it_CreatedAt = 0,
     it_UpdatedAt = 0, it_AccessAt = 0, it_TTL = 0, it_Size = 0, it_Namespace = []\<rparr>, mi_dataSize = 0\<rparr>"

definition NewMemoryCacheWithConfig :: "Serializer \<Rightarrow> Config \<Rightarrow> MemoryCache" where
  "NewMemoryCacheWithConfig json config =
     \<lparr>mc_base = NewBaseCache json config, mc_items = Map.empty, mc_lru = [],
      mc_elem = (\<lambda>_. empty_elem), mc_next = 0, mc_stopped = False\<rparr>"

definition NewMemoryCache :: "Serializer \<Rightarrow> MemoryCache" where
  "NewMemoryCache json = NewMemoryCacheWithConfig json (DefaultConfig json)"

definition WithMaxSize :: "int \<Rightarrow> MemoryCache \<Rightarrow> MemoryCache" where
  "WithMaxSize maxSize = on_base (\<lambda>b. b\<lparr>bc_config := (bc_config b)\<lparr>cfg_MaxSize := maxSize\<rparr>,
     bc_stats := (bc_stats b)\<lparr>cs_MaxSize := maxSize\<rparr>\<rparr>)"

definition WithDefaultTTL :: "duration \<Rightarrow> MemoryCache \<Rightarrow> MemoryCache" where
  "WithDefaultTTL ttl = on_base (\<lambda>b. b\<lparr>bc_config := (bc_config b)\<lparr>cfg_DefaultTTL := ttl\<rparr>\<rparr>)"

definition WithLRUEviction :: "bool \<Rightarrow> MemoryCache \<Rightarrow> MemoryCache" where
  "WithLRUEviction enabled = on_base (\<lambda>b. b\<lparr>bc_config := (bc_config b)\<lparr>cfg_EnableLRU := enabled\<rparr>\<rparr>)"

definition WithCleanupInterval :: "duration \<Rightarrow> MemoryCache \<Rightarrow> MemoryCache" where
  "WithCleanupInterval i = on_base (\<lambda>b. b\<lparr>bc_config := (bc_config b)\<lparr>cfg_CleanupInterval := i\<rparr>\<rparr>)"

definition WithEventHandler :: "bool \<Rightarrow> MemoryCache \<Rightarrow> MemoryCache" where
  "WithEventHandler h = on_base (\<lambda>b. b\<lparr>bc_config := (bc_config b)\<lparr>cfg_EventHandler := h,
     cfg_EnableEvents := True\<rparr>\<rparr>)"

section \<open>container/list\<close>

definition MoveToFront :: "nat \<Rightarrow> nat list \<Rightarrow> nat list" where
  "MoveToFront e xs = (if e \<in> set xs then e # remove1 e xs else xs)"

definition list_Remove :: "nat \<Rightarrow> nat list \<Rightarrow> nat list" where
  "list_Remove e xs = remove1 e xs"

definition list_Back :: "nat list \<Rightarrow> nat option" where
  "list_Back xs = (if xs = [] then None else Some (last xs))"

text \<open>\<open>if mc.config.EnableLRU { mc.lruList.MoveToFront(element) }\<close>, in \<open>Get\<close> and \<open>Set\<close>.\<close>

definition touch :: "nat \<Rightarrow> MemoryCache \<Rightarrow> MemoryCache" where
  "touch e mc = (if cfg_EnableLRU (mc_config mc) then mc\<lparr>mc_lru := MoveToFront e (mc_lru mc)\<rparr> else mc)"

section \<open>Operations\<close>

definition removeElement :: "nat \<Rightarrow> string \<Rightarrow> MemoryCache \<Rightarrow> MemoryCache" where
  "removeElement e k mc =
     on_base (updateStats (\<lambda>s. s\<lparr>cs_Size := cs_Size s - 1,
         cs_Memory := cs_Memory s - mi_dataSize (mc_elem mc e)\<rparr>))
       (mc\<lparr>mc_items := (mc_items mc)(k := None), mc_lru := list_Remove e (mc_lru mc)\<rparr>)"

definition evictLRU :: "time \<Rightarrow> MemoryCache \<Rightarrow> MemoryCache" where
  "evictLRU now mc =
     (if \<not> cfg_EnableLRU (mc_config mc) \<or> length (mc_lru mc) = 0 then mc
      else case list_Back (mc_lru mc) of
        None \<Rightarrow> mc
      | Some e \<Rightarrow>
          let k = it_Key (item_at mc e);
              mc1 = removeElement e k mc;
              mc2 = on_base (updateStats (\<lambda>s. s\<lparr>cs_Evictions := cs_Evictions s + 1\<rparr>)) mc1
          in on_base (emitEvent now EventEvict k None None) mc2)"

definition Get :: "time \<Rightarrow> string \<Rightarrow> dest \<Rightarrow> MemoryCache \<Rightarrow> MemoryCache \<times> (cache_error + value option)" where
  "Get now k d mc =
     (let fk = formatKey (mc_base mc) k
      in case mc_items mc fk of
        None \<Rightarrow>
          (on_base (emitEvent now EventGet k None None) (on_base (updateStats stats_add_miss) mc), Inr None)
      | Some e \<Rightarrow>
          let item = item_at mc e
          in if IsExpired now item then
               (on_base (emitEvent now EventExpire k None None)
                  (on_base (updateStats stats_add_miss) (removeElement e fk mc)), Inr None)
             else
               let mc1 = set_item e (item\<lparr>it_AccessAt := now\<rparr>) mc;
                   mc2 = touch e mc1
               in case Deserialize (bc_serializer (mc_base mc2)) (it_Value item) d of
                    Inl err \<Rightarrow>
                      (on_base (emitEvent now EventGet k None (Some err))
                         (on_base (recordError now err) mc2), Inl (NewCacheError ''get'' k err))
                  | Inr v \<Rightarrow>
                      (on_base (emitEvent now EventGet k (Some (VPtr v)) None)
                         (on_base (updateStats stats_add_hit) mc2), Inr (Some v)))"

definition new_item :: "time \<Rightarrow> string \<Rightarrow> bytes \<Rightarrow> duration \<Rightarrow> string \<Rightarrow> Item" where
  "new_item now fk data ttl ns =
     \<lparr>it_Key = fk, it_Value = data, it_ExpiresAt = (if ttl > 0 then now + ttl else zero_time),
      it_CreatedAt = now, it_UpdatedAt = now, it_AccessAt = now, it_TTL = ttl,
      it_Size = int (length data), it_Namespace = ns\<rparr>"

definition Set_existing :: "nat \<Rightarrow> memoryItem \<Rightarrow> MemoryCache \<Rightarrow> MemoryCache" where
  "Set_existing e memItem mc =
     (let old = mc_elem mc e;
          mc1 = mc\<lparr>mc_elem := (mc_elem mc)(e := memItem)\<rparr>;
          mc2 = touch e mc1
      in on_base (updateStats (\<lambda>s. s\<lparr>cs_Memory := cs_Memory s - mi_dataSize old + mi_dataSize memItem\<rparr>)) mc2)"

definition Set_new :: "time \<Rightarrow> string \<Rightarrow> memoryItem \<Rightarrow> MemoryCache \<Rightarrow> MemoryCache" where
  "Set_new now fk memItem mc =
     (let e = mc_next mc;
          mc1 = mc\<lparr>mc_elem := (mc_elem mc)(e := memItem), mc_next := e + 1,
                   mc_lru := e # mc_lru mc, mc_items := (mc_items mc)(fk := Some e)\<rparr>;
          mc2 = on_base (updateStats (\<lambda>s. s\<lparr>cs_Size := cs_Size s + 1,
                   cs_Memory := cs_Memory s + mi_dataSize memItem\<rparr>)) mc1
      in if cfg_MaxSize (mc_config mc2) > 0 \<and> cs_Size (mc_stats mc2) > cfg_MaxSize (mc_config mc2)
         then evictLRU now mc2 else mc2)"

definition Set :: "time \<Rightarrow> string \<Rightarrow> value \<Rightarrow> duration \<Rightarrow> MemoryCache \<Rightarrow> MemoryCache \<times> (cache_error + unit)" where
  "Set now k v ttl mc =
     (let fk = formatKey (mc_base mc) k;
          effectiveTTL = calculateTTL (mc_base mc) ttl
      in case Serialize (bc_serializer (mc_base mc)) v of
        Inl err \<Rightarrow>
          (on_base (emitEvent now EventSet k (Some v) (Some err)) (on_base (recordError now err) mc),
           Inl (NewCacheError ''set'' k err))
      | Inr data \<Rightarrow>
          let memItem = \<lparr>mi_item = new_item now fk data effectiveTTL (cfg_Namespace (mc_config mc)),
                         mi_dataSize = int (length data)\<rparr>;
              mc1 = (case mc_items mc fk of
                       Some e \<Rightarrow> Set_existing e memItem mc
                     | None \<Rightarrow> Set_new now fk memItem mc)
          in (on_base (emitEvent now EventSet k (Some v) None)
                (on_base (updateStats (stats_add_sets 1)) mc1), Inr ()))"

definition Delete :: "time \<Rightarrow> string \<Rightarrow> MemoryCache \<Rightarrow> MemoryCache \<times> (cache_error + unit)" where
  "Delete now k mc =
     (let fk = formatKey (mc_base mc) k
      in case mc_items mc fk of
        None \<Rightarrow> (mc, Inr ())
      | Some e \<Rightarrow>
          (on_base (emitEvent now EventDelete k None None)
             (on_base (updateStats (stats_add_deletes 1)) (removeElement e fk mc)), Inr ()))"

text \<open>
  \<open>Exists\<close>, first as its two critical sections: the check under the read lock, which returns
  either the answer or the expired element to remove, and the removal under the write lock.
\<close>

definition Exists_check :: "time \<Rightarrow> string \<Rightarrow> MemoryCache \<Rightarrow> bool + (nat \<times> string)" where
  "Exists_check now k mc =
     (let fk = formatKey (mc_base mc) k
      in case mc_items mc fk of
        None \<Rightarrow> Inl False
      | Some e \<Rightarrow> if IsExpired now (item_at mc e) then Inr (e, fk) else Inl True)"

definition Exists :: "time \<Rightarrow> string \<Rightarrow> MemoryCache \<Rightarrow> MemoryCache \<times> (cache_error + bool)" where
  "Exists now k mc =
     (case Exists_check now k mc of
        Inl b \<Rightarrow> (mc, Inr b)
      | Inr (e, fk) \<Rightarrow> (removeElement e fk mc, Inr False))"

definition Clear :: "time \<Rightarrow> MemoryCache \<Rightarrow> MemoryCache \<times> (cache_error + unit)" where
  "Clear now mc =
     (on_base (emitEvent now EventClear [] None None)
        (on_base (updateStats (\<lambda>s. s\<lparr>cs_Size := 0, cs_Memory := 0\<rparr>))
           (mc\<lparr>mc_items := Map.empty, mc_lru := []\<rparr>)), Inr ())"

fun GetMulti_loop :: "time \<Rightarrow> string list \<Rightarrow> (string \<times> value) list \<Rightarrow> MemoryCache \<Rightarrow>
    MemoryCache \<times> (cache_error + (string \<times> value) list)" where
  "GetMulti_loop now [] result mc = (mc, Inr result)"
| "GetMulti_loop now (k # ks) result mc =
     (case Get now k DestAny mc of
        (mc', Inl err) \<Rightarrow> (mc', Inl err)
      | (mc', Inr None) \<Rightarrow> GetMulti_loop now ks result mc'
      | (mc', Inr (Some v)) \<Rightarrow> GetMulti_loop now ks (AList.update k v result) mc')"

definition GetMulti :: "time \<Rightarrow> string list \<Rightarrow> MemoryCache \<Rightarrow>
    MemoryCache \<times> (cache_error + (string \<times> value) list)" where
  "GetMulti now ks mc = GetMulti_loop now ks [] mc"

text \<open>The map argument of \<open>SetMulti\<close> is the list of its entries in iteration order.\<close>

fun SetMulti :: "time \<Rightarrow> (string \<times> value) list \<Rightarrow> duration \<Rightarrow> MemoryCache \<Rightarrow>
    MemoryCache \<times> (cache_error + unit)" where
  "SetMulti now [] ttl mc = (mc, Inr ())"
| "SetMulti now ((k, v) # kvs) ttl mc =
     (case Set now k v ttl mc of
        (mc', Inl err) \<Rightarrow> (mc', Inl err)
      | (mc', Inr _) \<Rightarrow> SetMulti now kvs ttl mc')"

fun DeleteMulti :: "time \<Rightarrow> string list \<Rightarrow> MemoryCache \<Rightarrow> MemoryCache \<times> (cache_error + unit)" where
  "DeleteMulti now [] mc = (mc, Inr ())"
| "DeleteMulti now (k # ks) mc =
     (case Delete now k mc of
        (mc', Inl err) \<Rightarrow> (mc', Inl err)
      | (mc', Inr _) \<Rightarrow> DeleteMulti now ks mc')"

definition GetTTL :: "time \<Rightarrow> string \<Rightarrow> MemoryCache \<Rightarrow> cache_error + duration" where
  "GetTTL now k mc =
     (case mc_items mc (formatKey (mc_base mc) k) of
        None \<Rightarrow> Inl (AppErr ''key not found'')
      | Some e \<Rightarrow>
          let item = item_at mc e
          in if is_zero (it_ExpiresAt item) then Inr 0
             else if IsExpired now item then Inl (AppErr ''key has expired'')
             else Inr (it_ExpiresAt item - now))"

definition SetTTL :: "time \<Rightarrow> string \<Rightarrow> duration \<Rightarrow> MemoryCache \<Rightarrow> MemoryCache \<times> (cache_error + unit)" where
  "SetTTL now k ttl mc =
     (case mc_items mc (formatKey (mc_base mc) k) of
        None \<Rightarrow> (mc, Inl (AppErr ''key not found''))
      | Some e \<Rightarrow>
          let item = item_at mc e;
              item1 = (if ttl > 0 then item\<lparr>it_ExpiresAt := now + ttl, it_TTL := ttl\<rparr>
                       else item\<lparr>it_ExpiresAt := zero_time, it_TTL := 0\<rparr>)
          in (set_item e (item1\<lparr>it_UpdatedAt := now\<rparr>) mc, Inr ()))"

text \<open>Closing a closed channel panics: \<open>None\<close>.\<close>

definition Close :: "MemoryCache \<Rightarrow> MemoryCache option" where
  "Close mc = (if mc_stopped mc then None else Some (mc\<lparr>mc_stopped := True\<rparr>))"

definition GetSize :: "MemoryCache \<Rightarrow> int" where
  "GetSize mc = int (card (dom (mc_items mc)))"

definition GetMemoryUsage :: "MemoryCache \<Rightarrow> int" where
  "GetMemoryUsage mc = cs_Memory (mc_stats mc)"

text \<open>
  \<open>keys\<close> is the order in which Go's \<open>range\<close> enumerates the map: any list of exactly its keys.
\<close>

definition expired_keys :: "time \<Rightarrow> string list \<Rightarrow> MemoryCache \<Rightarrow> string list" where
  "expired_keys now keys mc =
     filter (\<lambda>k. case mc_items mc k of None \<Rightarrow> False | Some e \<Rightarrow>
        \<not> is_zero (it_ExpiresAt (item_at mc e)) \<and> now > it_ExpiresAt (item_at mc e)) keys"

fun remove_expired :: "time \<Rightarrow> string list \<Rightarrow> MemoryCache \<Rightarrow> MemoryCache" where
  "remove_expired now [] mc = mc"
| "remove_expired now (k # ks) mc =
     (case mc_items mc k of
        None \<Rightarrow> remove_expired now ks mc
      | Some e \<Rightarrow>
          remove_expired now ks (on_base (emitEvent now EventExpire k None None) (removeElement e k mc)))"

definition cleanupExpired :: "time \<Rightarrow> string list \<Rightarrow> MemoryCache \<Rightarrow> MemoryCache" where
  "cleanupExpired now keys mc = remove_expired now (expired_keys now keys mc) mc"

definition GetKeys :: "string list \<Rightarrow> MemoryCache \<Rightarrow> string list" where
  "GetKeys keys mc = filter (\<lambda>k. k \<in> dom (mc_items mc)) keys"

text \<open>
  The goroutine of \<open>startCleanup\<close> over what its \<open>select\<close> receives: ticks, each at a time and with an order of
  the map, until the stop channel is closed.
\<close>

datatype cleanup_event = CleanupTick time "string list" | CleanupStop

fun startCleanup :: "cleanup_event list \<Rightarrow> MemoryCache \<Rightarrow> MemoryCache" where
  "startCleanup [] mc = mc"
| "startCleanup (CleanupTick now keys # es) mc = startCleanup es (cleanupExpired now keys mc)"
| "startCleanup (CleanupStop # es) mc = mc"

section \<open>Frame facts\<close>

lemma on_base_sel [simp]:
  "mc_base (on_base f mc) = f (mc_base mc)" "mc_items (on_base f mc) = mc_items mc"
  "mc_lru (on_base f mc) = mc_lru mc" "mc_elem (on_base f mc) = mc_elem mc"
  "mc_next (on_base f mc) = mc_next mc" "mc_stopped (on_base f mc) = mc_stopped mc"
  by (simp_all add: on_base_def)

lemma removeElement_sel [simp]:
  "mc_items (removeElement e k mc) = (mc_items mc)(k := None)"
  "mc_lru (removeElement e k mc) = remove1 e (mc_lru mc)"
  "mc_elem (removeElement e k mc) = mc_elem mc"
  "mc_next (removeElement e k mc) = mc_next mc"
  "mc_stopped (removeElement e k mc) = mc_stopped mc"
  "mc_config (removeElement e k mc) = mc_config mc"
  "bc_serializer (mc_base (removeElement e k mc)) = bc_serializer (mc_base mc)"
  by (simp_all add: removeElement_def list_Remove_def)

lemma touch_sel [simp]:
  "mc_items (touch e mc) = mc_items mc" "mc_elem (touch e mc) = mc_elem mc"
  "mc_next (touch e mc) = mc_next mc" "mc_base (touch e mc) = mc_base mc"
  "mc_stopped (touch e mc) = mc_stopped mc"
  by (simp_all add: touch_def)

section \<open>The invariant\<close>

text \<open>
  \<open>mc_links\<close>: the item map and the list agree, element by element. \<open>mc_counts\<close>: with statistics
  enabled, \<open>Size\<close> and \<open>Memory\<close> are the number of elements and the sum of their data sizes;
  with statistics disabled \<open>Size\<close> never leaves 0.
\<close>

definition mc_links :: "MemoryCache \<Rightarrow> bool" where
  "mc_links mc \<longleftrightarrow> distinct (mc_lru mc) \<and> (\<forall>e\<in>set (mc_lru mc). e < mc_next mc) \<and>
     (\<forall>k e. mc_items mc k = Some e \<longleftrightarrow> e \<in> set (mc_lru mc) \<and> it_Key (item_at mc e) = k)"

definition mc_counts :: "MemoryCache \<Rightarrow> bool" where
  "mc_counts mc \<longleftrightarrow> (if cfg_EnableStats (mc_config mc)
     then cs_Size (mc_stats mc) = int (length (mc_lru mc)) \<and>
       cs_Memory (mc_stats mc) = sum_list (map (\<lambda>e. mi_dataSize (mc_elem mc e)) (mc_lru mc))
     else cs_Size (mc_stats mc) = 0)"

definition mc_sizes :: "MemoryCache \<Rightarrow> bool" where
  "mc_sizes mc \<longleftrightarrow> (\<forall>e\<in>set (mc_lru mc). mi_dataSize (mc_elem mc e) = int (length (it_Value (item_at mc e))))"

definition mc_inv :: "MemoryCache \<Rightarrow> bool" where
  "mc_inv mc \<longleftrightarrow> mc_links mc \<and> mc_counts mc \<and> mc_sizes mc \<and> ratio_ok (mc_stats mc)"

lemma mc_invD:
  assumes "mc_inv mc"
  shows "distinct (mc_lru mc)" "ratio_ok (mc_stats mc)" "mc_counts mc" "mc_links mc" "mc_sizes mc"
    and "mc_items mc k = Some e \<longleftrightarrow> e \<in> set (mc_lru mc) \<and> it_Key (item_at mc e) = k"
  using assms by (auto simp: mc_inv_def mc_links_def)

lemma same_key_eq:
  assumes "mc_inv mc" "e \<in> set (mc_lru mc)" "e' \<in> set (mc_lru mc)"
    "it_Key (item_at mc e') = it_Key (item_at mc e)"
  shows "e' = e"
  using assms mc_invD(6) [OF assms(1), of "it_Key (item_at mc e)"] by (metis option.inject)

lemma mc_inv_new [inv_intros]: "mc_inv (NewMemoryCacheWithConfig json config)"
  by (simp add: NewMemoryCacheWithConfig_def NewBaseCache_def mc_inv_def mc_links_def mc_counts_def
      mc_sizes_def Let_def) (simp add: zero_stats_def)

lemma mc_inv_emit [inv_intros]: "mc_inv mc \<Longrightarrow> mc_inv (on_base (emitEvent now ty k v err) mc)"
  by (simp add: mc_inv_def mc_links_def mc_counts_def mc_sizes_def)

lemma mc_inv_stats [inv_intros]:
  assumes "mc_inv mc" "cs_Size (fn (mc_stats mc)) = cs_Size (mc_stats mc)"
    "cs_Memory (fn (mc_stats mc)) = cs_Memory (mc_stats mc)"
    "cs_HitRatio (fn (mc_stats mc)) = cs_HitRatio (mc_stats mc)"
    "cs_Hits (fn (mc_stats mc)) \<ge> cs_Hits (mc_stats mc)"
    "cs_Misses (fn (mc_stats mc)) \<ge> cs_Misses (mc_stats mc)"
  shows "mc_inv (on_base (updateStats fn) mc)"
  using assms updateStats_ratio_ok [of "mc_base mc" fn]
  by (auto simp: mc_inv_def mc_links_def mc_counts_def mc_sizes_def stats_updateStats)

lemma mc_inv_recordError [inv_intros]: "mc_inv mc \<Longrightarrow> mc_inv (on_base (recordError now e) mc)"
  unfolding recordError_def by (rule mc_inv_stats) simp_all

lemma set_MoveToFront [simp]: "set (MoveToFront e xs) = set xs"
  by (auto simp: MoveToFront_def dest: in_set_remove1 [THEN iffD1, rotated] set_remove1_subset [THEN subsetD])
    (metis in_set_remove1)

lemma distinct_MoveToFront: "distinct xs \<Longrightarrow> distinct (MoveToFront e xs)"
  by (simp add: MoveToFront_def)

lemma length_MoveToFront [simp]: "length (MoveToFront e xs) = length xs"
  by (auto simp: MoveToFront_def length_remove1) (metis length_pos_if_in_set Suc_pred)

lemma sum_MoveToFront:
  fixes f :: "nat \<Rightarrow> int"
  shows "sum_list (map f (MoveToFront e xs)) = sum_list (map f xs)"
  by (simp add: MoveToFront_def sum_list_remove1)

lemma mc_inv_touch [inv_intros]: "mc_inv mc \<Longrightarrow> mc_inv (touch e mc)"
  by (simp add: touch_def)
    (simp add: mc_inv_def mc_links_def mc_counts_def mc_sizes_def distinct_MoveToFront sum_MoveToFront)

lemma mc_inv_set_item [inv_intros]:
  assumes "mc_inv mc" "it_Key i = it_Key (item_at mc e)" "it_Value i = it_Value (item_at mc e)"
  shows "mc_inv (set_item e i mc)"
proof -
  have "(\<lambda>x. mi_dataSize (if x = e then (mc_elem mc e)\<lparr>mi_item := i\<rparr> else mc_elem mc x))
      = (\<lambda>x. mi_dataSize (mc_elem mc x))" by auto
  with assms show ?thesis
    by (auto simp: mc_inv_def mc_links_def mc_counts_def mc_sizes_def)
qed

lemma mc_inv_removeElement [inv_intros]:
  assumes "mc_inv mc" "mc_items mc k = Some e"
  shows "mc_inv (removeElement e k mc)"
proof -
  from assms have e: "e \<in> set (mc_lru mc)" "it_Key (item_at mc e) = k" and d: "distinct (mc_lru mc)"
    by (auto simp: mc_invD)
  have "ratio_ok (mc_stats (removeElement e k mc))"
    using assms by (auto simp: removeElement_def mc_inv_def intro!: updateStats_ratio_ok)
  moreover have "mc_counts (removeElement e k mc)"
    using assms e
    by (auto simp: removeElement_def mc_inv_def mc_counts_def stats_updateStats list_Remove_def
        sum_list_remove1 int_length_remove1)
  moreover have uniq: "it_Key (item_at mc e') \<noteq> k" if "e' \<in> set (mc_lru mc)" "e' \<noteq> e" for e'
    using same_key_eq [OF assms(1) e(1) that(1)] that(2) e(2) by auto
  have "((mc_items mc)(k := None)) k' = Some e' \<longleftrightarrow>
      e' \<in> set (mc_lru mc) - {e} \<and> it_Key (item_at mc e') = k'" for k' e'
    using mc_invD(6) [OF assms(1), of k' e'] e(2) uniq [of e'] by auto
  then have "mc_links (removeElement e k mc)"
    using assms(1) d by (simp add: mc_inv_def mc_links_def)
  moreover have "mc_sizes (removeElement e k mc)"
    using assms(1) d by (simp add: mc_inv_def mc_sizes_def)
  ultimately show ?thesis by (simp add: mc_inv_def)
qed

lemma last_in_items:
  assumes "mc_inv mc" "mc_lru mc \<noteq> []"
  shows "mc_items mc (it_Key (item_at mc (last (mc_lru mc)))) = Some (last (mc_lru mc))"
  using assms by (simp add: mc_invD)

lemma mc_inv_evictLRU [inv_intros]:
  assumes "mc_inv mc"
  shows "mc_inv (evictLRU now mc)"
  using assms last_in_items [OF assms]
  by (auto simp: evictLRU_def Let_def list_Back_def intro!: inv_intros)

lemma mc_inv_Set_existing [inv_intros]:
  assumes inv: "mc_inv mc" and k: "mc_items mc k = Some e"
    and m: "it_Key (mi_item m) = k" "mi_dataSize m = int (length (it_Value (mi_item m)))"
  shows "mc_inv (Set_existing e m mc)"
proof -
  from inv k have e: "e \<in> set (mc_lru mc)" "it_Key (item_at mc e) = k" and d: "distinct (mc_lru mc)"
    by (auto simp: mc_invD)
  let ?m = "Set_existing e m mc"
  have lru: "mc_lru ?m = (if cfg_EnableLRU (mc_config mc) then MoveToFront e (mc_lru mc) else mc_lru mc)"
    and [simp]: "mc_items ?m = mc_items mc" "mc_elem ?m = (mc_elem mc)(e := m)" "mc_next ?m = mc_next mc"
      "mc_config ?m = mc_config mc"
    by (auto simp: Set_existing_def Let_def touch_def)
  have "mc_links ?m" "mc_sizes ?m"
    using inv k m e d
    by (auto simp: mc_links_def mc_sizes_def mc_inv_def lru distinct_MoveToFront)
  moreover have "ratio_ok (mc_stats ?m)"
    using inv by (auto simp: Set_existing_def Let_def mc_inv_def intro!: updateStats_ratio_ok)
  moreover have "mc_counts ?m"
    using inv e d
    by (auto simp: mc_counts_def lru sum_MoveToFront sum_list_upd mc_inv_def)
      (auto simp: Set_existing_def Let_def stats_updateStats)
  ultimately show ?thesis by (simp add: mc_inv_def)
qed

lemma mc_inv_options [inv_intros]:
  "mc_inv mc \<Longrightarrow> mc_inv (WithMaxSize n mc)" "mc_inv mc \<Longrightarrow> mc_inv (WithDefaultTTL ttl mc)"
  "mc_inv mc \<Longrightarrow> mc_inv (WithLRUEviction b mc)" "mc_inv mc \<Longrightarrow> mc_inv (WithCleanupInterval ttl mc)"
  "mc_inv mc \<Longrightarrow> mc_inv (WithEventHandler b mc)"
  by (simp_all add: mc_inv_def mc_links_def mc_counts_def mc_sizes_def ratio_ok_def WithMaxSize_def
      WithDefaultTTL_def WithLRUEviction_def WithCleanupInterval_def WithEventHandler_def)

text \<open>\<open>Set_new\<close> splits into the insertion of a fresh element and the eviction check.\<close>

definition Set_insert :: "string \<Rightarrow> memoryItem \<Rightarrow> MemoryCache \<Rightarrow> MemoryCache" where
  "Set_insert fk m mc =
     on_base (updateStats (\<lambda>s. s\<lparr>cs_Size := cs_Size s + 1, cs_Memory := cs_Memory s + mi_dataSize m\<rparr>))
       (mc\<lparr>mc_elem := (mc_elem mc)(mc_next mc := m), mc_next := mc_next mc + 1,
           mc_lru := mc_next mc # mc_lru mc, mc_items := (mc_items mc)(fk := Some (mc_next mc))\<rparr>)"

lemma Set_new_eq:
  "Set_new now fk m mc =
     (if cfg_MaxSize (mc_config mc) > 0 \<and> cs_Size (mc_stats (Set_insert fk m mc)) > cfg_MaxSize (mc_config mc)
      then evictLRU now (Set_insert fk m mc) else Set_insert fk m mc)"
  by (simp add: Set_new_def Set_insert_def Let_def)

lemma Set_insert_sel [simp]:
  "mc_items (Set_insert fk m mc) = (mc_items mc)(fk := Some (mc_next mc))"
  "mc_lru (Set_insert fk m mc) = mc_next mc # mc_lru mc"
  "mc_elem (Set_insert fk m mc) = (mc_elem mc)(mc_next mc := m)"
  "mc_next (Set_insert fk m mc) = mc_next mc + 1"
  "mc_config (Set_insert fk m mc) = mc_config mc"
  "bc_serializer (mc_base (Set_insert fk m mc)) = bc_serializer (mc_base mc)"
  by (simp_all add: Set_insert_def)

lemma fresh_notin: "mc_inv mc \<Longrightarrow> mc_next mc \<notin> set (mc_lru mc)"
  by (auto simp: mc_inv_def mc_links_def)

lemma mc_inv_Set_insert [inv_intros]:
  assumes inv: "mc_inv mc" and k: "mc_items mc fk = None"
    and m: "it_Key (mi_item m) = fk" "mi_dataSize m = int (length (it_Value (mi_item m)))"
  shows "mc_inv (Set_insert fk m mc)"
proof -
  note fresh = fresh_notin [OF inv]
  have "it_Key (item_at mc e) \<noteq> fk" if "e \<in> set (mc_lru mc)" for e
    using that k mc_invD(6) [OF inv, of fk e] by auto
  then have "mc_links (Set_insert fk m mc)"
    using inv m fresh by (force simp: mc_inv_def mc_links_def)
  moreover have "mc_sizes (Set_insert fk m mc)"
    using inv m by (auto simp: mc_inv_def mc_sizes_def)
  moreover have "ratio_ok (mc_stats (Set_insert fk m mc))"
    using inv by (auto simp: Set_insert_def mc_inv_def intro!: updateStats_ratio_ok)
  moreover have "mc_counts (Set_insert fk m mc)"
    using inv fresh
    by (auto simp: mc_inv_def mc_counts_def sum_list_upd_notin)
      (auto simp: Set_insert_def stats_updateStats)
  ultimately show ?thesis by (simp add: mc_inv_def)
qed

lemma mc_inv_Set_new [inv_intros]:
  assumes "mc_inv mc" "mc_items mc fk = None"
    "it_Key (mi_item m) = fk" "mi_dataSize m = int (length (it_Value (mi_item m)))"
  shows "mc_inv (Set_new now fk m mc)"
  using mc_inv_Set_insert [OF assms] by (simp add: Set_new_eq mc_inv_evictLRU)

lemma new_item_sel [simp]:
  "it_Key (new_item now fk data ttl ns) = fk" "it_Value (new_item now fk data ttl ns) = data"
  by (simp_all add: new_item_def)

lemma mc_inv_Set [inv_intros]: "mc_inv mc \<Longrightarrow> mc_inv (fst (Set now k v ttl mc))"
  by (auto simp: Set_def Let_def intro!: inv_intros split: sum.split option.split)

lemma mc_inv_Get [inv_intros]: "mc_inv mc \<Longrightarrow> mc_inv (fst (Get now k d mc))"
  by (auto simp: Get_def Let_def intro!: inv_intros split: sum.split option.split)

lemma mc_inv_Delete [inv_intros]: "mc_inv mc \<Longrightarrow> mc_inv (fst (Delete now k mc))"
  by (auto simp: Delete_def Let_def intro!: inv_intros split: option.split)

lemma mc_inv_Exists [inv_intros]: "mc_inv mc \<Longrightarrow> mc_inv (fst (Exists now k mc))"
  by (auto simp: Exists_def Exists_check_def Let_def intro!: inv_intros split: option.split)

lemma mc_inv_Clear [inv_intros]:
  assumes "mc_inv mc"
  shows "mc_inv (fst (Clear now mc))"
proof -
  have "ratio_ok (bc_stats (updateStats (\<lambda>s. s\<lparr>cs_Size := 0, cs_Memory := 0\<rparr>) (mc_base mc)))"
    using mc_invD(2) [OF assms] by (rule updateStats_ratio_ok) simp_all
  then have "mc_inv (on_base (updateStats (\<lambda>s. s\<lparr>cs_Size := 0, cs_Memory := 0\<rparr>)) (mc\<lparr>mc_items := Map.empty, mc_lru := []\<rparr>))"
    using mc_invD(3) [OF assms]
    by (simp add: mc_inv_def mc_links_def mc_counts_def mc_sizes_def)
      (auto simp: stats_updateStats split: if_splits)
  then show ?thesis by (simp add: Clear_def mc_inv_emit)
qed

lemma mc_inv_SetTTL [inv_intros]: "mc_inv mc \<Longrightarrow> mc_inv (fst (SetTTL now k ttl mc))"
  by (auto simp: SetTTL_def Let_def intro!: mc_inv_set_item split: option.split)

lemma mc_inv_GetMulti [inv_intros]: "mc_inv mc \<Longrightarrow> mc_inv (fst (GetMulti now ks mc))"
proof -
  have "mc_inv mc \<Longrightarrow> mc_inv (fst (GetMulti_loop now ks r mc))" for r
  proof (induction ks arbitrary: mc r)
    case Nil
    then show ?case by simp
  next
    case (Cons k ks)
    with mc_inv_Get [OF Cons.prems, of now k DestAny] show ?case
      by (auto split: prod.split sum.split option.split)
  qed
  then show "mc_inv mc \<Longrightarrow> ?thesis" by (simp add: GetMulti_def)
qed

lemma mc_inv_SetMulti [inv_intros]: "mc_inv mc \<Longrightarrow> mc_inv (fst (SetMulti now kvs ttl mc))"
proof (induction now kvs ttl mc rule: SetMulti.induct)
  case (2 now k v kvs ttl mc)
  with mc_inv_Set [OF "2.prems", of now k v ttl] show ?case
    by (auto split: prod.split sum.split)
qed simp

lemma mc_inv_DeleteMulti [inv_intros]: "mc_inv mc \<Longrightarrow> mc_inv (fst (DeleteMulti now ks mc))"
proof (induction now ks mc rule: DeleteMulti.induct)
  case (2 now k ks mc)
  with mc_inv_Delete [OF "2.prems", of now k] show ?case
    by (auto split: prod.split sum.split)
qed simp

lemma mc_inv_remove_expired: "mc_inv mc \<Longrightarrow> mc_inv (remove_expired now ks mc)"
  by (induction now ks mc rule: remove_expired.induct) (auto split: option.split intro!: inv_intros)

lemma mc_inv_cleanupExpired [inv_intros]: "mc_inv mc \<Longrightarrow> mc_inv (cleanupExpired now keys mc)"
  by (simp add: cleanupExpired_def mc_inv_remove_expired)

lemma mc_inv_startCleanup [inv_intros]: "mc_inv mc \<Longrightarrow> mc_inv (startCleanup es mc)"
  by (induction es mc rule: startCleanup.induct) (simp_all add: mc_inv_cleanupExpired)

section \<open>What the cache holds\<close>

text \<open>
  The data stored under a user key and still live at time \<open>t\<close>: what a \<open>Get\<close> at that time would
  hand to the deserializer.
\<close>

definition live_data :: "time \<Rightarrow> MemoryCache \<Rightarrow> string \<Rightarrow> bytes option" where
  "live_data t mc k =
     (case mc_items mc (formatKey (mc_base mc) k) of
        None \<Rightarrow> None
      | Some e \<Rightarrow> if IsExpired t (item_at mc e) then None else Some (it_Value (item_at mc e)))"

lemma live_data_on_base [simp]:
  "live_data t (on_base (emitEvent now ty k v err) mc) = live_data t mc"
  "live_data t (on_base (updateStats fn) mc) = live_data t mc"
  "live_data t (on_base (recordError now e) mc) = live_data t mc"
  "live_data t (touch el mc) = live_data t mc"
  by (simp_all add: live_data_def fun_eq_iff split: option.split)

lemma IsExpired_mono: "IsExpired now i \<Longrightarrow> now \<le> t \<Longrightarrow> IsExpired t i"
  by (auto simp: IsExpired_def)

lemma formatKey_removeElement [simp]:
  "formatKey (mc_base (removeElement e fk mc)) k = formatKey (mc_base mc) k"
  by (simp add: removeElement_def)

lemma live_data_removeElement:
  "live_data t (removeElement e (formatKey (mc_base mc) k) mc) = (live_data t mc)(k := None)"
  by (auto simp: live_data_def fun_eq_iff formatKey_inj split: option.split)

lemma live_data_touch_item:
  assumes "mc_inv mc" "it_Value i = it_Value (item_at mc e)" "it_ExpiresAt i = it_ExpiresAt (item_at mc e)"
  shows "live_data t (set_item e i mc) = live_data t mc"
  using assms by (auto simp: live_data_def fun_eq_iff IsExpired_def split: option.split)

lemma Get_live_data:
  assumes "mc_inv mc" "now \<le> t"
  shows "live_data t (fst (Get now k d mc)) = live_data t mc"
proof (cases "mc_items mc (formatKey (mc_base mc) k)")
  case None
  then show ?thesis by (simp add: Get_def)
next
  case (Some e)
  show ?thesis
  proof (cases "IsExpired now (item_at mc e)")
    case True
    then have "live_data t mc k = None"
      using Some assms(2) by (simp add: live_data_def IsExpired_mono)
    then show ?thesis
      using True Some by (simp add: Get_def live_data_removeElement fun_upd_idem)
  next
    case False
    then show ?thesis
      using Some assms(1) by (simp add: Get_def Let_def live_data_touch_item split: sum.split)
  qed
qed

lemma Get_result:
  "snd (Get now k d mc) =
     (case live_data now mc k of
        None \<Rightarrow> Inr None
      | Some data \<Rightarrow> (case Deserialize (bc_serializer (mc_base mc)) data d of
          Inl err \<Rightarrow> Inl (NewCacheError ''get'' k err) | Inr v \<Rightarrow> Inr (Some v)))"
  by (auto simp: Get_def live_data_def Let_def split: option.split sum.split)

lemma Delete_live_data:
  "live_data t (fst (Delete now k mc)) = (live_data t mc)(k := None)"
  by (auto simp: Delete_def Let_def live_data_removeElement split: option.split)
    (auto simp: live_data_def fun_eq_iff)

lemma Exists_result: "snd (Exists now k mc) = Inr (live_data now mc k \<noteq> None)"
  by (auto simp: Exists_def Exists_check_def live_data_def Let_def split: option.split)

lemma Exists_live_data:
  "now \<le> t \<Longrightarrow> live_data t (fst (Exists now k mc)) = live_data t mc"
  by (auto simp: Exists_def Exists_check_def Let_def live_data_removeElement fun_upd_idem split: option.split)
    (rule fun_upd_idem, simp add: live_data_def IsExpired_mono)

lemma Clear_live_data: "live_data t (fst (Clear now mc)) = Map.empty"
  by (simp add: Clear_def live_data_def fun_eq_iff)

lemma IsExpired_new_item:
  "IsExpired t (new_item now fk data ttl ns) \<longleftrightarrow> \<not> live_until now ttl t"
  by (auto simp: IsExpired_def new_item_def live_until_def zero_time_def)

lemma live_data_remove_raw:
  "live_data t (removeElement e fk mc) k = (if formatKey (mc_base mc) k = fk then None else live_data t mc k)"
  by (auto simp: live_data_def split: option.split)

lemma live_data_evictLRU:
  "live_data t (evictLRU now mc) k =
     (if cfg_EnableLRU (mc_config mc) \<and> mc_lru mc \<noteq> [] \<and>
         formatKey (mc_base mc) k = it_Key (item_at mc (last (mc_lru mc)))
      then None else live_data t mc k)"
  by (simp add: evictLRU_def list_Back_def Let_def live_data_remove_raw)

lemma live_data_Set_insert:
  assumes "mc_inv mc"
  shows "live_data t (Set_insert fk m mc) k =
     (if formatKey (mc_base mc) k = fk
      then (if IsExpired t (mi_item m) then None else Some (it_Value (mi_item m)))
      else live_data t mc k)"
proof -
  have "mc_items mc k' \<noteq> Some (mc_next mc)" for k'
    using assms fresh_notin [OF assms] by (auto simp: mc_invD)
  then show ?thesis
    by (auto simp: live_data_def Set_insert_def split: option.split)
qed

lemma live_data_Set_existing:
  assumes "mc_inv mc" "mc_items mc fk = Some e"
  shows "live_data t (Set_existing e m mc) k =
     (if formatKey (mc_base mc) k = fk
      then (if IsExpired t (mi_item m) then None else Some (it_Value (mi_item m)))
      else live_data t mc k)"
proof -
  have other: "e' \<noteq> e" if "mc_items mc k' = Some e'" "k' \<noteq> fk" for k' e'
    using that assms(2) mc_invD(6) [OF assms(1)] by metis
  have sel: "mc_items (Set_existing e m mc) = mc_items mc" "mc_elem (Set_existing e m mc) = (mc_elem mc)(e := m)"
    "formatKey (mc_base (Set_existing e m mc)) k = formatKey (mc_base mc) k"
    by (simp_all add: Set_existing_def Let_def)
  show ?thesis
  proof (cases "formatKey (mc_base mc) k = fk")
    case True
    with assms(2) show ?thesis by (simp add: live_data_def sel)
  next
    case False
    then show ?thesis
      using other [of "formatKey (mc_base mc) k"] by (simp add: live_data_def sel split: option.split)
  qed
qed

text \<open>
  The entry just inserted is never the one evicted: an eviction needs more than \<open>MaxSize\<close>,
  hence at least two, entries, and the new one is at the front.
\<close>

lemma Set_insert_evicts_another:
  assumes inv: "mc_inv mc" and max: "cfg_MaxSize (mc_config mc) > 0"
    and big: "cs_Size (mc_stats (Set_insert fk m mc)) > cfg_MaxSize (mc_config mc)"
  shows "cfg_EnableStats (mc_config mc)" "mc_lru mc \<noteq> []"
    "last (mc_lru (Set_insert fk m mc)) = last (mc_lru mc)" "last (mc_lru mc) \<noteq> mc_next mc"
proof -
  show st: "cfg_EnableStats (mc_config mc)"
  proof (rule ccontr)
    assume "\<not> ?thesis"
    then have "cs_Size (mc_stats (Set_insert fk m mc)) = 0"
      using inv by (simp add: Set_insert_def stats_updateStats mc_inv_def mc_counts_def)
    with max big show False by simp
  qed
  then have "cs_Size (mc_stats (Set_insert fk m mc)) = int (length (mc_lru mc)) + 1"
    using inv by (simp add: Set_insert_def stats_updateStats mc_inv_def mc_counts_def)
  with max big show ne: "mc_lru mc \<noteq> []" by auto
  then show "last (mc_lru (Set_insert fk m mc)) = last (mc_lru mc)" by simp
  show "last (mc_lru mc) \<noteq> mc_next mc"
    using ne fresh_notin [OF inv] by (metis last_in_set)
qed

lemma live_data_Set_new:
  assumes inv: "mc_inv mc" and fk: "formatKey (mc_base mc) k = fk" and None: "mc_items mc fk = None"
  shows "live_data t (Set_new now fk m mc) k = live_data t (Set_insert fk m mc) k"
proof (cases "cfg_MaxSize (mc_config mc) > 0 \<and> cs_Size (mc_stats (Set_insert fk m mc)) > cfg_MaxSize (mc_config mc)")
  case True
  note other = Set_insert_evicts_another [OF inv conjunct1 [OF True] conjunct2 [OF True]]
  have fmt: "formatKey (mc_base (Set_insert fk m mc)) k = fk"
    using fk by (simp add: Set_insert_def)
  have "it_Key (item_at mc (last (mc_lru mc))) \<noteq> fk"
    using last_in_items [OF inv other(2)] None by (metis option.distinct(1))
  then have "it_Key (item_at (Set_insert fk m mc) (last (mc_lru (Set_insert fk m mc)))) \<noteq> fk"
    using other by simp
  then have "live_data t (evictLRU now (Set_insert fk m mc)) k = live_data t (Set_insert fk m mc) k"
    by (auto simp: live_data_evictLRU fmt)
  with True show ?thesis by (simp add: Set_new_eq)
next
  case False
  then show ?thesis by (simp only: Set_new_eq if_False)
qed

lemma Set_live_data_self:
  assumes inv: "mc_inv mc" and ser: "Serialize (bc_serializer (mc_base mc)) v = Inr data"
  shows "live_data t (fst (Set now k v ttl mc)) k =
     (if live_until now (calculateTTL (mc_base mc) ttl) t then Some data else None)"
proof (cases "mc_items mc (formatKey (mc_base mc) k)")
  case (Some e)
  then show ?thesis
    using inv ser by (simp add: Set_def Let_def live_data_Set_existing IsExpired_new_item)
next
  case None
  then show ?thesis
    using ser inv
    by (simp add: Set_def Let_def live_data_Set_new live_data_Set_insert IsExpired_new_item)
qed

lemma Set_live_data_other:
  assumes inv: "mc_inv mc" and "k' \<noteq> k"
  shows "live_data t (fst (Set now k v ttl mc)) k' \<in> {None, live_data t mc k'}"
  using assms
  by (auto simp: Set_def Let_def live_data_Set_existing formatKey_inj Set_new_eq
      live_data_evictLRU live_data_Set_insert split: sum.split option.split)

lemma Set_error_live_data:
  "Serialize (bc_serializer (mc_base mc)) v = Inl err \<Longrightarrow> live_data t (fst (Set now k v ttl mc)) = live_data t mc"
  by (simp add: Set_def)

lemma Set_result:
  "snd (Set now k v ttl mc) = (case Serialize (bc_serializer (mc_base mc)) v of
     Inl err \<Rightarrow> Inl (NewCacheError ''set'' k err) | Inr _ \<Rightarrow> Inr ())"
  by (simp add: Set_def Let_def split: sum.split)

section \<open>Refinement of an abstract LRU list\<close>

text \<open>
  The abstract cache is a list of key/item pairs, most recently used first. \<open>mc_abs\<close> reads it
  off the linked structure.
\<close>

type_synonym lru_list = "(string \<times> Item) list"

definition mc_abs :: "MemoryCache \<Rightarrow> lru_list" where
  "mc_abs mc = map (\<lambda>e. (it_Key (item_at mc e), item_at mc e)) (mc_lru mc)"

definition lru_delete :: "string \<Rightarrow> lru_list \<Rightarrow> lru_list" where
  "lru_delete k xs = filter (\<lambda>p. fst p \<noteq> k) xs"

definition lru_bound :: "int \<Rightarrow> lru_list \<Rightarrow> lru_list" where
  "lru_bound cap xs = (if cap > 0 \<and> int (length xs) > cap then butlast xs else xs)"

definition lru_set :: "int \<Rightarrow> string \<Rightarrow> Item \<Rightarrow> lru_list \<Rightarrow> lru_list" where
  "lru_set cap k i xs =
     (if k \<in> fst ` set xs then (k, i) # lru_delete k xs else lru_bound cap ((k, i) # xs))"

definition lru_get :: "time \<Rightarrow> string \<Rightarrow> lru_list \<Rightarrow> lru_list" where
  "lru_get now k xs =
     (case map_of xs k of
        None \<Rightarrow> xs
      | Some i \<Rightarrow> if IsExpired now i then lru_delete k xs
                  else (k, i\<lparr>it_AccessAt := now\<rparr>) # lru_delete k xs)"

lemma mc_abs_frame [simp]: "mc_abs (on_base f mc) = mc_abs mc"
  by (simp add: mc_abs_def)

lemma mc_abs_keys: "mc_inv mc \<Longrightarrow> k \<in> fst ` set (mc_abs mc) \<longleftrightarrow> mc_items mc k \<noteq> None"
  by (force simp: mc_abs_def mc_invD)

lemma mc_abs_lookup:
  assumes "mc_inv mc"
  shows "map_of (mc_abs mc) k = map_option (item_at mc) (mc_items mc k)"
proof (cases "mc_items mc k")
  case None
  with assms show ?thesis
    by (simp add: map_of_eq_None_iff mc_abs_keys)
next
  case (Some e)
  then have e: "e \<in> set (mc_lru mc)" "it_Key (item_at mc e) = k"
    using assms by (auto simp: mc_invD)
  have "map fst (mc_abs mc) = map (\<lambda>e. it_Key (item_at mc e)) (mc_lru mc)"
    by (simp add: mc_abs_def)
  then have "distinct (map fst (mc_abs mc))"
    using mc_invD(1) [OF assms] same_key_eq [OF assms] by (auto simp: distinct_map inj_on_def)
  moreover have "(k, item_at mc e) \<in> set (mc_abs mc)"
    using e by (auto simp: mc_abs_def)
  ultimately show ?thesis using Some by (simp add: map_of_is_SomeI)
qed

lemma mc_abs_remove1:
  assumes "mc_inv mc" "mc_items mc k = Some e"
  shows "map (\<lambda>e. (it_Key (item_at mc e), item_at mc e)) (remove1 e (mc_lru mc)) = lru_delete k (mc_abs mc)"
proof -
  from assms have e: "e \<in> set (mc_lru mc)" "it_Key (item_at mc e) = k"
    by (auto simp: mc_invD)
  show ?thesis
    using map_remove1_filter [OF mc_invD(1) [OF assms(1)], of "\<lambda>e. it_Key (item_at mc e)" e "item_at mc"]
      same_key_eq [OF assms(1) e(1)] e(2)
    by (simp add: lru_delete_def mc_abs_def)
qed

lemma mc_abs_removeElement:
  "mc_inv mc \<Longrightarrow> mc_items mc k = Some e \<Longrightarrow> mc_abs (removeElement e k mc) = lru_delete k (mc_abs mc)"
  by (simp add: mc_abs_remove1 [symmetric]) (simp add: mc_abs_def)

lemma mc_abs_evictLRU:
  assumes "mc_inv mc" "cfg_EnableLRU (mc_config mc)"
  shows "mc_abs (evictLRU now mc) = butlast (mc_abs mc)"
  using assms mc_invD(1) [OF assms(1)]
  by (simp add: evictLRU_def list_Back_def Let_def)
    (simp add: mc_abs_def remove1_last map_butlast)

lemma mc_abs_upd_front:
  assumes "mc_inv mc" "mc_items mc k = Some e"
  shows "map (\<lambda>x. (it_Key (mi_item (if x = e then m else mc_elem mc x)), mi_item (if x = e then m else mc_elem mc x)))
      (MoveToFront e (mc_lru mc)) = (it_Key (mi_item m), mi_item m) # lru_delete k (mc_abs mc)"
proof -
  from assms have e: "e \<in> set (mc_lru mc)" and "e \<notin> set (remove1 e (mc_lru mc))"
    using mc_invD(1) [OF assms(1)] by (auto simp: mc_invD)
  then have "map (\<lambda>x. (it_Key (mi_item (if x = e then m else mc_elem mc x)), mi_item (if x = e then m else mc_elem mc x)))
      (remove1 e (mc_lru mc)) = map (\<lambda>e. (it_Key (item_at mc e), item_at mc e)) (remove1 e (mc_lru mc))"
    by (intro map_cong) auto
  with e show ?thesis by (simp add: MoveToFront_def mc_abs_remove1 [OF assms])
qed

lemma mc_abs_Set_new:
  assumes inv: "mc_inv mc" and None: "mc_items mc fk = None" and key: "it_Key (mi_item m) = fk"
    and sz: "mi_dataSize m = int (length (it_Value (mi_item m)))"
    and lru: "cfg_EnableLRU (mc_config mc)" and st: "cfg_EnableStats (mc_config mc)"
  shows "mc_abs (Set_new now fk m mc) = lru_bound (cfg_MaxSize (mc_config mc)) ((fk, mi_item m) # mc_abs mc)"
proof -
  have ins: "mc_inv (Set_insert fk m mc)"
    using inv None key sz by (rule mc_inv_Set_insert)
  have abs: "mc_abs (Set_insert fk m mc) = (fk, mi_item m) # mc_abs mc"
    using fresh_notin [OF inv] key by (auto simp: mc_abs_def)
  have "cs_Size (mc_stats (Set_insert fk m mc)) = int (length (mc_abs (Set_insert fk m mc)))"
    using mc_invD(3) [OF ins] st by (simp add: mc_counts_def mc_abs_def)
  then show ?thesis
    using lru by (simp add: Set_new_eq lru_bound_def mc_abs_evictLRU [OF ins] abs)
qed

section \<open>Runs of the cache\<close>

text \<open>
  One step is one critical section of a public operation or of the cleanup goroutine, at any time and with
  any arguments. Every operation but \<open>Exists\<close> is one critical section (the \<open>Multi\<close> operations are sequences of
  such).
\<close>

inductive mc_step :: "MemoryCache \<Rightarrow> MemoryCache \<Rightarrow> bool" where
  step_Get: "mc_step mc (fst (Get now k d mc))"
| step_Set: "mc_step mc (fst (Set now k v ttl mc))"
| step_Delete: "mc_step mc (fst (Delete now k mc))"
| step_Clear: "mc_step mc (fst (Clear now mc))"
| step_GetMulti: "mc_step mc (fst (GetMulti now ks mc))"
| step_SetMulti: "mc_step mc (fst (SetMulti now kvs ttl mc))"
| step_DeleteMulti: "mc_step mc (fst (DeleteMulti now ks mc))"
| step_SetTTL: "mc_step mc (fst (SetTTL now k ttl mc))"
| step_cleanup: "mc_step mc (cleanupExpired now ks mc)"

text \<open>
  A state of concurrent use: the cache, the removals of the \<open>Exists\<close> calls that have given the read lock up and do
  not hold the write lock yet, and whether such a removal has met another element under its key, or none,
  because another call came in between.
\<close>

inductive mc_reachable :: "Serializer \<Rightarrow> Config \<Rightarrow> MemoryCache \<Rightarrow> (nat \<times> string) list \<Rightarrow> bool \<Rightarrow> bool" for json config where
  reach_new: "mc_reachable json config (NewMemoryCacheWithConfig json config) [] False"
| reach_step: "mc_reachable json config mc pend raced \<Longrightarrow> mc_step mc mc' \<Longrightarrow> mc_reachable json config mc' pend raced"
| reach_check: "mc_reachable json config mc pend raced \<Longrightarrow> Exists_check now k mc = Inr (e, fk) \<Longrightarrow>
    mc_reachable json config mc ((e, fk) # pend) raced"
| reach_remove: "mc_reachable json config mc pend raced \<Longrightarrow> (e, fk) \<in> set pend \<Longrightarrow>
    mc_reachable json config (removeElement e fk mc) (remove1 (e, fk) pend) (raced \<or> mc_items mc fk \<noteq> Some e)"

text \<open>
  \<open>mc_grows mc mc'\<close>: the configuration is kept and the list grows only within the bound.
\<close>

definition mc_bounded :: "MemoryCache \<Rightarrow> bool" where
  "mc_bounded mc \<longleftrightarrow> (cfg_EnableStats (mc_config mc) \<and> cfg_EnableLRU (mc_config mc) \<and> cfg_MaxSize (mc_config mc) > 0 \<longrightarrow>
     int (length (mc_lru mc)) \<le> cfg_MaxSize (mc_config mc))"

definition mc_good :: "MemoryCache \<Rightarrow> MemoryCache \<Rightarrow> bool" where
  "mc_good mc mc' \<longleftrightarrow> mc_config mc' = mc_config mc \<and> bc_serializer (mc_base mc') = bc_serializer (mc_base mc) \<and>
     mc_inv mc' \<and> mc_bounded mc'"

lemma length_touch [simp]: "length (mc_lru (touch e mc)) = length (mc_lru mc)"
  by (simp add: touch_def)

lemma length_lru_removeElement: "length (mc_lru (removeElement e k mc)) \<le> length (mc_lru mc)"
  by (simp add: length_remove1)

lemma mc_good_shrink:
  assumes "mc_bounded mc" "mc_inv mc'" "mc_config mc' = mc_config mc"
    "bc_serializer (mc_base mc') = bc_serializer (mc_base mc)" "length (mc_lru mc') \<le> length (mc_lru mc)"
  shows "mc_good mc mc'"
  using assms by (auto simp: mc_good_def mc_bounded_def)

lemma length_mc_abs [simp]: "length (mc_abs mc) = length (mc_lru mc)"
  by (simp add: mc_abs_def)

lemma evictLRU_config [simp]:
  "mc_config (evictLRU now mc) = mc_config mc"
  "bc_serializer (mc_base (evictLRU now mc)) = bc_serializer (mc_base mc)"
  by (simp_all add: evictLRU_def Let_def split: option.split)

lemma length_lru_bound: "0 < cap \<Longrightarrow> int (length xs) \<le> cap \<Longrightarrow> int (length (lru_bound cap (x # xs))) \<le> cap"
  by (simp add: lru_bound_def)

lemma Set_new_bounded:
  assumes "mc_inv mc" "mc_bounded mc" "mc_items mc fk = None" "it_Key (mi_item m) = fk"
    "mi_dataSize m = int (length (it_Value (mi_item m)))"
  shows "mc_bounded (Set_new now fk m mc)"
proof -
  have cfg: "mc_config (Set_new now fk m mc) = mc_config mc"
    by (simp add: Set_new_eq)
  {
    assume on: "cfg_EnableStats (mc_config mc)" "cfg_EnableLRU (mc_config mc)" "cfg_MaxSize (mc_config mc) > 0"
    have "int (length (mc_abs (Set_new now fk m mc))) \<le> cfg_MaxSize (mc_config mc)"
      using assms on by (simp add: mc_abs_Set_new length_lru_bound mc_bounded_def del: length_mc_abs)
        (simp add: length_lru_bound)
  }
  then show ?thesis by (simp add: mc_bounded_def cfg)
qed

lemma mc_bounded_frame [simp]:
  "mc_bounded (on_base (emitEvent now ty k v err) mc) = mc_bounded mc"
  "mc_bounded (on_base (updateStats fn) mc) = mc_bounded mc"
  "mc_bounded (Set_existing e m mc) = mc_bounded mc"
  by (simp_all add: mc_bounded_def Set_existing_def Let_def)

lemma Set_good:
  assumes "mc_inv mc" "mc_bounded mc"
  shows "mc_good mc (fst (Set now k v ttl mc))"
proof -
  have "mc_bounded (fst (Set now k v ttl mc))"
  proof (cases "Serialize (bc_serializer (mc_base mc)) v")
    case (Inl err)
    with assms show ?thesis by (simp add: Set_def mc_bounded_def)
  next
    case (Inr data)
    with assms show ?thesis
      by (auto simp: Set_def Let_def Set_new_bounded split: option.split)
  qed
  moreover have "mc_config (fst (Set now k v ttl mc)) = mc_config mc"
    "bc_serializer (mc_base (fst (Set now k v ttl mc))) = bc_serializer (mc_base mc)"
    by (auto simp: Set_def Let_def Set_new_eq Set_existing_def split: sum.split option.split)
  ultimately show ?thesis using assms(1) by (simp add: mc_good_def mc_inv_Set)
qed

lemma Get_good: "mc_inv mc \<Longrightarrow> mc_bounded mc \<Longrightarrow> mc_good mc (fst (Get now k d mc))"
  by (rule mc_good_shrink [OF _ mc_inv_Get])
    (auto simp: Get_def Let_def length_remove1 split: option.split sum.split)

lemma Delete_good: "mc_inv mc \<Longrightarrow> mc_bounded mc \<Longrightarrow> mc_good mc (fst (Delete now k mc))"
  by (rule mc_good_shrink [OF _ mc_inv_Delete])
    (auto simp: Delete_def Let_def length_remove1 split: option.split)

lemma removeElement_good: "mc_inv mc \<Longrightarrow> mc_bounded mc \<Longrightarrow> mc_items mc fk = Some e \<Longrightarrow> mc_good mc (removeElement e fk mc)"
  by (rule mc_good_shrink [OF _ mc_inv_removeElement]) (auto simp: length_remove1)

lemma Clear_good: "mc_inv mc \<Longrightarrow> mc_bounded mc \<Longrightarrow> mc_good mc (fst (Clear now mc))"
  by (rule mc_good_shrink [OF _ mc_inv_Clear]) (auto simp: Clear_def)

lemma SetTTL_good: "mc_inv mc \<Longrightarrow> mc_bounded mc \<Longrightarrow> mc_good mc (fst (SetTTL now k ttl mc))"
  by (rule mc_good_shrink [OF _ mc_inv_SetTTL]) (auto simp: SetTTL_def Let_def split: option.split)

lemma mc_good_trans: "mc_good mc mc' \<Longrightarrow> (mc_inv mc' \<Longrightarrow> mc_bounded mc' \<Longrightarrow> mc_good mc' mc'') \<Longrightarrow> mc_good mc mc''"
  by (auto simp: mc_good_def)

lemma mc_good_refl: "mc_inv mc \<Longrightarrow> mc_bounded mc \<Longrightarrow> mc_good mc mc"
  by (simp add: mc_good_def)

lemma GetMulti_good: "mc_inv mc \<Longrightarrow> mc_bounded mc \<Longrightarrow> mc_good mc (fst (GetMulti now ks mc))"
proof -
  have "mc_inv mc \<Longrightarrow> mc_bounded mc \<Longrightarrow> mc_good mc (fst (GetMulti_loop now ks r mc))" for r
  proof (induction ks arbitrary: mc r)
    case Nil
    then show ?case by (simp add: mc_good_refl)
  next
    case (Cons k ks)
    have g: "mc_good mc (fst (Get now k DestAny mc))"
      using Cons.prems by (rule Get_good)
    show ?case
      using g mc_good_trans [OF g Cons.IH] by (auto split: prod.split sum.split option.split)
  qed
  then show "mc_inv mc \<Longrightarrow> mc_bounded mc \<Longrightarrow> ?thesis" by (simp add: GetMulti_def)
qed

lemma SetMulti_good: "mc_inv mc \<Longrightarrow> mc_bounded mc \<Longrightarrow> mc_good mc (fst (SetMulti now kvs ttl mc))"
proof (induction kvs arbitrary: mc)
  case Nil
  then show ?case by (simp add: mc_good_refl)
next
  case (Cons p kvs)
  obtain k v where p: "p = (k, v)" by (cases p)
  have g: "mc_good mc (fst (Set now k v ttl mc))"
    using Cons.prems by (rule Set_good)
  show ?case
    using g mc_good_trans [OF g Cons.IH] by (auto simp: p split: prod.split sum.split)
qed

lemma DeleteMulti_good: "mc_inv mc \<Longrightarrow> mc_bounded mc \<Longrightarrow> mc_good mc (fst (DeleteMulti now ks mc))"
proof (induction ks arbitrary: mc)
  case Nil
  then show ?case by (simp add: mc_good_refl)
next
  case (Cons k ks)
  have g: "mc_good mc (fst (Delete now k mc))"
    using Cons.prems by (rule Delete_good)
  show ?case
    using g mc_good_trans [OF g Cons.IH] by (auto split: prod.split sum.split)
qed

lemma remove_expired_frame:
  "mc_config (remove_expired now ks mc) = mc_config mc \<and>
   bc_serializer (mc_base (remove_expired now ks mc)) = bc_serializer (mc_base mc) \<and>
   length (mc_lru (remove_expired now ks mc)) \<le> length (mc_lru mc)"
proof (induction ks arbitrary: mc)
  case (Cons k ks)
  show ?case
  proof (cases "mc_items mc k")
    case (Some e)
    let ?mc = "on_base (emitEvent now EventExpire k None None) (removeElement e k mc)"
    have "length (mc_lru ?mc) \<le> length (mc_lru mc)" by (simp add: length_remove1)
    with Cons.IH [of ?mc] Some show ?thesis by auto
  qed (use Cons.IH [of mc] in simp)
qed simp

lemma cleanupExpired_good: "mc_inv mc \<Longrightarrow> mc_bounded mc \<Longrightarrow> mc_good mc (cleanupExpired now ks mc)"
  by (rule mc_good_shrink [OF _ mc_inv_cleanupExpired])
    (simp_all add: cleanupExpired_def remove_expired_frame)

lemma mc_step_good: "mc_step mc mc' \<Longrightarrow> mc_inv mc \<Longrightarrow> mc_bounded mc \<Longrightarrow> mc_good mc mc'"
  by (induction rule: mc_step.induct)
    (simp_all add: Get_good Set_good Delete_good Clear_good GetMulti_good SetMulti_good
      DeleteMulti_good SetTTL_good cleanupExpired_good)

lemma mc_reachable_good:
  "mc_reachable json config mc pend raced \<Longrightarrow> \<not> raced \<Longrightarrow> mc_good (NewMemoryCacheWithConfig json config) mc"
proof (induction rule: mc_reachable.induct)
  case reach_new
  show ?case
    by (rule mc_good_refl [OF mc_inv_new]) (simp add: mc_bounded_def NewMemoryCacheWithConfig_def)
next
  case (reach_step mc pend raced mc')
  then show ?case using mc_step_good by (auto intro: mc_good_trans)
next
  case (reach_remove mc pend raced e fk)
  then show ?case using removeElement_good [of mc fk e] by (auto intro: mc_good_trans)
qed

lemma GetSize_eq: "mc_inv mc \<Longrightarrow> GetSize mc = int (length (mc_lru mc))"
proof -
  assume inv: "mc_inv mc"
  have "dom (mc_items mc) = (\<lambda>e. it_Key (item_at mc e)) ` set (mc_lru mc)"
    by (auto simp: mc_invD [OF inv])
  moreover have "inj_on (\<lambda>e. it_Key (item_at mc e)) (set (mc_lru mc))"
    using same_key_eq [OF inv] by (auto simp: inj_on_def)
  ultimately have "card (dom (mc_items mc)) = length (mc_lru mc)"
    using mc_invD(1) [OF inv] by (simp add: card_image distinct_card)
  then show ?thesis by (simp add: GetSize_def)
qed

section \<open>Properties\<close>

text \<open>
  C1: with statistics and LRU eviction on and a positive \<open>MaxSize\<close>, in every state reachable from a new cache by
  any interleaving of the critical sections of its operations in which no removal of an \<open>Exists\<close> has come after
  another call removed or replaced the element it saw: the item map and the list agree, the \<open>Size\<close> and
  \<open>Memory\<close> statistics are the number of entries and the sum of their data lengths, and the cache does not hold
  more than \<open>MaxSize\<close> entries. What such a late removal does to \<open>Size\<close> is \<open>memory_exists_race\<close>; without statistics
  nothing is evicted (\<open>memory_no_eviction_without_stats\<close>).
\<close>

theorem memory_cache_bounded:
  assumes "mc_reachable json config mc pend False" "cfg_EnableStats config" "cfg_EnableLRU config" "cfg_MaxSize config > 0"
  shows "GetSize mc \<le> cfg_MaxSize config \<and> cs_Size (mc_stats mc) = GetSize mc \<and>
    GetMemoryUsage mc = sum_list (map (\<lambda>e. int (length (it_Value (item_at mc e)))) (mc_lru mc)) \<and>
    (\<forall>k e. mc_items mc k = Some e \<longleftrightarrow> e \<in> set (mc_lru mc) \<and> it_Key (item_at mc e) = k)"
proof -
  have good: "mc_good (NewMemoryCacheWithConfig json config) mc"
    using mc_reachable_good [OF assms(1)] by simp
  then have inv: "mc_inv mc" and bd: "mc_bounded mc" and cfg: "mc_config mc = config\<lparr>cfg_Serializer := cfg_Serializer (mc_config mc)\<rparr>"
    by (auto simp: mc_good_def NewMemoryCacheWithConfig_def NewBaseCache_def Let_def)
  then have on: "cfg_EnableStats (mc_config mc)" "cfg_EnableLRU (mc_config mc)" "cfg_MaxSize (mc_config mc) = cfg_MaxSize config"
    using assms(2,3) by (metis Config.select_convs Config.surjective Config.update_convs(8))+
  have "sum_list (map (\<lambda>e. mi_dataSize (mc_elem mc e)) (mc_lru mc)) =
      sum_list (map (\<lambda>e. int (length (it_Value (item_at mc e)))) (mc_lru mc))"
    using mc_invD(5) [OF inv] by (intro arg_cong [where f = sum_list] map_cong) (auto simp: mc_sizes_def)
  then show ?thesis
    using inv bd on assms(4) mc_invD(3) [OF inv]
    by (simp add: GetSize_eq mc_bounded_def mc_counts_def GetMemoryUsage_def mc_invD(6) [OF inv])
qed

definition witness_config :: Config where
  "witness_config = \<lparr>cfg_MaxSize = 2, cfg_DefaultTTL = 10, cfg_CleanupInterval = 0, cfg_EnableLRU = True,
     cfg_EnableStats = True, cfg_EnableEvents = False, cfg_Namespace = ''ns'', cfg_Serializer = None,
     cfg_EventHandler = False\<rparr>"

definition witness_cache :: MemoryCache where
  "witness_cache = fst (Set 5 ''a'' (VString ''x'') 0 (NewMemoryCacheWithConfig NoOpSerializer witness_config))"

lemma witness_cache_reachable: "mc_reachable NoOpSerializer witness_config witness_cache [] False"
  unfolding witness_cache_def by (intro reach_step [OF reach_new] step_Set)

lemma witness_cache_inv: "mc_inv witness_cache"
  unfolding witness_cache_def by (intro mc_inv_Set mc_inv_new)

lemma witness_cache_eval [simp]:
  "mc_abs witness_cache = [(''ns:a'', new_item 5 ''ns:a'' ''x'' 10 ''ns'')]"
  "cfg_EnableLRU (mc_config witness_cache)" "cfg_EnableStats (mc_config witness_cache)"
  "cfg_MaxSize (mc_config witness_cache) = 2" "cfg_DefaultTTL (mc_config witness_cache) = 10"
  "cfg_Namespace (mc_config witness_cache) = ''ns''"
  "Serialize (bc_serializer (mc_base witness_cache)) (VString y) = Inr y"
  "Deserialize (bc_serializer (mc_base witness_cache)) y DestString = Inr (VString y)"
  by code_simp+

lemma witness_cache_format [simp]:
  "formatKey (mc_base witness_cache) k = ''ns:'' @ k" "calculateTTL (mc_base witness_cache) 0 = 10"
  by (simp_all add: formatKey_def calculateTTL_def)

theorem memory_cache_bounded_witness:
  "mc_reachable NoOpSerializer witness_config witness_cache [] False \<and> GetSize witness_cache \<le> 2"
  using memory_cache_bounded [OF witness_cache_reachable] witness_cache_reachable
  by (simp add: witness_config_def)

text \<open>
  C2: \<open>Set\<close> refines the abstract LRU list. With statistics and LRU eviction on, a successful
  \<open>Set\<close> puts the entry at the front, replacing an entry of the same key, and drops exactly the
  least recently used entry when a new key takes the list over \<open>MaxSize\<close>.
\<close>

theorem memory_set_refines_lru:
  assumes "mc_inv mc" "cfg_EnableLRU (mc_config mc)" "cfg_EnableStats (mc_config mc)"
    "Serialize (bc_serializer (mc_base mc)) v = Inr data"
  shows "mc_abs (fst (Set now k v ttl mc)) =
    lru_set (cfg_MaxSize (mc_config mc)) (formatKey (mc_base mc) k)
      (new_item now (formatKey (mc_base mc) k) data (calculateTTL (mc_base mc) ttl) (cfg_Namespace (mc_config mc)))
      (mc_abs mc)"
proof (cases "mc_items mc (formatKey (mc_base mc) k)")
  case None
  then have "formatKey (mc_base mc) k \<notin> fst ` set (mc_abs mc)"
    using mc_abs_keys [OF assms(1)] by blast
  with None show ?thesis using assms by (simp add: Set_def Let_def mc_abs_Set_new lru_set_def)
next
  case (Some e)
  then have "formatKey (mc_base mc) k \<in> fst ` set (mc_abs mc)"
    using mc_abs_keys [OF assms(1)] by blast
  then show ?thesis using Some assms mc_abs_upd_front [OF assms(1) Some]
    by (simp add: Set_def Let_def lru_set_def) (simp add: mc_abs_def Set_existing_def Let_def touch_def)
qed

theorem memory_set_refines_lru_witness:
  "mc_inv witness_cache \<and>
   map fst (mc_abs (fst (Set 6 ''b'' (VString ''y'') 0 witness_cache))) = [''ns:b'', ''ns:a'']"
  using memory_set_refines_lru [OF witness_cache_inv, of "VString ''y''" "''y''" 6 "''b''" 0] witness_cache_inv
  by (simp add: lru_set_def lru_bound_def)

text \<open>
  C14: \<open>Get\<close> refines the abstract LRU list: a hit moves the entry to the front with its access
  time updated, an expired entry is removed, a miss changes nothing.
\<close>

theorem memory_get_refines_lru:
  assumes "mc_inv mc" "cfg_EnableLRU (mc_config mc)"
  shows "mc_abs (fst (Get now k d mc)) = lru_get now (formatKey (mc_base mc) k) (mc_abs mc)"
proof (cases "mc_items mc (formatKey (mc_base mc) k)")
  case None
  then show ?thesis
    using assms(1) by (simp add: Get_def lru_get_def mc_abs_lookup)
next
  case (Some e)
  let ?i = "(item_at mc e)\<lparr>it_AccessAt := now\<rparr>"
  have key: "it_Key (item_at mc e) = formatKey (mc_base mc) k"
    using Some mc_invD(6) [OF assms(1)] by blast
  show ?thesis
  proof (cases "IsExpired now (item_at mc e)")
    case True
    then show ?thesis
      using Some assms by (simp add: Get_def Let_def lru_get_def mc_abs_lookup mc_abs_removeElement)
  next
    case False
    have "mc_abs (touch e (set_item e ?i mc)) = (formatKey (mc_base mc) k, ?i) # lru_delete (formatKey (mc_base mc) k) (mc_abs mc)"
      using mc_abs_upd_front [OF assms(1) Some, of "(mc_elem mc e)\<lparr>mi_item := ?i\<rparr>"] assms(2) key
      by (simp add: mc_abs_def touch_def)
    then show ?thesis
      using False Some assms by (simp add: Get_def Let_def lru_get_def mc_abs_lookup split: sum.split)
  qed
qed

theorem memory_get_refines_lru_witness:
  "mc_inv witness_cache \<and> mc_abs (fst (Get 20 ''a'' DestString witness_cache)) = []"
  using memory_get_refines_lru [OF witness_cache_inv, of 20 "''a''" DestString] witness_cache_inv
  by (simp add: lru_get_def lru_delete_def IsExpired_new_item live_until_def)

text \<open>
  C15: a value stored by \<open>Set\<close> is what \<open>Get\<close> returns while its TTL lasts, and nothing is
  returned after it; the deserializer is assumed to invert the serializer on this value.
\<close>

theorem memory_set_get:
  assumes "mc_inv mc" "Serialize (bc_serializer (mc_base mc)) v = Inr data"
    "Deserialize (bc_serializer (mc_base mc)) data d = Inr v"
  shows "snd (Get t k d (fst (Set now k v ttl mc))) =
    (if live_until now (calculateTTL (mc_base mc) ttl) t then Inr (Some v) else Inr None)"
proof -
  have "bc_serializer (mc_base (fst (Set now k v ttl mc))) = bc_serializer (mc_base mc)"
    using assms(2) by (auto simp: Set_def Let_def Set_new_eq Set_existing_def split: option.split)
  then show ?thesis
    using assms by (simp add: Get_result Set_live_data_self)
qed

theorem memory_set_get_witness:
  "snd (Get 15 ''b'' DestString (fst (Set 5 ''b'' (VString ''y'') 10 witness_cache))) = Inr (Some (VString ''y'')) \<and>
   snd (Get 16 ''b'' DestString (fst (Set 5 ''b'' (VString ''y'') 10 witness_cache))) = Inr None"
  using memory_set_get [OF witness_cache_inv, of "VString ''y''" "''y''" DestString 15 "''b''" 5 10]
    memory_set_get [OF witness_cache_inv, of "VString ''y''" "''y''" DestString 16 "''b''" 5 10]
  by (simp add: live_until_def calculateTTL_def)

text \<open>
  the size bound depends on the statistics. With \<open>EnableStats\<close> off, \<open>stats.Size\<close> stays 0,
  so \<open>Set\<close> of a new key never evicts and the cache grows by one whatever \<open>MaxSize\<close> says.
\<close>

theorem memory_no_eviction_without_stats:
  assumes "mc_inv mc" "\<not> cfg_EnableStats (mc_config mc)" "mc_items mc (formatKey (mc_base mc) k) = None"
    "Serialize (bc_serializer (mc_base mc)) v = Inr data"
  shows "GetSize (fst (Set now k v ttl mc)) = GetSize mc + 1"
proof -
  let ?mc = "fst (Set now k v ttl mc)"
  have "cs_Size (mc_stats mc) = 0"
    using assms(1,2) by (simp add: mc_inv_def mc_counts_def)
  then have "mc_lru ?mc = mc_next mc # mc_lru mc"
    using assms by (auto simp: Set_def Let_def Set_new_def updateStats_def)
  then show ?thesis
    using assms(1) by (simp add: GetSize_eq mc_inv_Set)
qed

definition witness_unbounded :: MemoryCache where
  "witness_unbounded = fst (Set 5 ''a'' (VString ''x'') 0
     (NewMemoryCacheWithConfig NoOpSerializer (witness_config\<lparr>cfg_EnableStats := False, cfg_MaxSize := 1\<rparr>)))"

theorem memory_no_eviction_without_stats_witness:
  "cfg_MaxSize (mc_config witness_unbounded) = 1 \<and>
   GetSize (fst (Set 6 ''b'' (VString ''y'') 0 witness_unbounded)) = 2"
proof -
  have inv: "mc_inv witness_unbounded"
    unfolding witness_unbounded_def by (intro mc_inv_Set mc_inv_new)
  have ev: "\<not> cfg_EnableStats (mc_config witness_unbounded)"
    "mc_items witness_unbounded (formatKey (mc_base witness_unbounded) ''b'') = None"
    "Serialize (bc_serializer (mc_base witness_unbounded)) (VString ''y'') = Inr ''y''"
    "length (mc_lru witness_unbounded) = 1" "cfg_MaxSize (mc_config witness_unbounded) = 1"
    by code_simp+
  show ?thesis
    using memory_no_eviction_without_stats [OF inv ev(1-3), of 6 0] ev(4,5) GetSize_eq [OF inv] by simp
qed

text \<open>
  the removal half of \<open>Exists\<close> runs after the read lock was given up. If another call
  deletes the same expired entry in between, the entry is subtracted from \<open>Size\<close> twice: in a
  cache with statistics on, \<open>Size\<close> ends one below the number of entries.
\<close>

theorem memory_exists_race:
  assumes "mc_inv mc" "cfg_EnableStats (mc_config mc)" "Exists_check now k mc = Inr (e, fk)"
  shows "let raced = removeElement e fk (fst (Delete now' k mc))
    in cs_Size (mc_stats raced) = int (length (mc_lru raced)) - 1"
proof -
  from assms(3) have e: "mc_items mc (formatKey (mc_base mc) k) = Some e" "fk = formatKey (mc_base mc) k"
    by (auto simp: Exists_check_def Let_def split: option.splits if_splits)
  let ?d = "fst (Delete now' k mc)"
  have inv: "mc_inv ?d" using assms(1) by (rule mc_inv_Delete)
  have "e \<notin> set (mc_lru ?d)"
    using e mc_invD(1) [OF assms(1)] by (simp add: Delete_def)
  then have "mc_lru (removeElement e fk ?d) = mc_lru ?d" by (simp add: remove1_idem)
  moreover have cfg: "cfg_EnableStats (mc_config ?d)"
    using assms(2) e by (simp add: Delete_def)
  ultimately show ?thesis
    using mc_invD(3) [OF inv] by (simp add: mc_counts_def Let_def) (simp add: removeElement_def stats_updateStats)
qed

theorem memory_exists_race_witness:
  "Exists_check 20 ''a'' witness_cache = Inr (0, ''ns:a'') \<and>
   cs_Size (mc_stats (removeElement 0 ''ns:a'' (fst (Delete 20 ''a'' witness_cache)))) = -1"
proof -
  have ev: "Exists_check 20 ''a'' witness_cache = Inr (0, ''ns:a'')"
    "length (mc_lru (removeElement 0 ''ns:a'' (fst (Delete 20 ''a'' witness_cache)))) = 0"
    by code_simp+
  show ?thesis
    using memory_exists_race [OF witness_cache_inv witness_cache_eval(3) ev(1), of 20] ev
    by (simp add: Let_def)
qed

section \<open>The memory cache meets the cache contract\<close>

definition memory_ops :: "MemoryCache Cache" where
  "memory_ops = \<lparr>i_Get = Get, i_Set = Set, i_Delete = Delete, i_Exists = Exists, i_Clear = Clear,
     i_GetMulti = GetMulti, i_SetMulti = SetMulti, i_DeleteMulti = DeleteMulti,
     i_GetTTL = (\<lambda>now k mc. (mc, GetTTL now k mc)), i_SetTTL = SetTTL, i_GetStats = mc_stats\<rparr>"

definition memory_inv :: "Serializer \<Rightarrow> MemoryCache \<Rightarrow> bool" where
  "memory_inv S mc \<longleftrightarrow> mc_inv mc \<and> bc_serializer (mc_base mc) = S"

lemma serializer_frame [simp]:
  "bc_serializer (mc_base (fst (Get now k d mc))) = bc_serializer (mc_base mc)"
  "bc_serializer (mc_base (fst (Set now k v ttl mc))) = bc_serializer (mc_base mc)"
  "bc_serializer (mc_base (fst (Delete now k mc))) = bc_serializer (mc_base mc)"
  "bc_serializer (mc_base (fst (Exists now k mc))) = bc_serializer (mc_base mc)"
  "bc_serializer (mc_base (fst (Clear now mc))) = bc_serializer (mc_base mc)"
  by (auto simp: Get_def Set_def Delete_def Exists_def Exists_check_def Clear_def Let_def Set_new_eq
      Set_existing_def split: option.split sum.split)

interpretation mem: cache_contract memory_ops "memory_inv S" live_data S for S
proof
  fix s :: MemoryCache and now t :: time and k k' :: string and d v ttl b
  assume "memory_inv S s"
  then have inv: "mc_inv s" and S: "bc_serializer (mc_base s) = S"
    by (auto simp: memory_inv_def)
  show "memory_inv S (fst (i_Get memory_ops now k d s))" "memory_inv S (fst (i_Set memory_ops now k v ttl s))"
    "memory_inv S (fst (i_Delete memory_ops now k s))" "memory_inv S (fst (i_Exists memory_ops now k s))"
    using inv S by (simp_all add: memory_ops_def memory_inv_def inv_intros)
  show "snd (i_Get memory_ops now k d s) = (case live_data now s k of None \<Rightarrow> Inr None
      | Some data \<Rightarrow> (case Deserialize S data d of Inl err \<Rightarrow> Inl (NewCacheError ''get'' k err) | Inr v \<Rightarrow> Inr (Some v)))"
    unfolding S [symmetric] by (simp add: memory_ops_def Get_result)
  show "live_data t (fst (i_Get memory_ops now k d s)) = live_data t s" if "now \<le> t"
    using that inv by (simp add: memory_ops_def Get_live_data)
  show "snd (i_Set memory_ops now k v ttl s) = Inl (NewCacheError ''set'' k e) \<and>
      live_data t (fst (i_Set memory_ops now k v ttl s)) = live_data t s" if "Serialize S v = Inl e" for e
    using that S by (simp add: memory_ops_def Set_result Set_error_live_data)
  show "live_data t (fst (i_Set memory_ops now k v ttl s)) k \<in> {None, Some b}" if "Serialize S v = Inr b"
    using that S Set_live_data_self [OF inv] by (simp add: memory_ops_def)
  show "snd (i_Set memory_ops now k v ttl s) = Inr ()" if "Serialize S v = Inr b"
    using that by (simp add: memory_ops_def Set_result S)
  show "live_data t (fst (i_Set memory_ops now k v ttl s)) k = (if live_until now ttl t then Some b else None)"
    if "Serialize S v = Inr b" "ttl \<noteq> 0"
    using that inv S Set_live_data_self [OF inv] by (simp add: memory_ops_def calculateTTL_def)
  show "live_data t (fst (i_Set memory_ops now k v ttl s)) k' \<in> {None, live_data t s k'}" if "k' \<noteq> k"
    using that inv unfolding memory_ops_def by (simp add: Set_live_data_other del: insert_iff)
  show "snd (i_Delete memory_ops now k s) = Inr ()"
    by (simp add: memory_ops_def Delete_def Let_def split: option.split)
  show "live_data t (fst (i_Delete memory_ops now k s)) = (live_data t s)(k := None)"
    by (simp add: memory_ops_def Delete_live_data)
  show "snd (i_Exists memory_ops now k s) = Inr (live_data now s k \<noteq> None)"
    by (simp add: memory_ops_def Exists_result)
  show "live_data t (fst (i_Exists memory_ops now k s)) = live_data t s" if "now \<le> t"
    using that by (simp add: memory_ops_def Exists_live_data)
qed

end
