(* ===== verification/TieredCache.thy ===== *)
theory TieredCache
  imports MemoryCache
begin

text \<open>
  The two-level cache (\<open>src/cache/tiered.go\<close>) over any two backends of the \<open>Cache\<close> interface:
  \<open>c1\<close> and \<open>c2\<close> are their operations, \<open>tc_l1\<close> and \<open>tc_l2\<close> their states. The locale
  \<open>tiered_contract\<close> proves what the tiered operations do on backends that meet the cache
  contract with a common serializer; it is interpreted on two memory caches.
\<close>

section \<open>State and operations\<close>

record ('a, 'b) TieredCache =
  tc_base :: BaseCache
  tc_l1 :: 'a
  tc_l2 :: 'b

abbreviation tc_update :: "(BaseCache \<Rightarrow> BaseCache) \<Rightarrow> ('a, 'b) TieredCache \<Rightarrow> ('a, 'b) TieredCache" where
  "tc_update f tc \<equiv> tc\<lparr>tc_base := f (tc_base tc)\<rparr>"

definition NewTieredCacheWithConfig :: "Serializer \<Rightarrow> 'a \<Rightarrow> 'b \<Rightarrow> Config \<Rightarrow> ('a, 'b) TieredCache" where
  "NewTieredCacheWithConfig json l1 l2 config = \<lparr>tc_base = NewBaseCache json config, tc_l1 = l1, tc_l2 = l2\<rparr>"

definition NewTieredCache :: "Serializer \<Rightarrow> 'a \<Rightarrow> 'b \<Rightarrow> ('a, 'b) TieredCache" where
  "NewTieredCache json l1 l2 = NewTieredCacheWithConfig json l1 l2 (DefaultConfig json)"

definition tc_WithEventHandler :: "bool \<Rightarrow> ('a, 'b) TieredCache \<Rightarrow> ('a, 'b) TieredCache" where
  "tc_WithEventHandler h = tc_update (\<lambda>b. b\<lparr>bc_config := (bc_config b)\<lparr>cfg_EventHandler := h, cfg_EnableEvents := True\<rparr>\<rparr>)"

definition cap_hour :: "duration \<Rightarrow> duration" where
  "cap_hour ttl = (if ttl > hour then hour else ttl)"

definition backfill_ttl :: "('a, 'b) TieredCache \<Rightarrow> duration" where
  "backfill_ttl tc = cap_hour (cfg_DefaultTTL (bc_config (tc_base tc)))"

text \<open>On an L2 hit the pointer \<open>dest\<close> itself is what L1 is asked to store.\<close>

definition tc_Get :: "'a Cache \<Rightarrow> 'b Cache \<Rightarrow> time \<Rightarrow> string \<Rightarrow> dest \<Rightarrow> ('a, 'b) TieredCache \<Rightarrow>
    ('a, 'b) TieredCache \<times> (cache_error + value option)" where
  "tc_Get c1 c2 now k d tc =
     (case i_Get c1 now k d (tc_l1 tc) of
        (l1, Inl err) \<Rightarrow>
          (tc_update (emitEvent now EventGet k None (Some err) \<circ> recordError now err) (tc\<lparr>tc_l1 := l1\<rparr>), Inl err)
      | (l1, Inr (Some v)) \<Rightarrow>
          (tc_update (emitEvent now EventGet k (Some (VPtr v)) None \<circ> updateStats stats_add_hit) (tc\<lparr>tc_l1 := l1\<rparr>),
           Inr (Some v))
      | (l1, Inr None) \<Rightarrow>
          (case i_Get c2 now k d (tc_l2 tc) of
             (l2, Inl err) \<Rightarrow>
               (tc_update (emitEvent now EventGet k None (Some err) \<circ> recordError now err)
                  (tc\<lparr>tc_l1 := l1, tc_l2 := l2\<rparr>), Inl err)
           | (l2, Inr (Some v)) \<Rightarrow>
               (case i_Set c1 now k (VPtr v) (backfill_ttl tc) l1 of
                  (l1', r) \<Rightarrow>
                    (let tc1 = tc\<lparr>tc_l1 := l1', tc_l2 := l2\<rparr>;
                         tc2 = (case r of Inl err \<Rightarrow> tc_update (recordError now err) tc1 | Inr _ \<Rightarrow> tc1)
                     in (tc_update (emitEvent now EventGet k (Some (VPtr v)) None \<circ> updateStats stats_add_hit) tc2,
                         Inr (Some v))))
           | (l2, Inr None) \<Rightarrow>
               (tc_update (emitEvent now EventGet k None None \<circ> updateStats stats_add_miss)
                  (tc\<lparr>tc_l1 := l1, tc_l2 := l2\<rparr>), Inr None)))"

definition tc_Set :: "'a Cache \<Rightarrow> 'b Cache \<Rightarrow> time \<Rightarrow> string \<Rightarrow> value \<Rightarrow> duration \<Rightarrow> ('a, 'b) TieredCache \<Rightarrow>
    ('a, 'b) TieredCache \<times> (cache_error + unit)" where
  "tc_Set c1 c2 now k v ttl tc =
     (let effectiveTTL = calculateTTL (tc_base tc) ttl
      in case i_Set c2 now k v effectiveTTL (tc_l2 tc) of
        (l2, Inl err) \<Rightarrow>
          (tc_update (emitEvent now EventSet k (Some v) (Some err) \<circ> recordError now err) (tc\<lparr>tc_l2 := l2\<rparr>), Inl err)
      | (l2, Inr _) \<Rightarrow>
          (case i_Set c1 now k v (cap_hour effectiveTTL) (tc_l1 tc) of
             (l1, r) \<Rightarrow>
               (let tc1 = tc\<lparr>tc_l1 := l1, tc_l2 := l2\<rparr>;
                    tc2 = (case r of Inl err \<Rightarrow> tc_update (recordError now err) tc1 | Inr _ \<Rightarrow> tc1)
                in (tc_update (emitEvent now EventSet k (Some v) None \<circ> updateStats (stats_add_sets 1)) tc2, Inr ()))))"

definition tc_Delete :: "'a Cache \<Rightarrow> 'b Cache \<Rightarrow> time \<Rightarrow> string \<Rightarrow> ('a, 'b) TieredCache \<Rightarrow>
    ('a, 'b) TieredCache \<times> (cache_error + unit)" where
  "tc_Delete c1 c2 now k tc =
     (case (i_Delete c1 now k (tc_l1 tc), i_Delete c2 now k (tc_l2 tc)) of
        ((l1, Inl e1), (l2, Inl e2)) \<Rightarrow>
          (let err = AppErr ''failed to delete from both L1 and L2 caches''
           in (tc_update (emitEvent now EventDelete k None (Some err) \<circ> recordError now err)
                 (tc\<lparr>tc_l1 := l1, tc_l2 := l2\<rparr>), Inl err))
      | ((l1, _), (l2, _)) \<Rightarrow>
          (tc_update (emitEvent now EventDelete k None None \<circ> updateStats (stats_add_deletes 1))
             (tc\<lparr>tc_l1 := l1, tc_l2 := l2\<rparr>), Inr ()))"

definition tc_Exists :: "'a Cache \<Rightarrow> 'b Cache \<Rightarrow> time \<Rightarrow> string \<Rightarrow> ('a, 'b) TieredCache \<Rightarrow>
    ('a, 'b) TieredCache \<times> (cache_error + bool)" where
  "tc_Exists c1 c2 now k tc =
     (case i_Exists c1 now k (tc_l1 tc) of
        (l1, Inl err) \<Rightarrow> (tc_update (recordError now err) (tc\<lparr>tc_l1 := l1\<rparr>), Inl err)
      | (l1, Inr True) \<Rightarrow> (tc\<lparr>tc_l1 := l1\<rparr>, Inr True)
      | (l1, Inr False) \<Rightarrow>
          (case i_Exists c2 now k (tc_l2 tc) of
             (l2, Inl err) \<Rightarrow> (tc_update (recordError now err) (tc\<lparr>tc_l1 := l1, tc_l2 := l2\<rparr>), Inl err)
           | (l2, Inr b) \<Rightarrow> (tc\<lparr>tc_l1 := l1, tc_l2 := l2\<rparr>, Inr b)))"

definition tc_Clear :: "'a Cache \<Rightarrow> 'b Cache \<Rightarrow> time \<Rightarrow> ('a, 'b) TieredCache \<Rightarrow>
    ('a, 'b) TieredCache \<times> (cache_error + unit)" where
  "tc_Clear c1 c2 now tc =
     (case (i_Clear c1 now (tc_l1 tc), i_Clear c2 now (tc_l2 tc)) of
        ((l1, Inl e1), (l2, Inl e2)) \<Rightarrow>
          (let err = AppErr ''failed to clear both L1 and L2 caches''
           in (tc_update (emitEvent now EventClear [] None (Some err) \<circ> recordError now err)
                 (tc\<lparr>tc_l1 := l1, tc_l2 := l2\<rparr>), Inl err))
      | ((l1, _), (l2, _)) \<Rightarrow>
          (tc_update (emitEvent now EventClear [] None None) (tc\<lparr>tc_l1 := l1, tc_l2 := l2\<rparr>), Inr ()))"

text \<open>
  \<open>ord\<close> gives the order in which \<open>range\<close> visits the entries of a map. On an L2 error the Go
  function returns both the partial result and the error.
\<close>

definition add_entries :: "(string \<times> value) list \<Rightarrow> (string \<times> value) list \<Rightarrow> (string \<times> value) list" where
  "add_entries kvs m = fold (\<lambda>(k, v). AList.update k v) kvs m"

definition tc_GetMulti :: "'a Cache \<Rightarrow> 'b Cache \<Rightarrow> ((string \<times> value) list \<Rightarrow> (string \<times> value) list) \<Rightarrow>
    time \<Rightarrow> string list \<Rightarrow> ('a, 'b) TieredCache \<Rightarrow>
    ('a, 'b) TieredCache \<times> (string \<times> value) list \<times> cache_error option" where
  "tc_GetMulti c1 c2 ord now ks tc =
     (case i_GetMulti c1 now ks (tc_l1 tc) of
        (l1, r1) \<Rightarrow>
          (let tc1 = (case r1 of Inl err \<Rightarrow> tc_update (recordError now err) (tc\<lparr>tc_l1 := l1\<rparr>)
                                | Inr _ \<Rightarrow> tc\<lparr>tc_l1 := l1\<rparr>);
               result = (case r1 of Inl _ \<Rightarrow> [] | Inr m \<Rightarrow> add_entries (ord m) []);
               missingKeys = filter (\<lambda>k. map_of result k = None) ks
           in if missingKeys = [] then (tc1, result, None)
              else case i_GetMulti c2 now missingKeys (tc_l2 tc1) of
                (l2, Inl err) \<Rightarrow> (tc_update (recordError now err) (tc1\<lparr>tc_l2 := l2\<rparr>), result, Some err)
              | (l2, Inr m2) \<Rightarrow>
                  (let tc2 = tc1\<lparr>tc_l2 := l2\<rparr>;
                       result' = add_entries (ord m2) result;
                       backfillItems = add_entries (ord m2) []
                   in if backfillItems = [] then (tc2, result', None)
                      else case i_SetMulti c1 now (ord backfillItems) (backfill_ttl tc) (tc_l1 tc2) of
                        (l1', Inl err) \<Rightarrow> (tc_update (recordError now err) (tc2\<lparr>tc_l1 := l1'\<rparr>), result', None)
                      | (l1', Inr _) \<Rightarrow> (tc2\<lparr>tc_l1 := l1'\<rparr>, result', None))))"

definition tc_SetMulti :: "'a Cache \<Rightarrow> 'b Cache \<Rightarrow> ((string \<times> value) list \<Rightarrow> (string \<times> value) list) \<Rightarrow>
    time \<Rightarrow> (string \<times> value) list \<Rightarrow> duration \<Rightarrow> ('a, 'b) TieredCache \<Rightarrow>
    ('a, 'b) TieredCache \<times> (cache_error + unit)" where
  "tc_SetMulti c1 c2 ord now items ttl tc =
     (let effectiveTTL = calculateTTL (tc_base tc) ttl
      in case i_SetMulti c2 now (ord items) effectiveTTL (tc_l2 tc) of
        (l2, Inl err) \<Rightarrow> (tc_update (recordError now err) (tc\<lparr>tc_l2 := l2\<rparr>), Inl err)
      | (l2, Inr _) \<Rightarrow>
          (case i_SetMulti c1 now (ord items) (cap_hour effectiveTTL) (tc_l1 tc) of
             (l1, r) \<Rightarrow>
               (let tc1 = tc\<lparr>tc_l1 := l1, tc_l2 := l2\<rparr>;
                    tc2 = (case r of Inl err \<Rightarrow> tc_update (recordError now err) tc1 | Inr _ \<Rightarrow> tc1)
                in (tc_update (updateStats (stats_add_sets (int (length items)))) tc2, Inr ()))))"

definition tc_DeleteMulti :: "'a Cache \<Rightarrow> 'b Cache \<Rightarrow> time \<Rightarrow> string list \<Rightarrow> ('a, 'b) TieredCache \<Rightarrow>
    ('a, 'b) TieredCache \<times> (cache_error + unit)" where
  "tc_DeleteMulti c1 c2 now ks tc =
     (case (i_DeleteMulti c1 now ks (tc_l1 tc), i_DeleteMulti c2 now ks (tc_l2 tc)) of
        ((l1, Inl e1), (l2, Inl e2)) \<Rightarrow>
          (let err = AppErr ''failed to delete from both L1 and L2 caches''
           in (tc_update (recordError now err) (tc\<lparr>tc_l1 := l1, tc_l2 := l2\<rparr>), Inl err))
      | ((l1, _), (l2, _)) \<Rightarrow>
          (tc_update (updateStats (stats_add_deletes (int (length ks)))) (tc\<lparr>tc_l1 := l1, tc_l2 := l2\<rparr>), Inr ()))"

definition tc_GetTTL :: "'b Cache \<Rightarrow> time \<Rightarrow> string \<Rightarrow> ('a, 'b) TieredCache \<Rightarrow>
    ('a, 'b) TieredCache \<times> (cache_error + duration)" where
  "tc_GetTTL c2 now k tc = (case i_GetTTL c2 now k (tc_l2 tc) of (l2, r) \<Rightarrow> (tc\<lparr>tc_l2 := l2\<rparr>, r))"

definition tc_SetTTL :: "'a Cache \<Rightarrow> 'b Cache \<Rightarrow> time \<Rightarrow> string \<Rightarrow> duration \<Rightarrow> ('a, 'b) TieredCache \<Rightarrow>
    ('a, 'b) TieredCache \<times> (cache_error + unit)" where
  "tc_SetTTL c1 c2 now k ttl tc =
     (case (i_SetTTL c2 now k ttl (tc_l2 tc), i_SetTTL c1 now k (cap_hour ttl) (tc_l1 tc)) of
        ((l2, Inl e2), (l1, Inl e1)) \<Rightarrow>
          (let err = AppErr ''failed to set TTL in both L1 and L2 caches''
           in (tc_update (recordError now err) (tc\<lparr>tc_l1 := l1, tc_l2 := l2\<rparr>), Inl err))
      | ((l2, _), (l1, _)) \<Rightarrow> (tc\<lparr>tc_l1 := l1, tc_l2 := l2\<rparr>, Inr ()))"

definition tc_GetStats :: "'a Cache \<Rightarrow> 'b Cache \<Rightarrow> ('a, 'b) TieredCache \<Rightarrow> Stats" where
  "tc_GetStats c1 c2 tc =
     (let s1 = i_GetStats c1 (tc_l1 tc); s2 = i_GetStats c2 (tc_l2 tc);
          combined = zero_stats\<lparr>cs_Hits := cs_Hits s1 + cs_Hits s2, cs_Misses := cs_Misses s1 + cs_Misses s2,
            cs_Sets := cs_Sets s1 + cs_Sets s2, cs_Deletes := cs_Deletes s1 + cs_Deletes s2,
            cs_Evictions := cs_Evictions s1 + cs_Evictions s2, cs_Size := cs_Size s1 + cs_Size s2,
            cs_Memory := cs_Memory s1 + cs_Memory s2, cs_Errors := cs_Errors s1 + cs_Errors s2\<rparr>
      in set_hit_ratio combined)"

definition InvalidateL1 :: "'a Cache \<Rightarrow> time \<Rightarrow> string \<Rightarrow> ('a, 'b) TieredCache \<Rightarrow>
    ('a, 'b) TieredCache \<times> (cache_error + unit)" where
  "InvalidateL1 c1 now k tc = (case i_Delete c1 now k (tc_l1 tc) of (l1, r) \<Rightarrow> (tc\<lparr>tc_l1 := l1\<rparr>, r))"

definition WarmupL1 :: "'a Cache \<Rightarrow> 'b Cache \<Rightarrow> ((string \<times> value) list \<Rightarrow> (string \<times> value) list) \<Rightarrow>
    time \<Rightarrow> string list \<Rightarrow> ('a, 'b) TieredCache \<Rightarrow> ('a, 'b) TieredCache \<times> (cache_error + unit)" where
  "WarmupL1 c1 c2 ord now ks tc =
     (if ks = [] then (tc, Inr ())
      else case i_GetMulti c2 now ks (tc_l2 tc) of
        (l2, Inl err) \<Rightarrow> (tc\<lparr>tc_l2 := l2\<rparr>, Inl err)
      | (l2, Inr values) \<Rightarrow>
          if values = [] then (tc\<lparr>tc_l2 := l2\<rparr>, Inr ())
          else case i_SetMulti c1 now (ord values) (backfill_ttl tc) (tc_l1 tc) of
            (l1, r) \<Rightarrow> (tc\<lparr>tc_l1 := l1, tc_l2 := l2\<rparr>, r))"

text \<open>
  \<open>Close\<close>: \<open>cl1\<close> and \<open>cl2\<close> close the caches, \<open>None\<close> for a nil cache; a panic of one is \<open>None\<close>. The second is
  closed whatever the first returned.
\<close>

definition close_tier :: "('a \<Rightarrow> ('a \<times> cache_error option) option) option \<Rightarrow> 'a \<Rightarrow> ('a \<times> cache_error option) option" where
  "close_tier cl l = (case cl of None \<Rightarrow> Some (l, None) | Some f \<Rightarrow> f l)"

definition tc_Close ::
    "('a \<Rightarrow> ('a \<times> cache_error option) option) option \<Rightarrow> ('b \<Rightarrow> ('b \<times> cache_error option) option) option \<Rightarrow>
     ('a, 'b) TieredCache \<Rightarrow> (('a, 'b) TieredCache \<times> cache_error option) option" where
  "tc_Close cl1 cl2 tc =
     (case close_tier cl1 (tc_l1 tc) of
        None \<Rightarrow> None
      | Some (l1, e1) \<Rightarrow>
          (case close_tier cl2 (tc_l2 tc) of
             None \<Rightarrow> None
           | Some (l2, e2) \<Rightarrow> Some (tc\<lparr>tc_l1 := l1, tc_l2 := l2\<rparr>, if e1 \<noteq> None then e1 else e2)))"

definition GetTieredStats :: "'a Cache \<Rightarrow> 'b Cache \<Rightarrow> ('a, 'b) TieredCache \<Rightarrow> string \<rightharpoonup> Stats" where
  "GetTieredStats c1 c2 tc = [''L1'' \<mapsto> i_GetStats c1 (tc_l1 tc), ''L2'' \<mapsto> i_GetStats c2 (tc_l2 tc)]"

text \<open>Two memory caches are both closed by the first call; the second call panics.\<close>

lemma tc_Close_once:
  assumes "\<not> mc_stopped (tc_l1 tc)" "\<not> mc_stopped (tc_l2 tc)"
  shows "\<exists>tc'. tc_Close (Some (\<lambda>m. map_option (\<lambda>m. (m, None)) (Close m))) (Some (\<lambda>m. map_option (\<lambda>m. (m, None)) (Close m))) tc = Some (tc', None) \<and>
    mc_stopped (tc_l1 tc') \<and> mc_stopped (tc_l2 tc') \<and>
    tc_Close (Some (\<lambda>m. map_option (\<lambda>m. (m, None)) (Close m))) (Some (\<lambda>m. map_option (\<lambda>m. (m, None)) (Close m))) tc' = None"
  using assms by (simp add: tc_Close_def close_tier_def Close_def)

section \<open>Tiered reads over two contracts\<close>

text \<open>
  \<open>tier_holds \<dots> k d v t0 t1 tc\<close>: between \<open>t0\<close> and \<open>t1\<close> the second level holds data that decodes to
  \<open>v\<close> under \<open>k\<close>, and the first level holds nothing else under \<open>k\<close>.
\<close>

definition tier_holds :: "(time \<Rightarrow> 'a \<Rightarrow> string \<Rightarrow> bytes option) \<Rightarrow> (time \<Rightarrow> 'b \<Rightarrow> string \<Rightarrow> bytes option) \<Rightarrow>
    Serializer \<Rightarrow> string \<Rightarrow> dest \<Rightarrow> value \<Rightarrow> time \<Rightarrow> time \<Rightarrow> ('a, 'b) TieredCache \<Rightarrow> bool" where
  "tier_holds view1 view2 S k d v t0 t1 tc \<longleftrightarrow> (\<forall>t. t0 \<le> t \<and> t \<le> t1 \<longrightarrow>
     (\<exists>b. view2 t (tc_l2 tc) k = Some b \<and> Deserialize S b d = Inr v) \<and>
     (\<forall>b. view1 t (tc_l1 tc) k = Some b \<longrightarrow> Deserialize S b d = Inr v))"

fun tc_gets :: "'a Cache \<Rightarrow> 'b Cache \<Rightarrow> (time \<times> string \<times> dest) list \<Rightarrow> ('a, 'b) TieredCache \<Rightarrow> ('a, 'b) TieredCache" where
  "tc_gets c1 c2 [] tc = tc"
| "tc_gets c1 c2 ((now, k, d) # rs) tc = tc_gets c1 c2 rs (fst (tc_Get c1 c2 now k d tc))"

text \<open>
  A schedule of reads for \<open>tier_holds\<close>: times do not decrease and stay within \<open>t1\<close>, and \<open>k\<close> itself
  is read with the destination \<open>d\<close>.
\<close>

fun reads_within :: "string \<Rightarrow> dest \<Rightarrow> time \<Rightarrow> time \<Rightarrow> (time \<times> string \<times> dest) list \<Rightarrow> bool" where
  "reads_within k d t0 t1 [] = True"
| "reads_within k d t0 t1 ((now, k', d') # rs) =
     (t0 \<le> now \<and> now \<le> t1 \<and> (k' = k \<longrightarrow> d' = d) \<and> reads_within k d now t1 rs)"

fun last_read :: "time \<Rightarrow> (time \<times> string \<times> dest) list \<Rightarrow> time" where
  "last_read t0 [] = t0"
| "last_read t0 ((now, k, d) # rs) = last_read now rs"

locale tiered_contract = l1: cache_contract c1 inv1 view1 S + l2: cache_contract c2 inv2 view2 S
  for c1 :: "'a Cache" and inv1 view1 and c2 :: "'b Cache" and inv2 view2 and S
begin

abbreviation holds :: "string \<Rightarrow> dest \<Rightarrow> value \<Rightarrow> time \<Rightarrow> time \<Rightarrow> ('a, 'b) TieredCache \<Rightarrow> bool" where
  "holds \<equiv> tier_holds view1 view2 S"

abbreviation tinv :: "('a, 'b) TieredCache \<Rightarrow> bool" where
  "tinv tc \<equiv> inv1 (tc_l1 tc) \<and> inv2 (tc_l2 tc)"

lemma tc_Get_tinv: "tinv tc \<Longrightarrow> tinv (fst (tc_Get c1 c2 now k d tc))"
  using l1.inv_Get [of "tc_l1 tc" now k d] l2.inv_Get [of "tc_l2 tc" now k d] l1.inv_Set
  by (auto simp: tc_Get_def Let_def split: prod.split sum.split option.split) (metis fst_conv)+

lemma tc_Set_tinv: "tinv tc \<Longrightarrow> tinv (fst (tc_Set c1 c2 now k v ttl tc))"
  using l1.inv_Set [of "tc_l1 tc" now k v "cap_hour (calculateTTL (tc_base tc) ttl)"]
    l2.inv_Set [of "tc_l2 tc" now k v "calculateTTL (tc_base tc) ttl"]
  by (auto simp: tc_Set_def Let_def split: prod.split sum.split)

lemma tc_Get_value:
  assumes "tinv tc" "holds k d v t0 t1 tc" "t0 \<le> now" "now \<le> t1"
  shows "snd (tc_Get c1 c2 now k d tc) = Inr (Some v)"
proof -
  obtain b where b: "view2 now (tc_l2 tc) k = Some b" "Deserialize S b d = Inr v"
    and one: "\<And>b. view1 now (tc_l1 tc) k = Some b \<Longrightarrow> Deserialize S b d = Inr v"
    using assms by (auto simp: tier_holds_def)
  have r2: "snd (i_Get c2 now k d (tc_l2 tc)) = Inr (Some v)"
    using assms(1) b by (simp add: l2.Get_hit)
  have r1: "snd (i_Get c1 now k d (tc_l1 tc)) \<in> {Inr None, Inr (Some v)}"
    using assms(1) one by (cases "view1 now (tc_l1 tc) k") (auto simp: l1.Get_res)
  show ?thesis
    using r1 r2 by (auto simp: tc_Get_def Let_def split: prod.split sum.split option.split)
qed

text \<open>What a tiered read leaves in the two levels.\<close>

lemma tc_Get_levels:
  assumes "tinv tc"
  shows "view2 t (tc_l2 (fst (tc_Get c1 c2 now k d tc))) = view2 t (tc_l2 tc) \<or> t < now"
    and "k' \<noteq> k \<Longrightarrow> now \<le> t \<Longrightarrow> view1 t (tc_l1 (fst (tc_Get c1 c2 now k d tc))) k' \<in> {None, view1 t (tc_l1 tc) k'}"
    and "now \<le> t \<Longrightarrow> view1 t (tc_l1 (fst (tc_Get c1 c2 now k d tc))) k = Some b' \<Longrightarrow>
      view1 t (tc_l1 tc) k = Some b' \<or>
      (\<exists>w. snd (i_Get c2 now k d (tc_l2 tc)) = Inr (Some w) \<and> Serialize S (VPtr w) = Inr b')"
proof -
  let ?g1 = "i_Get c1 now k d (tc_l1 tc)" and ?g2 = "i_Get c2 now k d (tc_l2 tc)"
  show "view2 t (tc_l2 (fst (tc_Get c1 c2 now k d tc))) = view2 t (tc_l2 tc) \<or> t < now"
    using l2.Get_view [of "tc_l2 tc" now t k d] assms
    by (auto simp: tc_Get_def Let_def split: prod.split sum.split option.split)
  have v1: "now \<le> t \<Longrightarrow> view1 t (fst ?g1) = view1 t (tc_l1 tc)" and i1: "inv1 (fst ?g1)"
    using assms by (simp_all add: l1.Get_view l1.inv_Get)
  have l1: "tc_l1 (fst (tc_Get c1 c2 now k d tc)) =
      (case (snd ?g1, snd ?g2) of
         (Inr None, Inr (Some w)) \<Rightarrow> fst (i_Set c1 now k (VPtr w) (backfill_ttl tc) (fst ?g1))
       | _ \<Rightarrow> fst ?g1)"
    by (auto simp: tc_Get_def Let_def split: prod.split sum.split option.split)
  show "view1 t (tc_l1 (fst (tc_Get c1 c2 now k d tc))) k' \<in> {None, view1 t (tc_l1 tc) k'}"
    if "k' \<noteq> k" "now \<le> t"
    using l1.Set_other [OF i1 that(1), of t now _ "backfill_ttl tc"] v1 [OF that(2)] unfolding l1
    by (auto split: sum.split option.split)
  show "view1 t (tc_l1 tc) k = Some b' \<or> (\<exists>w. snd ?g2 = Inr (Some w) \<and> Serialize S (VPtr w) = Inr b')"
    if t: "now \<le> t" and b': "view1 t (tc_l1 (fst (tc_Get c1 c2 now k d tc))) k = Some b'"
  proof (cases "snd ?g1 = Inr None \<and> (\<exists>w. snd ?g2 = Inr (Some w))")
    case True
    then obtain w where w: "snd ?g1 = Inr None" "snd ?g2 = Inr (Some w)" by blast
    with b' have st: "view1 t (fst (i_Set c1 now k (VPtr w) (backfill_ttl tc) (fst ?g1))) k = Some b'"
      by (simp add: l1)
    show ?thesis
    proof (cases "Serialize S (VPtr w)")
      case (Inl e)
      with st v1 [OF t] l1.Set_err [OF i1 Inl, of now k "backfill_ttl tc" t] show ?thesis by simp
    next
      case (Inr b)
      with st w l1.Set_self_any [OF i1 Inr, of t now k "backfill_ttl tc"] show ?thesis by auto
    qed
  next
    case False
    with b' v1 [OF t] show ?thesis by (auto simp: l1 split: sum.splits option.splits)
  qed
qed

lemma tc_Get_holds:
  assumes inv: "tinv tc" and h: "holds k d v t0 t1 tc" and now: "t0 \<le> now" "now \<le> t1" and d: "k' = k \<longrightarrow> d' = d"
    and codec: "\<And>b'. Serialize S (VPtr v) = Inr b' \<Longrightarrow> Deserialize S b' d = Inr v"
  shows "holds k d v now t1 (fst (tc_Get c1 c2 now k' d' tc))"
  unfolding tier_holds_def
proof (intro allI impI conjI)
  fix t assume t: "now \<le> t \<and> t \<le> t1"
  then have old: "\<exists>b. view2 t (tc_l2 tc) k = Some b \<and> Deserialize S b d = Inr v"
    "\<And>b. view1 t (tc_l1 tc) k = Some b \<Longrightarrow> Deserialize S b d = Inr v"
    using h [unfolded tier_holds_def, rule_format, of t] now by auto
  show "\<exists>b. view2 t (tc_l2 (fst (tc_Get c1 c2 now k' d' tc))) k = Some b \<and> Deserialize S b d = Inr v"
    using tc_Get_levels(1) [OF inv, of t now k' d'] t old(1) by auto
  fix b' assume b': "view1 t (tc_l1 (fst (tc_Get c1 c2 now k' d' tc))) k = Some b'"
  show "Deserialize S b' d = Inr v"
  proof (cases "k' = k")
    case False
    then show ?thesis
      using tc_Get_levels(2) [OF inv, of k k' now t d'] t b' old(2) by auto
  next
    case True
    have "snd (i_Get c2 now k d (tc_l2 tc)) = Inr (Some v)"
      using h now inv by (auto simp: tier_holds_def l2.Get_res)
    then show ?thesis
      using tc_Get_levels(3) [OF inv, of now t k' d' b'] t b' old(2) codec True d by auto
  qed
qed

lemma tc_Set_holds:
  assumes inv: "tinv tc" and ser: "Serialize S v = Inr b" "Deserialize S b d = Inr v"
    and ttl: "calculateTTL (tc_base tc) ttl > 0"
  shows "holds k d v now (now + calculateTTL (tc_base tc) ttl) (fst (tc_Set c1 c2 now k v ttl tc))"
proof -
  let ?e = "calculateTTL (tc_base tc) ttl"
  have s2: "snd (i_Set c2 now k v ?e (tc_l2 tc)) = Inr ()"
    using inv ser by (simp add: l2.Set_res)
  then have lv: "tc_l2 (fst (tc_Set c1 c2 now k v ttl tc)) = fst (i_Set c2 now k v ?e (tc_l2 tc))"
    "tc_l1 (fst (tc_Set c1 c2 now k v ttl tc)) = fst (i_Set c1 now k v (cap_hour ?e) (tc_l1 tc))"
    by (auto simp: tc_Set_def Let_def split: prod.split sum.split)
  have "b' = b" if "view1 t (fst (i_Set c1 now k v (cap_hour ?e) (tc_l1 tc))) k = Some b'" for t b'
    using that l1.Set_self_any [OF conjunct1 [OF inv] ser(1), of t now k "cap_hour ?e"] by auto
  then show ?thesis
    using inv ser ttl by (auto simp: tier_holds_def lv l2.Set_self live_until_def)
qed

lemma tc_gets_holds:
  assumes "tinv tc" "holds k d v t0 t1 tc" "reads_within k d t0 t1 rs"
    and codec: "\<And>b'. Serialize S (VPtr v) = Inr b' \<Longrightarrow> Deserialize S b' d = Inr v"
  shows "tinv (tc_gets c1 c2 rs tc) \<and> holds k d v (last_read t0 rs) t1 (tc_gets c1 c2 rs tc)"
  using assms(1-3)
proof (induction rs arbitrary: t0 tc)
  case Nil
  then show ?case by simp
next
  case (Cons r rs)
  obtain now k' d' where r: "r = (now, k', d')" by (cases r)
  have "holds k d v now t1 (fst (tc_Get c1 c2 now k' d' tc))"
    by (rule tc_Get_holds [OF Cons.prems(1,2)]) (use Cons.prems(3) r codec in auto)
  with Cons.IH tc_Get_tinv [OF Cons.prems(1)] Cons.prems(3) show ?case by (simp add: r)
qed

lemma read_your_writes:
  assumes "tinv tc" "Serialize S v = Inr b" "Deserialize S b d = Inr v"
    and codec: "\<And>b'. Serialize S (VPtr v) = Inr b' \<Longrightarrow> Deserialize S b' d = Inr v"
    and "calculateTTL (tc_base tc) ttl > 0" "reads_within k d now (now + calculateTTL (tc_base tc) ttl) rs"
    and "last_read now rs \<le> t" "t \<le> now + calculateTTL (tc_base tc) ttl"
  shows "snd (tc_Get c1 c2 t k d (tc_gets c1 c2 rs (fst (tc_Set c1 c2 now k v ttl tc)))) = Inr (Some v)"
proof -
  have "tinv (tc_gets c1 c2 rs (fst (tc_Set c1 c2 now k v ttl tc))) \<and>
      holds k d v (last_read now rs) (now + calculateTTL (tc_base tc) ttl)
        (tc_gets c1 c2 rs (fst (tc_Set c1 c2 now k v ttl tc)))"
    using tc_Set_tinv [OF assms(1)] tc_Set_holds [OF assms(1-3,5)] assms(6) codec by (rule tc_gets_holds)
  then show ?thesis using tc_Get_value assms(7,8) by blast
qed

lemma backfill_outlives:
  assumes inv: "tinv tc" and miss: "view1 now (tc_l1 tc) k = None" and hit: "view2 now (tc_l2 tc) k = Some b"
    and dec: "Deserialize S b d = Inr v" "Serialize S (VPtr v) = Inr b'" "Deserialize S b' d = Inr v"
    and ttl: "backfill_ttl tc > 0" and t: "t \<le> now + backfill_ttl tc"
  shows "snd (tc_Get c1 c2 t k d (fst (tc_Get c1 c2 now k d tc))) = Inr (Some v)"
proof -
  let ?tc = "fst (tc_Get c1 c2 now k d tc)" and ?g1 = "i_Get c1 now k d (tc_l1 tc)"
  have "snd ?g1 = Inr None" "snd (i_Get c2 now k d (tc_l2 tc)) = Inr (Some v)"
    using inv miss hit dec by (simp_all add: l1.Get_miss l2.Get_hit)
  then have "tc_l1 ?tc = fst (i_Set c1 now k (VPtr v) (backfill_ttl tc) (fst ?g1))"
    by (auto simp: tc_Get_def Let_def split: prod.split sum.split option.split)
  then have "view1 t (tc_l1 ?tc) k = Some b'"
    using inv ttl t dec by (simp add: l1.Set_self l1.inv_Get live_until_def)
  then have "snd (i_Get c1 t k d (tc_l1 ?tc)) = Inr (Some v)"
    using tc_Get_tinv [OF inv] dec by (simp add: l1.Get_hit)
  then show ?thesis by (auto simp: tc_Get_def split: prod.split)
qed

lemma delete_both:
  assumes "tinv tc"
  shows "snd (tc_Delete c1 c2 now k tc) = Inr ()"
    and "snd (tc_Get c1 c2 t k d (fst (tc_Delete c1 c2 now k tc))) = Inr None"
proof -
  have r: "snd (i_Delete c1 now k (tc_l1 tc)) = Inr ()" "snd (i_Delete c2 now k (tc_l2 tc)) = Inr ()"
    using assms by (simp_all add: l1.Delete_res l2.Delete_res)
  then show "snd (tc_Delete c1 c2 now k tc) = Inr ()"
    by (auto simp: tc_Delete_def split: prod.split sum.split)
  from r have "tc_l1 (fst (tc_Delete c1 c2 now k tc)) = fst (i_Delete c1 now k (tc_l1 tc))"
    "tc_l2 (fst (tc_Delete c1 c2 now k tc)) = fst (i_Delete c2 now k (tc_l2 tc))"
    by (auto simp: tc_Delete_def split: prod.split sum.split)
  then show "snd (tc_Get c1 c2 t k d (fst (tc_Delete c1 c2 now k tc))) = Inr None"
    using assms l1.Get_after_Delete l2.Get_after_Delete
    by (auto simp: tc_Get_def split: prod.split sum.split option.split)
      (metis snd_conv sum.inject(2) option.distinct(1) Inl_Inr_False)+
qed

end

interpretation mem_tier: tiered_contract memory_ops "memory_inv S" live_data memory_ops "memory_inv S" live_data S for S
  by unfold_locales

section \<open>Properties\<close>

text \<open>
  The serializer of the witnesses: strings are stored as they are and a pointer is encoded as
  what it points to, as \<open>encoding/json\<close> does.
\<close>

fun deref_serialize :: "value \<Rightarrow> cache_error + bytes" where
  "deref_serialize (VPtr v) = deref_serialize v"
| "deref_serialize v = NoOp_Serialize v"

definition deref_serializer :: Serializer where
  "deref_serializer = \<lparr>Serialize = deref_serialize, Deserialize = NoOp_Deserialize\<rparr>"

abbreviation mem2_inv :: "Serializer \<Rightarrow> (MemoryCache, MemoryCache) TieredCache \<Rightarrow> bool" where
  "mem2_inv S tc \<equiv> memory_inv S (tc_l1 tc) \<and> memory_inv S (tc_l2 tc)"

definition witness_tier :: "(MemoryCache, MemoryCache) TieredCache" where
  "witness_tier = NewTieredCacheWithConfig deref_serializer
     (NewMemoryCacheWithConfig deref_serializer witness_config)
     (NewMemoryCacheWithConfig deref_serializer witness_config) (witness_config\<lparr>cfg_DefaultTTL := 100\<rparr>)"

lemma witness_tier_inv: "mem2_inv deref_serializer witness_tier"
  unfolding witness_tier_def NewTieredCacheWithConfig_def memory_inv_def
  by (simp add: mc_inv_new) (simp add: NewMemoryCacheWithConfig_def NewBaseCache_def witness_config_def Let_def)

text \<open>
  C5: read your writes through the two levels. After a tiered \<open>Set\<close> with a positive effective
  TTL, a \<open>Get\<close> of the key within that TTL returns the stored value, after any number of earlier
  tiered reads (of any keys, with the evictions and backfills they cause). Stated for two memory
  caches with a common serializer that decodes what it encodes, also through a pointer.
\<close>

theorem tiered_read_your_writes:
  assumes "mem2_inv S tc" "Serialize S v = Inr b" "Deserialize S b d = Inr v"
    and "\<And>b'. Serialize S (VPtr v) = Inr b' \<Longrightarrow> Deserialize S b' d = Inr v"
    and "calculateTTL (tc_base tc) ttl > 0" "reads_within k d now (now + calculateTTL (tc_base tc) ttl) rs"
    and "last_read now rs \<le> t" "t \<le> now + calculateTTL (tc_base tc) ttl"
  shows "snd (tc_Get memory_ops memory_ops t k d
    (tc_gets memory_ops memory_ops rs (fst (tc_Set memory_ops memory_ops now k v ttl tc)))) = Inr (Some v)"
  using assms by (rule mem_tier.read_your_writes)

theorem tiered_read_your_writes_witness:
  "snd (tc_Get memory_ops memory_ops 50 ''a'' DestString (tc_gets memory_ops memory_ops [(7, ''a'', DestString), (9, ''b'', DestAny)]
     (fst (tc_Set memory_ops memory_ops 5 ''a'' (VString ''x'') 60 witness_tier)))) = Inr (Some (VString ''x''))"
  by (rule tiered_read_your_writes [OF witness_tier_inv, of _ "''x''"])
    (simp_all add: deref_serializer_def calculateTTL_def)

text \<open>
  a tiered \<open>Delete\<close> removes the key from both levels: no later \<open>Get\<close> finds it.
\<close>

theorem tiered_delete_get:
  assumes "mem2_inv S tc"
  shows "snd (tc_Delete memory_ops memory_ops now k tc) = Inr () \<and>
    snd (tc_Get memory_ops memory_ops t k d (fst (tc_Delete memory_ops memory_ops now k tc))) = Inr None"
  using mem_tier.delete_both [OF assms] by simp

theorem tiered_delete_get_witness:
  "snd (tc_Get memory_ops memory_ops 9 ''a'' DestString (fst (tc_Delete memory_ops memory_ops 8 ''a'' witness_tier))) = Inr None"
  using tiered_delete_get [OF witness_tier_inv] by blast

text \<open>
  the backfill of L1 ignores how long the entry still has to live in L2. After a \<open>Get\<close> that
  found the key in L2 only, L1 serves it for the whole capped default TTL, whatever L2 says by
  then: in the witness L2 has already expired the entry.
\<close>

theorem tiered_backfill_outlives_l2:
  assumes "mem2_inv S tc" "live_data now (tc_l1 tc) k = None" "live_data now (tc_l2 tc) k = Some b"
    and "Deserialize S b d = Inr v" "Serialize S (VPtr v) = Inr b'" "Deserialize S b' d = Inr v"
    and "backfill_ttl tc > 0" "t \<le> now + backfill_ttl tc"
  shows "snd (tc_Get memory_ops memory_ops t k d (fst (tc_Get memory_ops memory_ops now k d tc))) = Inr (Some v)"
  using assms by (rule mem_tier.backfill_outlives)

definition witness_l2_only :: "(MemoryCache, MemoryCache) TieredCache" where
  "witness_l2_only = witness_tier\<lparr>tc_l2 := fst (Set 5 ''a'' (VString ''x'') 10 (tc_l2 witness_tier))\<rparr>"

theorem tiered_backfill_outlives_l2_witness:
  "live_data 90 (tc_l2 witness_l2_only) ''a'' = None \<and>
   snd (tc_Get memory_ops memory_ops 90 ''a'' DestString
     (fst (tc_Get memory_ops memory_ops 6 ''a'' DestString witness_l2_only))) = Inr (Some (VString ''x''))"
proof -
  have inv: "mem2_inv deref_serializer witness_l2_only"
    using witness_tier_inv by (simp add: witness_l2_only_def memory_inv_def mc_inv_Set)
  have ev: "live_data 6 (tc_l1 witness_l2_only) ''a'' = None" "live_data 6 (tc_l2 witness_l2_only) ''a'' = Some ''x''"
    "live_data 90 (tc_l2 witness_l2_only) ''a'' = None" "backfill_ttl witness_l2_only = 100"
    by code_simp+
  show ?thesis
    using tiered_backfill_outlives_l2 [OF inv ev(1,2), of DestString "VString ''x''" "''x''" 90] ev
    by (simp add: deref_serializer_def)
qed

end
