(* ===== verification/GoStrings.thy ===== *)
theory GoStrings
  imports Prelude
begin

text \<open>
  The functions of Go's \<open>strings\<close> and \<open>strconv\<close> packages that the library calls, on byte strings
  (character lists). White space is ASCII white space; case mapping is the ASCII one.
\<close>

section \<open>Splitting and trimming\<close>

fun Split_char :: "char \<Rightarrow> string \<Rightarrow> string list" where
  "Split_char c [] = [[]]"
| "Split_char c (x # xs) =
     (if x = c then [] # Split_char c xs
      else case Split_char c xs of [] \<Rightarrow> [[x]] | y # ys \<Rightarrow> (x # y) # ys)"

fun join_char :: "char \<Rightarrow> string list \<Rightarrow> string" where
  "join_char c [] = []"
| "join_char c [x] = x"
| "join_char c (x # y # ys) = x @ c # join_char c (y # ys)"

text \<open>\<open>strings.SplitN(s, sep, 2)[0]\<close>: what precedes the first separator.\<close>

definition before_char :: "char \<Rightarrow> string \<Rightarrow> string" where
  "before_char c s = takeWhile (\<lambda>x. x \<noteq> c) s"

definition is_space :: "char \<Rightarrow> bool" where
  "is_space c \<longleftrightarrow> c \<in> {CHR 0x09, CHR 0x0A, CHR 0x0B, CHR 0x0C, CHR 0x0D, CHR 0x20}"

fun fields_aux :: "string \<Rightarrow> string \<Rightarrow> string list" where
  "fields_aux acc [] = (if acc = [] then [] else [rev acc])"
| "fields_aux acc (x # xs) =
     (if is_space x then (if acc = [] then fields_aux [] xs else rev acc # fields_aux [] xs)
      else fields_aux (x # acc) xs)"

definition Fields :: "string \<Rightarrow> string list" where
  "Fields s = fields_aux [] s"

definition TrimSpace :: "string \<Rightarrow> string" where
  "TrimSpace s = rev (dropWhile is_space (rev (dropWhile is_space s)))"

fun HasPrefix :: "string \<Rightarrow> string \<Rightarrow> bool" where
  "HasPrefix s [] = True"
| "HasPrefix [] (p # ps) = False"
| "HasPrefix (x # xs) (p # ps) = (x = p \<and> HasPrefix xs ps)"

definition HasSuffix :: "string \<Rightarrow> string \<Rightarrow> bool" where
  "HasSuffix s p = HasPrefix (rev s) (rev p)"

definition TrimPrefix :: "string \<Rightarrow> string \<Rightarrow> string" where
  "TrimPrefix s p = (if HasPrefix s p then drop (length p) s else s)"

text \<open>\<open>strings.ReplaceAll\<close> for a non-empty \<open>old\<close>: left to right, without overlap.\<close>

function ReplaceAll :: "string \<Rightarrow> string \<Rightarrow> string \<Rightarrow> string" where
  "ReplaceAll [] old new = []"
| "ReplaceAll (x # xs) old new =
     (if old \<noteq> [] \<and> HasPrefix (x # xs) old then new @ ReplaceAll (drop (length old) (x # xs)) old new
      else x # ReplaceAll xs old new)"
  by pat_completeness auto
termination
  by (relation "measure (\<lambda>(s, old, new). length s)") (auto simp: neq_Nil_conv)

text \<open>\<open>strings.Split\<close> for a separator of any positive length.\<close>

function Split_aux :: "string \<Rightarrow> string \<Rightarrow> string \<Rightarrow> string list" where
  "Split_aux sep acc [] = [rev acc]"
| "Split_aux sep acc (x # xs) =
     (if sep \<noteq> [] \<and> HasPrefix (x # xs) sep then rev acc # Split_aux sep [] (drop (length sep) (x # xs))
      else Split_aux sep (x # acc) xs)"
  by pat_completeness auto
termination
  by (relation "measure (\<lambda>(sep, acc, s). length s)") (auto simp: neq_Nil_conv)

definition Split :: "string \<Rightarrow> string \<Rightarrow> string list" where
  "Split s sep = Split_aux sep [] s"

fun Join :: "string list \<Rightarrow> string \<Rightarrow> string" where
  "Join [] sep = []"
| "Join [x] sep = x"
| "Join (x # y # ys) sep = x @ sep @ Join (y # ys) sep"

definition to_upper_char :: "char \<Rightarrow> char" where
  "to_upper_char c = (let n = of_char c :: nat in if 97 \<le> n \<and> n \<le> 122 then char_of (n - 32) else c)"

definition to_lower_char :: "char \<Rightarrow> char" where
  "to_lower_char c = (let n = of_char c :: nat in if 65 \<le> n \<and> n \<le> 90 then char_of (n + 32) else c)"

definition ToUpper :: "string \<Rightarrow> string" where
  "ToUpper s = map to_upper_char s"

section \<open>Numbers\<close>

definition digit_char :: "nat \<Rightarrow> char" where
  "digit_char n = char_of (48 + n)"

definition digit_val :: "char \<Rightarrow> nat option" where
  "digit_val c = (let n = of_char c :: nat in if 48 \<le> n \<and> n \<le> 57 then Some (n - 48) else None)"

fun digits_val :: "int \<Rightarrow> string \<Rightarrow> int option" where
  "digits_val acc [] = Some acc"
| "digits_val acc (c # cs) =
     (case digit_val c of None \<Rightarrow> None | Some d \<Rightarrow> digits_val (10 * acc + int d) cs)"

text \<open>\<open>strconv.Atoi\<close>: an optional sign and at least one digit, within the range of \<open>int\<close> (64 bits).\<close>

definition Atoi :: "string \<Rightarrow> int option" where
  "Atoi s =
     (let (neg, ds) = (case s of [] \<Rightarrow> (False, [])
                       | c # cs \<Rightarrow> if c = CHR ''-'' then (True, cs) else if c = CHR ''+'' then (False, cs) else (False, s))
      in if ds = [] then None
         else case digits_val 0 ds of
           None \<Rightarrow> None
         | Some n \<Rightarrow> let v = (if neg then - n else n)
                     in if int64_range v then Some v else None)"

fun itoa_nat :: "nat \<Rightarrow> string" where
  "itoa_nat n = (if n < 10 then [digit_char n] else itoa_nat (n div 10) @ [digit_char (n mod 10)])"

declare itoa_nat.simps [simp del]

definition Itoa :: "int \<Rightarrow> string" where
  "Itoa n = (if n < 0 then CHR ''-'' # itoa_nat (nat (- n)) else itoa_nat (nat n))"

section \<open>Lemmas\<close>

lemma Split_char_nonempty [simp]: "Split_char c s \<noteq> []"
  by (induction s) (auto split: list.split)

lemma Split_char_single: "c \<notin> set s \<Longrightarrow> Split_char c s = [s]"
  by (induction s) auto

lemma Split_char_append:
  "c \<notin> set s \<Longrightarrow> Split_char c (s @ c # rest) = s # Split_char c rest"
  by (induction s) auto

lemma Split_char_append_sep: "Split_char c (s @ c # rest) = Split_char c s @ Split_char c rest"
  by (induction s) (auto split: list.split)

lemma digit_val_digit_char [simp]: "n < 10 \<Longrightarrow> digit_val (digit_char n) = Some n"
  by (simp add: digit_val_def digit_char_def Let_def)

lemma digits_val_append:
  "digits_val acc (xs @ ys) = (case digits_val acc xs of None \<Rightarrow> None | Some a \<Rightarrow> digits_val a ys)"
  by (induction xs arbitrary: acc) (auto split: option.split)

lemma itoa_nat_nonempty [simp]: "itoa_nat n \<noteq> []"
  by (subst itoa_nat.simps) simp

lemma digits_val_itoa_nat: "digits_val 0 (itoa_nat n) = Some (int n)"
proof (induction n rule: itoa_nat.induct)
  case (1 n)
  show ?case
  proof (cases "n < 10")
    case True
    then show ?thesis by (simp add: itoa_nat.simps [of n])
  next
    case False
    moreover have "10 * int (n div 10) + int (n mod 10) = int n"
      by (metis mult_div_mod_eq of_nat_add of_nat_mult of_nat_numeral)
    ultimately show ?thesis using 1 by (simp add: itoa_nat.simps [of n] digits_val_append)
  qed
qed

definition is_digit :: "char \<Rightarrow> bool" where
  "is_digit c \<longleftrightarrow> digit_val c \<noteq> None"

lemma is_digit_digit_char [simp]: "n < 10 \<Longrightarrow> is_digit (digit_char n)"
  by (simp add: is_digit_def)

lemma itoa_nat_digits: "c \<in> set (itoa_nat n) \<Longrightarrow> is_digit c"
proof (induction n rule: itoa_nat.induct)
  case (1 n)
  then show ?case by (cases "n < 10") (auto simp: itoa_nat.simps [of n])
qed

lemma digit_not_sign: "is_digit c \<Longrightarrow> c \<noteq> CHR ''-'' \<and> c \<noteq> CHR ''+'' \<and> c \<noteq> CHR ''.'' \<and> c \<noteq> CHR '':'' \<and> \<not> is_space c"
  by (auto simp: is_digit_def digit_val_def is_space_def)

lemma Atoi_Itoa_nat: "int64_range (int n) \<Longrightarrow> Atoi (itoa_nat n) = Some (int n)"
proof -
  assume r: "int64_range (int n)"
  obtain c cs where s: "itoa_nat n = c # cs" by (cases "itoa_nat n") auto
  then have "is_digit c" using itoa_nat_digits [of c n] by simp
  then have "c \<noteq> CHR ''-''" "c \<noteq> CHR ''+''" by (auto dest: digit_not_sign)
  with r s digits_val_itoa_nat [of n] show ?thesis by (simp add: Atoi_def Let_def)
qed

lemma Atoi_Itoa: "int64_range n \<Longrightarrow> Atoi (Itoa n) = Some n"
proof (cases "n < 0")
  case True
  assume "int64_range n"
  with True show ?thesis
    by (simp add: Itoa_def Atoi_def Let_def digits_val_itoa_nat)
next
  case False
  assume "int64_range n"
  with False Atoi_Itoa_nat [of "nat n"] show ?thesis by (simp add: Itoa_def)
qed

lemma Atoi_range: "Atoi s = Some n \<Longrightarrow> int64_range n"
  by (auto simp: Atoi_def Let_def split: prod.splits option.splits if_splits)

lemma HasPrefix_iff: "HasPrefix s p \<longleftrightarrow> (\<exists>r. s = p @ r)"
  by (induction s p rule: HasPrefix.induct) auto

lemma HasPrefix_append [simp]: "HasPrefix (p @ r) p"
  by (auto simp: HasPrefix_iff)

lemma HasSuffix_iff: "HasSuffix s p \<longleftrightarrow> (\<exists>r. s = r @ p)"
  by (auto simp: HasSuffix_def HasPrefix_iff) (metis rev_append rev_rev_ident)

lemma TrimPrefix_append [simp]: "TrimPrefix (p @ r) p = r"
  by (simp add: TrimPrefix_def)

lemma digit_val_less: "digit_val c = Some d \<Longrightarrow> d < 10"
  by (auto simp: digit_val_def Let_def split: if_splits)

lemma digits_val_less: "digits_val acc s = Some n \<Longrightarrow> n < (acc + 1) * 10 ^ length s"
proof (induction s arbitrary: acc)
  case (Cons c cs)
  then obtain d where d: "digit_val c = Some d" "digits_val (10 * acc + int d) cs = Some n"
    by (auto split: option.splits)
  have "n < (10 * acc + int d + 1) * 10 ^ length cs" by (rule Cons.IH [OF d(2)])
  also have "\<dots> \<le> (10 * acc + 10) * 10 ^ length cs"
    using digit_val_less [OF d(1)] by (intro mult_right_mono) auto
  finally show ?case by (simp add: algebra_simps)
qed simp

lemma digits_val_nonneg: "digits_val acc s = Some n \<Longrightarrow> 0 \<le> acc \<Longrightarrow> 0 \<le> n"
proof (induction s arbitrary: acc)
  case (Cons c cs)
  then obtain d where "digits_val (10 * acc + int d) cs = Some n" by (auto split: option.splits)
  with Cons show ?case by simp
qed simp

lemma Atoi_less: "Atoi s = Some n \<Longrightarrow> n < 10 ^ length s"
proof -
  assume a: "Atoi s = Some n"
  obtain neg ds where p: "(case s of [] \<Rightarrow> (False, [])
      | c # cs \<Rightarrow> if c = CHR ''-'' then (True, cs) else if c = CHR ''+'' then (False, cs) else (False, s)) = (neg, ds)"
    by fastforce
  then have l: "length ds \<le> length s" by (auto split: list.splits if_splits)
  obtain m where m: "digits_val 0 ds = Some m" "n = m \<or> n = - m"
    using a unfolding Atoi_def p by (auto simp: Let_def split: option.splits if_splits)
  have "0 \<le> m" "m < 10 ^ length ds"
    using digits_val_nonneg [OF m(1)] digits_val_less [OF m(1)] by simp_all
  moreover have "(10::int) ^ length ds \<le> 10 ^ length s" using l by (rule power_increasing) simp
  ultimately show ?thesis using m(2) by linarith
qed

lemma length_Split_char_part: "p \<in> set (Split_char c s) \<Longrightarrow> length p \<le> length s"
proof (induction s arbitrary: p)
  case (Cons x xs)
  obtain y ys where y: "Split_char c xs = y # ys" by (cases "Split_char c xs") auto
  with Cons.IH have "\<And>q. q \<in> set (y # ys) \<Longrightarrow> length q \<le> length xs" by simp
  with Cons.prems y show ?case by (fastforce split: if_splits)
qed simp

lemma length_ReplaceAll: "length new \<le> length old \<Longrightarrow> length (ReplaceAll s old new) \<le> length s"
proof (induction s old new rule: ReplaceAll.induct)
  case (2 x xs old new)
  show ?case
  proof (cases "old \<noteq> [] \<and> HasPrefix (x # xs) old")
    case True
    then obtain r where "x # xs = old @ r" by (auto simp: HasPrefix_iff)
    then have "length old \<le> length (x # xs)" by simp
    with 2 True show ?thesis by simp
  next
    case False
    with 2 show ?thesis by auto
  qed
qed simp

end
