(* ===== verification/RedisCache.thy ===== *)
theory RedisCache
  imports CacheBase GoStrings
begin

text \<open>
  The Redis cache (\<open>src/cache/redis.go\<close>). The client (\<open>go-redis\<close>) is a record of its calls on the state
  of a Redis server; \<open>redis_laws\<close> states what Redis documents of the calls that store, read and delete
  keys. A reply is a value, \<open>redis.Nil\<close> or an error.
\<close>

section \<open>The client\<close>

record 'r RedisClient =
  rd_Ping :: "'r \<Rightarrow> string option"
  rd_Get :: "time \<Rightarrow> string \<Rightarrow> 'r \<Rightarrow> bytes reply"
  rd_Set :: "time \<Rightarrow> string \<Rightarrow> bytes \<Rightarrow> duration \<Rightarrow> 'r \<Rightarrow> string option \<times> 'r"
  rd_Del :: "time \<Rightarrow> string list \<Rightarrow> 'r \<Rightarrow> string option \<times> 'r"
  rd_Exists :: "time \<Rightarrow> string \<Rightarrow> 'r \<Rightarrow> int reply"
  rd_Keys :: "time \<Rightarrow> string \<Rightarrow> 'r \<Rightarrow> string list reply"
  rd_MGet :: "time \<Rightarrow> string list \<Rightarrow> 'r \<Rightarrow> bytes option list reply"
  rd_PipeSet :: "time \<Rightarrow> (string \<times> bytes) list \<Rightarrow> duration \<Rightarrow> 'r \<Rightarrow> string option \<times> 'r"
  rd_TTL :: "time \<Rightarrow> string \<Rightarrow> 'r \<Rightarrow> duration reply"
  rd_Expire :: "time \<Rightarrow> string \<Rightarrow> duration \<Rightarrow> 'r \<Rightarrow> string option \<times> 'r"
  rd_Persist :: "time \<Rightarrow> string \<Rightarrow> 'r \<Rightarrow> string option \<times> 'r"
  rd_Info :: "'r \<Rightarrow> string reply"
  rd_FlushDB :: "time \<Rightarrow> 'r \<Rightarrow> string option \<times> 'r"
  rd_IncrBy :: "time \<Rightarrow> string \<Rightarrow> int \<Rightarrow> 'r \<Rightarrow> int reply \<times> 'r"
  rd_DecrBy :: "time \<Rightarrow> string \<Rightarrow> int \<Rightarrow> 'r \<Rightarrow> int reply \<times> 'r"
  rd_SetNX :: "time \<Rightarrow> string \<Rightarrow> bytes \<Rightarrow> duration \<Rightarrow> 'r \<Rightarrow> bool reply \<times> 'r"
  rd_GetSet :: "time \<Rightarrow> string \<Rightarrow> bytes \<Rightarrow> 'r \<Rightarrow> bytes reply \<times> 'r"

record RedisConfig =
  rcf_Addr :: string
  rcf_Password :: string
  rcf_DB :: int
  rcf_PoolSize :: int
  rcf_MinIdleConns :: int
  rcf_MaxRetries :: int
  rcf_DialTimeout :: duration
  rcf_ReadTimeout :: duration
  rcf_WriteTimeout :: duration
  rcf_IdleTimeout :: duration

definition DefaultRedisConfig :: RedisConfig where
  "DefaultRedisConfig = \<lparr>rcf_Addr = ''localhost:6379'', rcf_Password = [], rcf_DB = 0, rcf_PoolSize = 10, rcf_MinIdleConns = 1,
     rcf_MaxRetries = 3, rcf_DialTimeout = second * 5, rcf_ReadTimeout = second * 3, rcf_WriteTimeout = second * 3,
     rcf_IdleTimeout = minute * 5\<rparr>"

record 'r RedisCache =
  rc_base :: BaseCache
  rc_server :: 'r

definition NewRedisCacheWithConfig :: "Serializer \<Rightarrow> 'r \<Rightarrow> Config \<Rightarrow> 'r RedisCache" where
  "NewRedisCacheWithConfig json server config = \<lparr>rc_base = NewBaseCache json config, rc_server = server\<rparr>"

definition NewRedisCacheWithClient :: "Serializer \<Rightarrow> 'r \<Rightarrow> 'r RedisCache" where
  "NewRedisCacheWithClient json server = NewRedisCacheWithConfig json server (DefaultConfig json)"

text \<open>\<open>connect\<close> is \<open>redis.NewClient\<close> with the options of the configuration (the idle timeout is not among them).\<close>

definition NewRedisCacheWithCacheConfig :: "Serializer \<Rightarrow> (RedisConfig \<Rightarrow> 'r) \<Rightarrow> RedisConfig \<Rightarrow> Config \<Rightarrow> 'r RedisCache" where
  "NewRedisCacheWithCacheConfig json connect rcfg config =
     \<lparr>rc_base = NewBaseCache json config, rc_server = connect (rcfg\<lparr>rcf_IdleTimeout := 0\<rparr>)\<rparr>"

definition NewRedisCache :: "Serializer \<Rightarrow> (RedisConfig \<Rightarrow> 'r) \<Rightarrow> RedisConfig \<Rightarrow> 'r RedisCache" where
  "NewRedisCache json connect rcfg = NewRedisCacheWithCacheConfig json connect rcfg (DefaultConfig json)"

definition on_rbase :: "(BaseCache \<Rightarrow> BaseCache) \<Rightarrow> 'r RedisCache \<Rightarrow> 'r RedisCache" where
  "on_rbase f rc = rc\<lparr>rc_base := f (rc_base rc)\<rparr>"

definition on_rconfig :: "(Config \<Rightarrow> Config) \<Rightarrow> 'r RedisCache \<Rightarrow> 'r RedisCache" where
  "on_rconfig f rc = on_rbase (\<lambda>b. b\<lparr>bc_config := f (bc_config b)\<rparr>) rc"

definition rc_WithNamespace :: "string \<Rightarrow> 'r RedisCache \<Rightarrow> 'r RedisCache" where
  "rc_WithNamespace ns rc = on_rconfig (\<lambda>c. c\<lparr>cfg_Namespace := ns\<rparr>) rc"

definition rc_WithDefaultTTL :: "duration \<Rightarrow> 'r RedisCache \<Rightarrow> 'r RedisCache" where
  "rc_WithDefaultTTL ttl rc = on_rconfig (\<lambda>c. c\<lparr>cfg_DefaultTTL := ttl\<rparr>) rc"

definition rc_WithEventHandler :: "bool \<Rightarrow> 'r RedisCache \<Rightarrow> 'r RedisCache" where
  "rc_WithEventHandler h rc = on_rconfig (\<lambda>c. c\<lparr>cfg_EventHandler := h, cfg_EnableEvents := True\<rparr>) rc"

definition rc_Ping :: "'r RedisClient \<Rightarrow> 'r RedisCache \<Rightarrow> string option" where
  "rc_Ping rd rc = rd_Ping rd (rc_server rc)"

section \<open>Operations\<close>

definition rc_key :: "'r RedisCache \<Rightarrow> string \<Rightarrow> string" where
  "rc_key rc k = formatKey (rc_base rc) k"

text \<open>\<open>recordError\<close>, and for some operations an event.\<close>

definition rc_fail :: "time \<Rightarrow> cache_error \<Rightarrow> 'r RedisCache \<Rightarrow> 'r RedisCache" where
  "rc_fail now e rc = on_rbase (recordError now e) rc"

definition rc_fail_event :: "time \<Rightarrow> EventType \<Rightarrow> string \<Rightarrow> value option \<Rightarrow> cache_error \<Rightarrow> 'r RedisCache \<Rightarrow> 'r RedisCache" where
  "rc_fail_event now ty k v e rc = on_rbase (emitEvent now ty k v (Some e)) (rc_fail now e rc)"

definition rc_Get ::
    "'r RedisClient \<Rightarrow> time \<Rightarrow> string \<Rightarrow> dest \<Rightarrow> 'r RedisCache \<Rightarrow> 'r RedisCache \<times> (cache_error + value option)" where
  "rc_Get rd now k d rc =
     (case rd_Get rd now (rc_key rc k) (rc_server rc) of
        RNil \<Rightarrow> (on_rbase (emitEvent now EventGet k None None \<circ> updateStats stats_add_miss) rc, Inr None)
      | RErr e \<Rightarrow> (rc_fail_event now EventGet k None (GoError e) rc, Inl (NewCacheError ''get'' k (GoError e)))
      | Val data \<Rightarrow>
          (case Deserialize (bc_serializer (rc_base rc)) data d of
             Inl e \<Rightarrow> (rc_fail_event now EventGet k None e rc, Inl (NewCacheError ''get'' k e))
           | Inr v \<Rightarrow> (on_rbase (emitEvent now EventGet k (Some (VPtr v)) None \<circ> updateStats stats_add_hit) rc, Inr (Some v))))"

definition rc_Set ::
    "'r RedisClient \<Rightarrow> time \<Rightarrow> string \<Rightarrow> value \<Rightarrow> duration \<Rightarrow> 'r RedisCache \<Rightarrow> 'r RedisCache \<times> (cache_error + unit)" where
  "rc_Set rd now k v ttl rc =
     (case Serialize (bc_serializer (rc_base rc)) v of
        Inl e \<Rightarrow> (rc_fail_event now EventSet k (Some v) e rc, Inl (NewCacheError ''set'' k e))
      | Inr data \<Rightarrow>
          (case rd_Set rd now (rc_key rc k) data (calculateTTL (rc_base rc) ttl) (rc_server rc) of
             (Some e, r) \<Rightarrow> (rc_fail_event now EventSet k (Some v) (GoError e) (rc\<lparr>rc_server := r\<rparr>), Inl (NewCacheError ''set'' k (GoError e)))
           | (None, r) \<Rightarrow> (on_rbase (emitEvent now EventSet k (Some v) None \<circ> updateStats (stats_add_sets 1)) (rc\<lparr>rc_server := r\<rparr>), Inr ())))"

definition rc_Delete :: "'r RedisClient \<Rightarrow> time \<Rightarrow> string \<Rightarrow> 'r RedisCache \<Rightarrow> 'r RedisCache \<times> (cache_error + unit)" where
  "rc_Delete rd now k rc =
     (case rd_Del rd now [rc_key rc k] (rc_server rc) of
        (Some e, r) \<Rightarrow> (rc_fail_event now EventDelete k None (GoError e) (rc\<lparr>rc_server := r\<rparr>), Inl (NewCacheError ''delete'' k (GoError e)))
      | (None, r) \<Rightarrow> (on_rbase (emitEvent now EventDelete k None None \<circ> updateStats (stats_add_deletes 1)) (rc\<lparr>rc_server := r\<rparr>), Inr ()))"

text \<open>The commands that return no \<open>Nil\<close>: its branch is the error branch, as the code tests only for an error.\<close>

definition rc_Exists :: "'r RedisClient \<Rightarrow> time \<Rightarrow> string \<Rightarrow> 'r RedisCache \<Rightarrow> 'r RedisCache \<times> (cache_error + bool)" where
  "rc_Exists rd now k rc =
     (case rd_Exists rd now (rc_key rc k) (rc_server rc) of
        Val n \<Rightarrow> (rc, Inr (n > 0))
      | RErr e \<Rightarrow> (rc_fail now (GoError e) rc, Inl (NewCacheError ''exists'' k (GoError e)))
      | RNil \<Rightarrow> (rc_fail now (GoError ''redis: nil'') rc, Inl (NewCacheError ''exists'' k (GoError ''redis: nil''))))"

definition rc_Clear :: "'r RedisClient \<Rightarrow> time \<Rightarrow> 'r RedisCache \<Rightarrow> 'r RedisCache \<times> (cache_error + unit)" where
  "rc_Clear rd now rc =
     (if cfg_Namespace (bc_config (rc_base rc)) = []
      then (rc, Inl (AppErr ''clear operation requires a namespace to avoid deleting all Redis keys''))
      else case rd_Keys rd now (cfg_Namespace (bc_config (rc_base rc)) @ '':*'') (rc_server rc) of
        Val keys \<Rightarrow>
          (if keys = [] then (on_rbase (emitEvent now EventClear [] None None) rc, Inr ())
           else case rd_Del rd now keys (rc_server rc) of
             (Some e, r) \<Rightarrow> (rc_fail_event now EventClear [] None (GoError e) (rc\<lparr>rc_server := r\<rparr>), Inl (NewCacheError ''clear'' [] (GoError e)))
           | (None, r) \<Rightarrow> (on_rbase (emitEvent now EventClear [] None None) (rc\<lparr>rc_server := r\<rparr>), Inr ()))
      | RErr e \<Rightarrow> (rc_fail_event now EventClear [] None (GoError e) rc, Inl (NewCacheError ''clear'' [] (GoError e)))
      | RNil \<Rightarrow> (rc_fail_event now EventClear [] None (GoError ''redis: nil'') rc, Inl (NewCacheError ''clear'' [] (GoError ''redis: nil''))))"

text \<open>The loop over the values of \<open>MGet\<close>; the result map keeps the last value of a key.\<close>

fun rc_collect ::
    "time \<Rightarrow> (string \<times> bytes option) list \<Rightarrow> (string \<times> value) list \<Rightarrow> 'r RedisCache \<Rightarrow> 'r RedisCache \<times> (string \<times> value) list" where
  "rc_collect now [] acc rc = (rc, acc)"
| "rc_collect now ((k, None) # kvs) acc rc = rc_collect now kvs acc (on_rbase (updateStats stats_add_miss) rc)"
| "rc_collect now ((k, Some data) # kvs) acc rc =
     (case Deserialize (bc_serializer (rc_base rc)) data DestAny of
        Inl e \<Rightarrow> rc_collect now kvs acc (rc_fail now e rc)
      | Inr v \<Rightarrow> rc_collect now kvs (AList.update k v acc) (on_rbase (updateStats stats_add_hit) rc))"

definition rc_GetMulti ::
    "'r RedisClient \<Rightarrow> time \<Rightarrow> string list \<Rightarrow> 'r RedisCache \<Rightarrow> 'r RedisCache \<times> (cache_error + (string \<times> value) list)" where
  "rc_GetMulti rd now keys rc =
     (if keys = [] then (rc, Inr [])
      else case rd_MGet rd now (map (rc_key rc) keys) (rc_server rc) of
        Val vs \<Rightarrow> (let (rc1, acc) = rc_collect now (zip keys vs) [] rc in (rc1, Inr acc))
      | RErr e \<Rightarrow> (rc_fail now (GoError e) rc, Inl (NewCacheError ''getmulti'' [] (GoError e)))
      | RNil \<Rightarrow> (rc_fail now (GoError ''redis: nil'') rc, Inl (NewCacheError ''getmulti'' [] (GoError ''redis: nil''))))"

text \<open>The commands put into the pipeline, in the order the map happens to be iterated; values that cannot be serialized are skipped.\<close>

fun rc_pipe :: "time \<Rightarrow> (string \<times> value) list \<Rightarrow> 'r RedisCache \<Rightarrow> 'r RedisCache \<times> (string \<times> bytes) list" where
  "rc_pipe now [] rc = (rc, [])"
| "rc_pipe now ((k, v) # kvs) rc =
     (case Serialize (bc_serializer (rc_base rc)) v of
        Inl e \<Rightarrow> rc_pipe now kvs (rc_fail now e rc)
      | Inr data \<Rightarrow> (let (rc1, cmds) = rc_pipe now kvs rc in (rc1, (rc_key rc k, data) # cmds)))"

definition rc_SetMulti ::
    "'r RedisClient \<Rightarrow> time \<Rightarrow> (string \<times> value) list \<Rightarrow> duration \<Rightarrow> 'r RedisCache \<Rightarrow> 'r RedisCache \<times> (cache_error + unit)" where
  "rc_SetMulti rd now items ttl rc =
     (let (rc1, cmds) = rc_pipe now items rc in
      case rd_PipeSet rd now cmds (calculateTTL (rc_base rc) ttl) (rc_server rc1) of
        (Some e, r) \<Rightarrow> (rc_fail now (GoError e) (rc1\<lparr>rc_server := r\<rparr>), Inl (NewCacheError ''setmulti'' [] (GoError e)))
      | (None, r) \<Rightarrow> (on_rbase (updateStats (stats_add_sets (int (length items)))) (rc1\<lparr>rc_server := r\<rparr>), Inr ()))"

definition rc_DeleteMulti :: "'r RedisClient \<Rightarrow> time \<Rightarrow> string list \<Rightarrow> 'r RedisCache \<Rightarrow> 'r RedisCache \<times> (cache_error + unit)" where
  "rc_DeleteMulti rd now keys rc =
     (if keys = [] then (rc, Inr ())
      else case rd_Del rd now (map (rc_key rc) keys) (rc_server rc) of
        (Some e, r) \<Rightarrow> (rc_fail now (GoError e) (rc\<lparr>rc_server := r\<rparr>), Inl (NewCacheError ''deletemulti'' [] (GoError e)))
      | (None, r) \<Rightarrow> (on_rbase (updateStats (stats_add_deletes (int (length keys)))) (rc\<lparr>rc_server := r\<rparr>), Inr ()))"

definition rc_GetTTL :: "'r RedisClient \<Rightarrow> time \<Rightarrow> string \<Rightarrow> 'r RedisCache \<Rightarrow> 'r RedisCache \<times> (cache_error + duration)" where
  "rc_GetTTL rd now k rc =
     (case rd_TTL rd now (rc_key rc k) (rc_server rc) of
        Val ttl \<Rightarrow> (rc, if ttl = -2 then Inl (AppErr ''key not found'') else if ttl = -1 then Inr 0 else Inr ttl)
      | RErr e \<Rightarrow> (rc_fail now (GoError e) rc, Inl (NewCacheError ''getttl'' k (GoError e)))
      | RNil \<Rightarrow> (rc_fail now (GoError ''redis: nil'') rc, Inl (NewCacheError ''getttl'' k (GoError ''redis: nil''))))"

definition rc_SetTTL :: "'r RedisClient \<Rightarrow> time \<Rightarrow> string \<Rightarrow> duration \<Rightarrow> 'r RedisCache \<Rightarrow> 'r RedisCache \<times> (cache_error + unit)" where
  "rc_SetTTL rd now k ttl rc =
     (case (if ttl > 0 then rd_Expire rd now (rc_key rc k) ttl (rc_server rc) else rd_Persist rd now (rc_key rc k) (rc_server rc)) of
        (Some e, r) \<Rightarrow> (rc_fail now (GoError e) (rc\<lparr>rc_server := r\<rparr>), Inl (NewCacheError ''setttl'' k (GoError e)))
      | (None, r) \<Rightarrow> (rc\<lparr>rc_server := r\<rparr>, Inr ()))"

text \<open>The lines \<open>key:value\<close> of the server's information text; a later line replaces an earlier one.\<close>

definition info_line :: "string \<Rightarrow> (string \<times> string) list \<Rightarrow> (string \<times> string) list" where
  "info_line line m =
     (if CHR '':'' \<in> set line then AList.update (before_char CHR '':'' line) (tl (dropWhile (\<lambda>c. c \<noteq> CHR '':'') line)) m else m)"

definition rc_GetInfo :: "'r RedisClient \<Rightarrow> 'r RedisCache \<Rightarrow> cache_error + (string \<times> string) list" where
  "rc_GetInfo rd rc =
     (case rd_Info rd (rc_server rc) of
        Val info \<Rightarrow> Inr (fold info_line (Split info [CHR 0x0D, CHR 0x0A]) [])
      | RErr e \<Rightarrow> Inl (NewCacheError ''info'' [] (GoError e))
      | RNil \<Rightarrow> Inl (NewCacheError ''info'' [] (GoError ''redis: nil'')))"

definition rc_FlushDB :: "'r RedisClient \<Rightarrow> time \<Rightarrow> 'r RedisCache \<Rightarrow> 'r RedisCache \<times> (cache_error + unit)" where
  "rc_FlushDB rd now rc =
     (case rd_FlushDB rd now (rc_server rc) of
        (Some e, r) \<Rightarrow> (rc_fail now (GoError e) (rc\<lparr>rc_server := r\<rparr>), Inl (NewCacheError ''flushdb'' [] (GoError e)))
      | (None, r) \<Rightarrow> (on_rbase (emitEvent now EventClear [] None None) (rc\<lparr>rc_server := r\<rparr>), Inr ()))"

definition rc_counter ::
    "string \<Rightarrow> time \<Rightarrow> string \<Rightarrow> int reply \<times> 'r \<Rightarrow> 'r RedisCache \<Rightarrow> 'r RedisCache \<times> (cache_error + int)" where
  "rc_counter op now k res rc =
     (case res of
        (Val n, r) \<Rightarrow> (rc\<lparr>rc_server := r\<rparr>, Inr n)
      | (RErr e, r) \<Rightarrow> (rc_fail now (GoError e) (rc\<lparr>rc_server := r\<rparr>), Inl (NewCacheError op k (GoError e)))
      | (RNil, r) \<Rightarrow> (rc_fail now (GoError ''redis: nil'') (rc\<lparr>rc_server := r\<rparr>), Inl (NewCacheError op k (GoError ''redis: nil''))))"

definition rc_Increment :: "'r RedisClient \<Rightarrow> time \<Rightarrow> string \<Rightarrow> int \<Rightarrow> 'r RedisCache \<Rightarrow> 'r RedisCache \<times> (cache_error + int)" where
  "rc_Increment rd now k delta rc = rc_counter ''increment'' now k (rd_IncrBy rd now (rc_key rc k) delta (rc_server rc)) rc"

definition rc_Decrement :: "'r RedisClient \<Rightarrow> time \<Rightarrow> string \<Rightarrow> int \<Rightarrow> 'r RedisCache \<Rightarrow> 'r RedisCache \<times> (cache_error + int)" where
  "rc_Decrement rd now k delta rc = rc_counter ''decrement'' now k (rd_DecrBy rd now (rc_key rc k) delta (rc_server rc)) rc"

definition rc_SetNX ::
    "'r RedisClient \<Rightarrow> time \<Rightarrow> string \<Rightarrow> value \<Rightarrow> duration \<Rightarrow> 'r RedisCache \<Rightarrow> 'r RedisCache \<times> (cache_error + bool)" where
  "rc_SetNX rd now k v ttl rc =
     (case Serialize (bc_serializer (rc_base rc)) v of
        Inl e \<Rightarrow> (rc_fail now e rc, Inl (NewCacheError ''setnx'' k e))
      | Inr data \<Rightarrow>
          (case rd_SetNX rd now (rc_key rc k) data (calculateTTL (rc_base rc) ttl) (rc_server rc) of
             (Val ok, r) \<Rightarrow>
               ((if ok then on_rbase (emitEvent now EventSet k (Some v) None \<circ> updateStats (stats_add_sets 1)) (rc\<lparr>rc_server := r\<rparr>)
                 else rc\<lparr>rc_server := r\<rparr>), Inr ok)
           | (RErr e, r) \<Rightarrow> (rc_fail now (GoError e) (rc\<lparr>rc_server := r\<rparr>), Inl (NewCacheError ''setnx'' k (GoError e)))
           | (RNil, r) \<Rightarrow> (rc_fail now (GoError ''redis: nil'') (rc\<lparr>rc_server := r\<rparr>), Inl (NewCacheError ''setnx'' k (GoError ''redis: nil'')))))"

definition rc_GetSet ::
    "'r RedisClient \<Rightarrow> time \<Rightarrow> string \<Rightarrow> value \<Rightarrow> 'r RedisCache \<Rightarrow> 'r RedisCache \<times> (cache_error + value option)" where
  "rc_GetSet rd now k v rc =
     (case Serialize (bc_serializer (rc_base rc)) v of
        Inl e \<Rightarrow> (rc_fail now e rc, Inl (NewCacheError ''getset'' k e))
      | Inr data \<Rightarrow>
          (case rd_GetSet rd now (rc_key rc k) data (rc_server rc) of
             (RNil, r) \<Rightarrow> (on_rbase (emitEvent now EventSet k (Some v) None \<circ> updateStats (stats_add_sets 1)) (rc\<lparr>rc_server := r\<rparr>), Inr None)
           | (RErr e, r) \<Rightarrow> (rc_fail now (GoError e) (rc\<lparr>rc_server := r\<rparr>), Inl (NewCacheError ''getset'' k (GoError e)))
           | (Val old, r) \<Rightarrow>
               (case Deserialize (bc_serializer (rc_base rc)) old DestAny of
                  Inl e \<Rightarrow> (rc_fail now e (rc\<lparr>rc_server := r\<rparr>), Inl (NewCacheError ''getset'' k e))
                | Inr oldv \<Rightarrow> (on_rbase (emitEvent now EventSet k (Some v) None \<circ> updateStats (stats_add_hit \<circ> stats_add_sets 1)) (rc\<lparr>rc_server := r\<rparr>),
                    Inr (Some oldv)))))"

section \<open>Properties\<close>

text \<open>
  What Redis documents: a key set without expiry stays, one set with an expiry of whole milliseconds lives
  until then, other keys are untouched; \<open>DEL\<close> removes the keys; \<open>KEYS\<close> of a prefix with a star lists the
  keys that have the prefix (for a prefix without the special characters of patterns).
\<close>

definition plain_prefix :: "string \<Rightarrow> bool" where
  "plain_prefix p \<longleftrightarrow> set p \<inter> set ''*?[]^'' = {} \<and> CHR 0x5C \<notin> set p"

definition redis_law_Get :: "'r RedisClient \<Rightarrow> (time \<Rightarrow> 'r \<Rightarrow> string \<Rightarrow> bytes option) \<Rightarrow> bool" where
  "redis_law_Get rd view \<longleftrightarrow>
     (\<forall>now k r. (\<forall>e. rd_Get rd now k r \<noteq> RErr e) \<longrightarrow> rd_Get rd now k r = (case view now r k of None \<Rightarrow> RNil | Some b \<Rightarrow> Val b))"

definition redis_law_Set :: "'r RedisClient \<Rightarrow> (time \<Rightarrow> 'r \<Rightarrow> string \<Rightarrow> bytes option) \<Rightarrow> bool" where
  "redis_law_Set rd view \<longleftrightarrow>
     (\<forall>now k b ttl r r' t k'. rd_Set rd now k b ttl r = (None, r') \<longrightarrow> 0 \<le> ttl \<longrightarrow> ttl mod 1000000 = 0 \<longrightarrow> now \<le> t \<longrightarrow>
        view t r' k' = (if k' = k then (if ttl = 0 \<or> t < now + ttl then Some b else None) else view t r k'))"

definition redis_law_Del :: "'r RedisClient \<Rightarrow> (time \<Rightarrow> 'r \<Rightarrow> string \<Rightarrow> bytes option) \<Rightarrow> bool" where
  "redis_law_Del rd view \<longleftrightarrow>
     (\<forall>now ks r r' t k'. rd_Del rd now ks r = (None, r') \<longrightarrow> now \<le> t \<longrightarrow> view t r' k' = (if k' \<in> set ks then None else view t r k'))"

definition redis_law_Keys :: "'r RedisClient \<Rightarrow> (time \<Rightarrow> 'r \<Rightarrow> string \<Rightarrow> bytes option) \<Rightarrow> bool" where
  "redis_law_Keys rd view \<longleftrightarrow>
     (\<forall>now p r ks k. plain_prefix p \<longrightarrow> rd_Keys rd now (p @ ''*'') r = Val ks \<longrightarrow> (k \<in> set ks \<longleftrightarrow> HasPrefix k p \<and> view now r k \<noteq> None))"

definition redis_laws :: "'r RedisClient \<Rightarrow> (time \<Rightarrow> 'r \<Rightarrow> string \<Rightarrow> bytes option) \<Rightarrow> bool" where
  "redis_laws rd view \<longleftrightarrow> redis_law_Get rd view \<and> redis_law_Set rd view \<and> redis_law_Del rd view \<and> redis_law_Keys rd view"

lemma redis_lawsD:
  "redis_laws rd view \<Longrightarrow> redis_law_Get rd view" "redis_laws rd view \<Longrightarrow> redis_law_Set rd view"
  "redis_laws rd view \<Longrightarrow> redis_law_Del rd view" "redis_laws rd view \<Longrightarrow> redis_law_Keys rd view"
  by (simp_all add: redis_laws_def)

lemmas redis_laws_Get = redis_law_Get_def [THEN iffD1, rule_format, OF redis_lawsD(1)]
lemmas redis_laws_Set = redis_law_Set_def [THEN iffD1, rule_format, OF redis_lawsD(2)]
lemmas redis_laws_Del = redis_law_Del_def [THEN iffD1, rule_format, OF redis_lawsD(3)]
lemmas redis_laws_Keys = redis_law_Keys_def [THEN iffD1, rule_format, OF redis_lawsD(4)]

lemma on_rbase_sel [simp]: "rc_server (on_rbase f rc) = rc_server rc" "rc_base (on_rbase f rc) = f (rc_base rc)"
  by (simp_all add: on_rbase_def)

lemma rc_key_frame [simp]:
  "rc_key (rc\<lparr>rc_server := r\<rparr>) k = rc_key rc k" "rc_key (on_rbase (emitEvent now ty k' v e \<circ> updateStats f) rc) k = rc_key rc k"
  by (simp_all add: rc_key_def)

lemma rc_Set_ok:
  assumes "rc_Set rd now k v ttl rc = (rc1, Inr ())"
  obtains b where "Serialize (bc_serializer (rc_base rc)) v = Inr b"
    "rd_Set rd now (rc_key rc k) b (calculateTTL (rc_base rc) ttl) (rc_server rc) = (None, rc_server rc1)"
    "\<And>k. rc_key rc1 k = rc_key rc k" "bc_serializer (rc_base rc1) = bc_serializer (rc_base rc)"
  using assms by (auto simp: rc_Set_def split: sum.splits prod.splits option.splits)

text \<open>What \<open>Get\<close> returns when the server answers.\<close>

lemma rc_Get_view:
  assumes "redis_laws rd view" "\<And>e. rd_Get rd t (rc_key rc k) (rc_server rc) \<noteq> RErr e"
  shows "snd (rc_Get rd t k d rc) = (case view t (rc_server rc) (rc_key rc k) of None \<Rightarrow> Inr None
    | Some b \<Rightarrow> (case Deserialize (bc_serializer (rc_base rc)) b d of Inl e \<Rightarrow> Inl (NewCacheError ''get'' k e) | Inr v \<Rightarrow> Inr (Some v)))"
  using redis_laws_Get [OF assms(1), of t "rc_key rc k" "rc_server rc", OF assms(2)]
  by (auto simp: rc_Get_def split: option.splits sum.splits)

text \<open>
  C33: Over a Redis server that answers, a value stored by \<open>Set\<close> is what \<open>Get\<close> returns until its effective
  TTL (the default for 0) has passed, and nothing after that; other keys of the cache read as before.
\<close>

theorem redis_set_get:
  assumes laws: "redis_laws rd view" and set: "rc_Set rd now k v ttl rc = (rc1, Inr ())"
    and ser: "\<And>b. Serialize (bc_serializer (rc_base rc)) v = Inr b \<Longrightarrow> Deserialize (bc_serializer (rc_base rc)) b d = Inr v"
    and ttl: "eff = calculateTTL (rc_base rc) ttl" "0 \<le> eff" "eff mod 1000000 = 0" and t: "now \<le> t"
    and up: "\<And>key e. rd_Get rd t key (rc_server rc1) \<noteq> RErr e" "\<And>key e. rd_Get rd t key (rc_server rc) \<noteq> RErr e"
  shows "snd (rc_Get rd t k d rc1) = Inr (if eff = 0 \<or> t < now + eff then Some v else None)
    \<and> (\<forall>k'. k' \<noteq> k \<longrightarrow> snd (rc_Get rd t k' d rc1) = snd (rc_Get rd t k' d rc))"
proof -
  from set obtain b where b: "Serialize (bc_serializer (rc_base rc)) v = Inr b"
      "rd_Set rd now (rc_key rc k) b eff (rc_server rc) = (None, rc_server rc1)"
    and key: "\<And>k. rc_key rc1 k = rc_key rc k" and s: "bc_serializer (rc_base rc1) = bc_serializer (rc_base rc)"
    using ttl(1) by (elim rc_Set_ok) simp
  note view = redis_laws_Set [OF laws b(2) ttl(2,3) t]
  have other: "rc_key rc k' \<noteq> rc_key rc k" if "k' \<noteq> k" for k' using that by (simp add: rc_key_def formatKey_inj)
  show ?thesis
  proof (intro conjI allI impI)
    show "snd (rc_Get rd t k d rc1) = Inr (if eff = 0 \<or> t < now + eff then Some v else None)"
      by (simp add: rc_Get_view [OF laws up(1)] view key s ser [OF b(1)])
  next
    fix k' assume "k' \<noteq> k"
    then show "snd (rc_Get rd t k' d rc1) = snd (rc_Get rd t k' d rc)"
      unfolding rc_Get_view [OF laws up(1)] rc_Get_view [OF laws up(2)] key s by (simp add: view other)
  qed
qed

text \<open>\<open>Clear\<close> deletes everything below its namespace, also the keys of a namespace whose name continues it after a colon.\<close>

lemma redis_clear_takes_nested_namespaces:
  assumes laws: "redis_laws rd view" and ns: "cfg_Namespace (bc_config (rc_base rc)) = ns" "ns \<noteq> []" "plain_prefix (ns @ '':'')"
    and clear: "rc_Clear rd now rc = (rc1, Inr ())"
  shows "view now (rc_server rc1) (ns @ '':'' @ sub @ '':'' @ k) = None"
proof -
  let ?k = "ns @ '':'' @ sub @ '':'' @ k"
  obtain ks where ks: "rd_Keys rd now ((ns @ '':'') @ ''*'') (rc_server rc) = Val ks"
    using clear ns by (auto simp: rc_Clear_def split: reply.splits)
  have "HasPrefix ?k (ns @ '':'')" by (auto simp: HasPrefix_iff)
  then have in_ks: "?k \<in> set ks \<longleftrightarrow> view now (rc_server rc) ?k \<noteq> None"
    using redis_laws_Keys [OF laws ns(3) ks, of ?k] by simp
  show ?thesis
  proof (cases "ks = []")
    case True
    then show ?thesis using clear ns ks in_ks by (auto simp: rc_Clear_def)
  next
    case False
    then have "rd_Del rd now ks (rc_server rc) = (None, rc_server rc1)"
      using clear ns ks by (auto simp: rc_Clear_def split: prod.splits option.splits)
    from redis_laws_Del [OF laws this order_refl, of ?k] show ?thesis using in_ks by (auto split: if_splits)
  qed
qed

section \<open>Witness\<close>

text \<open>A server that is a list of keys with value and end of life.\<close>

type_synonym rstore = "(string \<times> bytes \<times> time option) list"

definition rs_view :: "time \<Rightarrow> rstore \<Rightarrow> string \<Rightarrow> bytes option" where
  "rs_view t r k = (case map_of r k of None \<Rightarrow> None | Some (b, None) \<Rightarrow> Some b | Some (b, Some e) \<Rightarrow> if t < e then Some b else None)"

definition rs_client :: "rstore RedisClient" where
  "rs_client = \<lparr>rd_Ping = (\<lambda>r. None),
     rd_Get = (\<lambda>now k r. case rs_view now r k of None \<Rightarrow> RNil | Some b \<Rightarrow> Val b),
     rd_Set = (\<lambda>now k b ttl r. (None, (k, b, if ttl = 0 then None else Some (now + ttl)) # r)),
     rd_Del = (\<lambda>now ks r. (None, filter (\<lambda>(k, v). k \<notin> set ks) r)),
     rd_Exists = (\<lambda>now k r. Val (if rs_view now r k = None then 0 else 1)),
     rd_Keys = (\<lambda>now p r. Val (filter (\<lambda>k. HasPrefix k (butlast p) \<and> rs_view now r k \<noteq> None) (map fst r))),
     rd_MGet = (\<lambda>now ks r. Val (map (rs_view now r) ks)), rd_PipeSet = (\<lambda>now kvs ttl r. (None, r)),
     rd_TTL = (\<lambda>now k r. Val (-1)), rd_Expire = (\<lambda>now k ttl r. (None, r)), rd_Persist = (\<lambda>now k r. (None, r)),
     rd_Info = (\<lambda>r. Val []), rd_FlushDB = (\<lambda>now r. (None, [])), rd_IncrBy = (\<lambda>now k d r. (RErr ''no number'', r)),
     rd_DecrBy = (\<lambda>now k d r. (RErr ''no number'', r)), rd_SetNX = (\<lambda>now k b ttl r. (Val False, r)),
     rd_GetSet = (\<lambda>now k b r. (RNil, (k, b, None) # r))\<rparr>"

lemma rs_view_in: "rs_view t r k \<noteq> None \<Longrightarrow> k \<in> fst ` set r"
  by (auto simp: rs_view_def split: option.splits intro: rev_image_eqI dest!: map_of_SomeD)

lemma rs_view_filter: "rs_view t (filter (\<lambda>(k, v). k \<notin> S) r) k = (if k \<in> S then None else rs_view t r k)"
proof -
  have "map_of (filter (\<lambda>(k, v). k \<notin> S) r) k = (if k \<in> S then None else map_of r k)" by (induction r) auto
  then show ?thesis by (simp add: rs_view_def)
qed

lemma rs_laws: "redis_laws rs_client rs_view"
proof -
  have "redis_law_Keys rs_client rs_view"
    unfolding redis_law_Keys_def
  proof (intro allI impI)
    fix now p r ks k assume "rd_Keys rs_client now (p @ ''*'') r = Val ks"
    then show "k \<in> set ks \<longleftrightarrow> HasPrefix k p \<and> rs_view now r k \<noteq> None"
      using rs_view_in [of now r k] by (auto simp: rs_client_def)
  qed
  moreover have "redis_law_Get rs_client rs_view" by (simp add: redis_law_Get_def rs_client_def)
  moreover have "redis_law_Set rs_client rs_view" by (auto simp: redis_law_Set_def rs_client_def rs_view_def)
  moreover have "redis_law_Del rs_client rs_view" by (auto simp: redis_law_Del_def rs_client_def rs_view_filter)
  ultimately show ?thesis by (simp add: redis_laws_def)
qed

definition rs_cache :: "rstore RedisCache" where
  "rs_cache = NewRedisCacheWithConfig NoOpSerializer [] ((DefaultConfig NoOpSerializer)\<lparr>cfg_Namespace := ''ns''\<rparr>)"

theorem redis_set_get_witness:
  "snd (rc_Get rs_client 1000 ''k'' DestString (fst (rc_Set rs_client 10 ''k'' (VString ''v'') 0 rs_cache))) = Inr (Some (VString ''v''))"
proof -
  let ?rc1 = "fst (rc_Set rs_client 10 ''k'' (VString ''v'') 0 rs_cache)"
  have "rc_Set rs_client 10 ''k'' (VString ''v'') 0 rs_cache = (?rc1, Inr ())"
    by (simp add: rc_Set_def rs_cache_def NewRedisCacheWithConfig_def NewBaseCache_def Let_def DefaultConfig_def NoOpSerializer_def rs_client_def)
  moreover have "3600000000000 = calculateTTL (rc_base rs_cache) 0"
    by (simp add: calculateTTL_def rs_cache_def NewRedisCacheWithConfig_def NewBaseCache_def Let_def DefaultConfig_def)
  moreover have "rd_Get rs_client t key r \<noteq> RErr e" for t key r e by (simp add: rs_client_def split: option.splits)
  moreover have "Serialize (bc_serializer (rc_base rs_cache)) (VString ''v'') = Inr b \<Longrightarrow> Deserialize (bc_serializer (rc_base rs_cache)) b DestString = Inr (VString ''v'')" for b
    by (simp add: rs_cache_def NewRedisCacheWithConfig_def NewBaseCache_def Let_def DefaultConfig_def NoOpSerializer_def)
  ultimately show ?thesis
    using redis_set_get [OF rs_laws, of 10 "''k''" "VString ''v''" 0 rs_cache ?rc1 DestString 3600000000000 1000] by simp
qed

end
