(* ===== verification/Jobs.thy ===== *)
theory Jobs
  imports GoStrings
begin

text \<open>
  The jobs of the queue package: priorities, statuses and the \<open>Job\<close> structure with its predicates
  and accessors (\<open>src/queue/job.go\<close>), the builder (\<open>src/queue/builder.go\<close>) and the job middleware
  (\<open>src/queue/middleware.go\<close>). \<open>json.Unmarshal\<close> and \<open>json.Marshal\<close> are arguments of the definitions
  that call them.
\<close>

section \<open>Data\<close>

type_synonym Priority = int

definition PriorityLow :: Priority where [simp]: "PriorityLow = 0"
definition PriorityNormal :: Priority where [simp]: "PriorityNormal = 1"
definition PriorityHigh :: Priority where [simp]: "PriorityHigh = 2"
definition PriorityCritical :: Priority where [simp]: "PriorityCritical = 3"

definition Priority_String :: "Priority \<Rightarrow> string" where
  "Priority_String p =
     (if p = PriorityLow then ''low'' else if p = PriorityNormal then ''normal''
      else if p = PriorityHigh then ''high'' else if p = PriorityCritical then ''critical'' else ''unknown'')"

text \<open>\<open>Status\<close> is an \<open>int\<close>; \<open>Status_other\<close> holds the numbers that have no name.\<close>

datatype Status = StatusPending | StatusRunning | StatusCompleted | StatusFailed | StatusRetrying
  | StatusScheduled | StatusDeadLetter | Status_other int

fun Status_String :: "Status \<Rightarrow> string" where
  "Status_String StatusPending = ''pending''"
| "Status_String StatusRunning = ''running''"
| "Status_String StatusCompleted = ''completed''"
| "Status_String StatusFailed = ''failed''"
| "Status_String StatusRetrying = ''retrying''"
| "Status_String StatusScheduled = ''scheduled''"
| "Status_String StatusDeadLetter = ''dead_letter''"
| "Status_String (Status_other n) = ''unknown''"

record Job =
  j_ID :: string
  j_Type :: string
  j_Priority :: Priority
  j_Status :: Status
  j_Attempts :: int
  j_MaxAttempts :: int
  j_Progress :: rat
  j_CreatedAt :: time
  j_UpdatedAt :: time
  j_CompletedAt :: time
  j_ScheduleAt :: time
  j_RetryAt :: time
  j_Timeout :: duration
  j_Payload :: "bytes option"
  j_Results :: "bytes option"
  j_Error :: string
  j_Metadata :: "(string \<rightharpoonup> string) option"

text \<open>The zero value of the structure: what the fields hold that a composite literal leaves out.\<close>

definition Job_zero :: Job where
  "Job_zero = \<lparr>j_ID = [], j_Type = [], j_Priority = 0, j_Status = StatusPending, j_Attempts = 0,
     j_MaxAttempts = 0, j_Progress = 0, j_CreatedAt = 0, j_UpdatedAt = 0, j_CompletedAt = 0,
     j_ScheduleAt = 0, j_RetryAt = 0, j_Timeout = 0, j_Payload = None, j_Results = None, j_Error = [],
     j_Metadata = None\<rparr>"

definition IsScheduled :: "time \<Rightarrow> Job \<Rightarrow> bool" where
  "IsScheduled now j \<longleftrightarrow> \<not> is_zero (j_ScheduleAt j) \<and> now < j_ScheduleAt j"

definition job_IsExpired :: "Job \<Rightarrow> bool" where
  "job_IsExpired j \<longleftrightarrow> j_MaxAttempts j \<le> j_Attempts j"

text \<open>Errors: \<open>apperror.NewError\<close>, \<open>apperror.Wrap\<close>, the context's errors.\<close>

datatype qerr = QErr string | QWrap qerr | CtxDone | DeadlineExceeded

section \<open>The builder\<close>

definition NewJob :: "time \<Rightarrow> string \<Rightarrow> Job" where
  "NewJob now jobType = Job_zero\<lparr>j_Type := jobType, j_Payload := Some ''{}'', j_Priority := PriorityNormal,
     j_Status := StatusPending, j_CreatedAt := now, j_MaxAttempts := 3, j_Metadata := Some Map.empty\<rparr>"

definition jb_WithID :: "string \<Rightarrow> Job \<Rightarrow> Job" where
  "jb_WithID i j = j\<lparr>j_ID := i\<rparr>"

definition jb_WithPayload :: "('p \<Rightarrow> bytes option) \<Rightarrow> 'p \<Rightarrow> Job \<Rightarrow> Job" where
  "jb_WithPayload marshal p j = (case marshal p of Some d \<Rightarrow> j\<lparr>j_Payload := Some d\<rparr> | None \<Rightarrow> j)"

definition jb_WithJSONPayload :: "bytes option \<Rightarrow> Job \<Rightarrow> Job" where
  "jb_WithJSONPayload d j = j\<lparr>j_Payload := d\<rparr>"

definition jb_WithPriority :: "Priority \<Rightarrow> Job \<Rightarrow> Job" where
  "jb_WithPriority p j = j\<lparr>j_Priority := p\<rparr>"

definition jb_WithMaxAttempts :: "int \<Rightarrow> Job \<Rightarrow> Job" where
  "jb_WithMaxAttempts n j = j\<lparr>j_MaxAttempts := n\<rparr>"

definition jb_WithScheduleAt :: "time \<Rightarrow> Job \<Rightarrow> Job" where
  "jb_WithScheduleAt t j = j\<lparr>j_ScheduleAt := t, j_Status := StatusScheduled\<rparr>"

definition jb_WithDelay :: "time \<Rightarrow> duration \<Rightarrow> Job \<Rightarrow> Job" where
  "jb_WithDelay now d j = j\<lparr>j_ScheduleAt := now + d, j_Status := StatusScheduled\<rparr>"

text \<open>The builder always has a metadata map: \<open>NewJob\<close> makes one and nothing removes it.\<close>

definition jb_WithMetadata :: "string \<Rightarrow> string \<Rightarrow> Job \<Rightarrow> Job" where
  "jb_WithMetadata k v j = j\<lparr>j_Metadata := Some ((case j_Metadata j of Some m \<Rightarrow> m | None \<Rightarrow> Map.empty)(k \<mapsto> v))\<rparr>"

section \<open>Job context\<close>

definition ReportProgress :: "time \<Rightarrow> rat \<Rightarrow> Job \<Rightarrow> Job" where
  "ReportProgress now p j = j\<lparr>j_Progress := p, j_UpdatedAt := now\<rparr>"

text \<open>\<open>unmarshal\<close> is \<open>json.Unmarshal\<close> into a \<open>map[string]interface{}\<close>; \<open>None\<close> is its error.\<close>

definition GetPayload :: "(bytes \<Rightarrow> (string \<rightharpoonup> value) option) \<Rightarrow> Job \<Rightarrow> string \<Rightarrow> value option" where
  "GetPayload unmarshal j key =
     (case j_Payload j of
        None \<Rightarrow> None
      | Some d \<Rightarrow> (case unmarshal d of None \<Rightarrow> None | Some m \<Rightarrow> m key))"

definition GetPayloadString :: "(bytes \<Rightarrow> (string \<rightharpoonup> value) option) \<Rightarrow> Job \<Rightarrow> string \<Rightarrow> string option" where
  "GetPayloadString unmarshal j key =
     (case GetPayload unmarshal j key of Some (VString s) \<Rightarrow> Some s | _ \<Rightarrow> None)"

text \<open>\<open>int(v)\<close> of a \<open>float64\<close> truncates towards zero.\<close>

definition int_of_float :: "rat \<Rightarrow> int" where
  "int_of_float q = (if q < 0 then \<lceil>q\<rceil> else \<lfloor>q\<rfloor>)"

definition GetPayloadInt :: "(bytes \<Rightarrow> (string \<rightharpoonup> value) option) \<Rightarrow> Job \<Rightarrow> string \<Rightarrow> int option" where
  "GetPayloadInt unmarshal j key =
     (case GetPayload unmarshal j key of
        Some (VInt n) \<Rightarrow> Some n
      | Some (VFloat q) \<Rightarrow> Some (int_of_float q)
      | _ \<Rightarrow> None)"

definition GetPayloadBool :: "(bytes \<Rightarrow> (string \<rightharpoonup> value) option) \<Rightarrow> Job \<Rightarrow> string \<Rightarrow> bool option" where
  "GetPayloadBool unmarshal j key =
     (case GetPayload unmarshal j key of Some (VBool b) \<Rightarrow> Some b | _ \<Rightarrow> None)"

definition GetMetadata :: "Job \<Rightarrow> string \<Rightarrow> string option" where
  "GetMetadata j key = (case j_Metadata j of None \<Rightarrow> None | Some m \<Rightarrow> m key)"

section \<open>Handlers and middleware\<close>

text \<open>
  What a handler's call ends with: nil, a \<open>*RetryableError\<close>, another error, or a panic. A handler
  works on the job it is given through its pointer, so it also returns the job as it left it.
\<close>

datatype outcome = Ok | Retryable string | Failure string | Panic string

type_synonym JobHandler = "Job \<Rightarrow> Job \<times> outcome"

fun IsRetryable :: "outcome \<Rightarrow> bool" where
  "IsRetryable (Retryable e) = True"
| "IsRetryable _ = False"

type_synonym Middleware = "JobHandler \<Rightarrow> JobHandler"

definition MiddlewareChain :: "JobHandler \<Rightarrow> Middleware list \<Rightarrow> JobHandler" where
  "MiddlewareChain handler middlewares = fold (\<lambda>m h. m h) (rev middlewares) handler"

definition LoggingMiddleware :: Middleware where
  "LoggingMiddleware next j = next j"

definition MetricsMiddleware :: Middleware where
  "MetricsMiddleware next j = next j"

text \<open>
  \<open>runtime\<close> is how long the wrapped handler runs on the job and \<open>expired\<close> which of the two ready
  channels \<open>select\<close> takes when the handler ends exactly at the deadline. On a timeout the handler
  keeps running in its goroutine: the job is returned as it was when the timer fired.
\<close>

definition TimeoutMiddleware :: "(Job \<Rightarrow> duration) \<Rightarrow> (Job \<Rightarrow> Job) \<Rightarrow> bool \<Rightarrow> duration \<Rightarrow> Middleware" where
  "TimeoutMiddleware runtime partial expired timeout next j =
     (if runtime j < timeout \<or> (runtime j = timeout \<and> \<not> expired) then next j
      else (partial j, Failure ''job execution timeout''))"

definition RecoveryMiddleware :: Middleware where
  "RecoveryMiddleware next j =
     (case next j of
        (j', Panic r) \<Rightarrow> (j', Failure (''job panic: '' @ r))
      | res \<Rightarrow> res)"

lemma MiddlewareChain_Cons: "MiddlewareChain h (m # ms) = m (MiddlewareChain h ms)"
  by (simp add: MiddlewareChain_def)

lemma MiddlewareChain_append: "MiddlewareChain h (ms @ ns) = MiddlewareChain (MiddlewareChain h ns) ms"
  by (induction ms) (simp_all add: MiddlewareChain_Cons, simp_all add: MiddlewareChain_def)

text \<open>The first middleware of the chain is the outermost: recovery placed first catches every panic below it.\<close>

lemma RecoveryMiddleware_no_panic: "snd (RecoveryMiddleware next j) \<noteq> Panic r"
  by (auto simp: RecoveryMiddleware_def split: prod.split outcome.split)

end
