(* ===== verification/Heap.thy ===== *)
theory Heap
  imports Prelude
begin

text \<open>
  Go's \<open>container/heap\<close> on a slice, as \<open>src/queue/memory.go\<close> uses it: sifting up and down with
  explicit swaps, for an arbitrary \<open>Less\<close>. A locale states what a priority queue promises its
  client; the heap is proved to keep that promise for every strict weak order.
\<close>

section \<open>The operations\<close>

definition swap :: "nat \<Rightarrow> nat \<Rightarrow> 'a list \<Rightarrow> 'a list" where
  "swap i j h = h[i := h ! j, j := h ! i]"

text \<open>Go's division truncates, so the parent of 0 is 0 and the loop stops there.\<close>

definition parent :: "nat \<Rightarrow> nat" where
  "parent j = (j - 1) div 2"

function heap_up :: "('a \<Rightarrow> 'a \<Rightarrow> bool) \<Rightarrow> 'a list \<Rightarrow> nat \<Rightarrow> 'a list" where
  "heap_up lt h j =
     (let i = parent j in
      if i = j \<or> \<not> lt (h ! j) (h ! i) then h else heap_up lt (swap i j h) i)"
  by pat_completeness auto
termination
  by (relation "measure (\<lambda>(lt, h, j). j)") (auto simp: parent_def)

function heap_down :: "('a \<Rightarrow> 'a \<Rightarrow> bool) \<Rightarrow> 'a list \<Rightarrow> nat \<Rightarrow> nat \<Rightarrow> 'a list" where
  "heap_down lt h i n =
     (let j1 = 2 * i + 1; j2 = j1 + 1 in
      if j1 \<ge> n then h
      else let j = (if j2 < n \<and> lt (h ! j2) (h ! j1) then j2 else j1) in
        if \<not> lt (h ! j) (h ! i) then h else heap_down lt (swap i j h) j n)"
  by pat_completeness auto
termination
  by (relation "measure (\<lambda>(lt, h, i, n). n - i)") (auto split: if_splits)

declare heap_up.simps [simp del] heap_down.simps [simp del]

definition heap_push :: "('a \<Rightarrow> 'a \<Rightarrow> bool) \<Rightarrow> 'a \<Rightarrow> 'a list \<Rightarrow> 'a list" where
  "heap_push lt x h = (let h' = h @ [x] in heap_up lt h' (length h' - 1))"

definition heap_pop :: "('a \<Rightarrow> 'a \<Rightarrow> bool) \<Rightarrow> 'a list \<Rightarrow> 'a \<times> 'a list" where
  "heap_pop lt h =
     (let n = length h - 1; h' = heap_down lt (swap 0 n h) 0 n in (h' ! n, take n h'))"

section \<open>Lemmas on lists\<close>

lemma length_swap [simp]: "length (swap i j h) = length h"
  by (simp add: swap_def)

lemma mset_swap': "i < length h \<Longrightarrow> j < length h \<Longrightarrow> mset (swap i j h) = mset h"
  unfolding swap_def by (cases "i = j") (simp_all add: Multiset.mset_swap)

lemma nth_swap:
  "i < length h \<Longrightarrow> j < length h \<Longrightarrow> k < length h \<Longrightarrow>
   swap i j h ! k = (if k = i then h ! j else if k = j then h ! i else h ! k)"
  by (auto simp: swap_def nth_list_update)

lemma parent_less: "0 < j \<Longrightarrow> parent j < j"
  by (auto simp: parent_def)

lemma length_heap_up [simp]: "length (heap_up lt h j) = length h"
  by (induction lt h j rule: heap_up.induct) (subst heap_up.simps, simp add: Let_def)

lemma mset_heap_up: "j < length h \<Longrightarrow> mset (heap_up lt h j) = mset h"
proof (induction lt h j rule: heap_up.induct)
  case (1 lt h j)
  show ?case
  proof (cases "parent j = j \<or> \<not> lt (h ! j) (h ! parent j)")
    case True
    then show ?thesis by (simp add: heap_up.simps [of lt h j] Let_def)
  next
    case False
    then have "parent j < length h" using "1.prems" by (auto simp: parent_def)
    then show ?thesis using 1 False by (simp add: heap_up.simps [of lt h j] Let_def mset_swap')
  qed
qed

lemma length_heap_down [simp]: "length (heap_down lt h i n) = length h"
  by (induction lt h i n rule: heap_down.induct) (subst heap_down.simps, simp add: Let_def)

lemma mset_heap_down: "n \<le> length h \<Longrightarrow> i < length h \<Longrightarrow> mset (heap_down lt h i n) = mset h"
proof (induction lt h i n rule: heap_down.induct)
  case (1 lt h i n)
  define j where "j = (if 2 * i + 2 < n \<and> lt (h ! (2 * i + 2)) (h ! (2 * i + 1)) then 2 * i + 2 else 2 * i + 1)"
  show ?case
  proof (cases "n \<le> 2 * i + 1 \<or> \<not> lt (h ! j) (h ! i)")
    case True
    then show ?thesis by (auto simp: heap_down.simps [of lt h i n] Let_def j_def)
  next
    case False
    then have "j < n" by (auto simp: j_def)
    then show ?thesis using 1 False by (simp add: heap_down.simps [of lt h i n] Let_def j_def mset_swap')
  qed
qed

text \<open>Pushing and popping keep the elements, whatever the order.\<close>

lemma mset_heap_push: "mset (heap_push lt x h) = add_mset x (mset h)"
  by (simp add: heap_push_def Let_def mset_heap_up)

lemma mset_heap_pop:
  assumes "h \<noteq> []" "heap_pop lt h = (x, h')"
  shows "mset h = add_mset x (mset h')"
proof -
  define n where "n = length h - 1"
  define g where "g = heap_down lt (swap 0 n h) 0 n"
  have n: "length h = Suc n" using assms(1) by (simp add: n_def)
  have "mset g = mset h" unfolding g_def by (simp add: mset_heap_down mset_swap' n)
  moreover have "length g = Suc n" using mset_eq_length [OF calculation] n by simp
  moreover have "x = g ! n" "h' = take n g" using assms(2) by (simp_all add: heap_pop_def Let_def n_def g_def)
  moreover have "g = take n g @ [g ! n]" using take_Suc_conv_app_nth [of n g] calculation(2) by simp
  ultimately show ?thesis by (metis add_mset_add_single mset_append mset_single_iff_right)
qed

text \<open>The part of the slice at and beyond \<open>n\<close> is not touched.\<close>

lemma nth_heap_down_beyond: "n \<le> length h \<Longrightarrow> i < n \<Longrightarrow> n \<le> k \<Longrightarrow> k < length h \<Longrightarrow> heap_down lt h i n ! k = h ! k"
proof (induction lt h i n rule: heap_down.induct)
  case (1 lt h i n)
  define j where "j = (if 2 * i + 2 < n \<and> lt (h ! (2 * i + 2)) (h ! (2 * i + 1)) then 2 * i + 2 else 2 * i + 1)"
  show ?case
  proof (cases "n \<le> 2 * i + 1 \<or> \<not> lt (h ! j) (h ! i)")
    case True
    then show ?thesis by (auto simp: heap_down.simps [of lt h i n] Let_def j_def)
  next
    case False
    then have "j < n" by (auto simp: j_def)
    then show ?thesis using 1 False
      by (simp add: heap_down.simps [of lt h i n] Let_def j_def [symmetric] nth_swap)
  qed
qed

lemma heap_single [simp]: "heap_push lt x [] = [x]" "heap_pop lt [x] = (x, [])"
  by (simp_all add: heap_push_def heap_pop_def Let_def heap_up.simps [of _ _ 0] heap_down.simps [of _ _ 0 0] parent_def swap_def)

section \<open>The heap order\<close>

text \<open>No element of the first \<open>n\<close> comes before its parent.\<close>

definition ordered_below :: "('a \<Rightarrow> 'a \<Rightarrow> bool) \<Rightarrow> 'a list \<Rightarrow> nat \<Rightarrow> bool" where
  "ordered_below lt h n \<longleftrightarrow> (\<forall>k. 0 < k \<and> k < n \<longrightarrow> \<not> lt (h ! k) (h ! parent k))"

definition heap_ordered :: "('a \<Rightarrow> 'a \<Rightarrow> bool) \<Rightarrow> 'a list \<Rightarrow> bool" where
  "heap_ordered lt h \<longleftrightarrow> ordered_below lt h (length h)"

locale weak_order =
  fixes lt :: "'a \<Rightarrow> 'a \<Rightarrow> bool"
  assumes irrefl: "\<not> lt x x"
    and le_trans: "\<not> lt y x \<Longrightarrow> \<not> lt z y \<Longrightarrow> \<not> lt z x"
    and asym: "lt x y \<Longrightarrow> \<not> lt y x"
begin

lemma root_least:
  assumes "ordered_below lt h n" "k < n"
  shows "\<not> lt (h ! k) (h ! 0)"
  using assms(2)
proof (induction k rule: less_induct)
  case (less k)
  show ?case
  proof (cases "k = 0")
    case False
    then have "\<not> lt (h ! parent k) (h ! 0)" "\<not> lt (h ! k) (h ! parent k)"
      using less assms(1) parent_less [of k] by (simp_all add: ordered_below_def)
    then show ?thesis by (rule le_trans)
  qed (simp add: irrefl)
qed

text \<open>While sifting up, the order may fail only between the element at \<open>j\<close> and its parent.\<close>

lemma heap_up_ordered:
  assumes "j < length h" "length h = n"
    and "\<And>k. 0 < k \<Longrightarrow> k < n \<Longrightarrow> k \<noteq> j \<Longrightarrow> \<not> lt (h ! k) (h ! parent k)"
    and "\<And>k. 0 < k \<Longrightarrow> k < n \<Longrightarrow> parent k = j \<Longrightarrow> 0 < j \<Longrightarrow> \<not> lt (h ! k) (h ! parent j)"
  shows "ordered_below lt (heap_up lt h j) n"
  using assms
proof (induction j arbitrary: h rule: less_induct)
  case (less j)
  let ?i = "parent j"
  show ?case
  proof (cases "j = 0 \<or> \<not> lt (h ! j) (h ! ?i)")
    case True
    then have "heap_up lt h j = h" by (auto simp: heap_up.simps [of lt h j] Let_def parent_def)
    then show ?thesis using True less.prems by (auto simp: ordered_below_def)
  next
    case False
    then have j: "0 < j" "lt (h ! j) (h ! ?i)" by auto
    note ij = parent_less [OF j(1)]
    let ?h = "swap ?i j h"
    have nth: "k < n \<Longrightarrow> ?h ! k = (if k = ?i then h ! j else if k = j then h ! ?i else h ! k)" for k
      using less.prems ij by (simp add: nth_swap)
    have "ordered_below lt (heap_up lt ?h ?i) n"
    proof (rule less.IH [OF ij])
      show "?i < length ?h" "length ?h = n" using less.prems ij by simp_all
      fix k assume k: "0 < k" "k < n"
      show "\<not> lt (?h ! k) (?h ! parent k)" if "k \<noteq> ?i"
      proof -
        have pk: "parent k < n" using parent_less [OF k(1)] k(2) by simp
        consider "k = j" | "k \<noteq> j" "parent k = j" | "k \<noteq> j" "parent k = ?i" | "k \<noteq> j" "parent k \<noteq> j" "parent k \<noteq> ?i"
          by blast
        then show ?thesis
        proof cases
          case 1
          then show ?thesis using nth [OF k(2)] nth [OF pk] ij j asym by simp
        next
          case 2
          then show ?thesis using nth [OF k(2)] nth [OF pk] that less.prems(4) [OF k 2(2) j(1)] ij by simp
        next
          case 3
          have "\<not> lt (h ! ?i) (h ! j)" "\<not> lt (h ! k) (h ! ?i)" using asym [OF j(2)] less.prems(3) [OF k] 3 by auto
          then show ?thesis using nth [OF k(2)] nth [OF pk] that 3 le_trans by auto
        next
          case 4
          then show ?thesis using nth [OF k(2)] nth [OF pk] that less.prems(3) [OF k] by simp
        qed
      qed
      show "\<not> lt (?h ! k) (?h ! parent ?i)" if pk: "parent k = ?i" and i0: "0 < ?i"
      proof -
        have pi: "parent ?i < ?i" by (rule parent_less [OF i0])
        have top: "\<not> lt (h ! ?i) (h ! parent ?i)" using less.prems(1-3) ij i0 by simp
        show ?thesis
        proof (cases "k = j")
          case True
          then show ?thesis using nth [OF k(2)] nth [of "parent ?i"] pi ij less.prems(1,2) top by simp
        next
          case False
          moreover have "k \<noteq> ?i" using pk parent_less [OF k(1)] by auto
          moreover have "\<not> lt (h ! k) (h ! ?i)" using less.prems(3) [OF k False] pk by simp
          ultimately show ?thesis
            using nth [OF k(2)] nth [of "parent ?i"] pi ij less.prems(1,2) le_trans [OF top] by simp
        qed
      qed
    qed
    moreover have "heap_up lt h j = heap_up lt ?h ?i"
      using j ij by (simp add: heap_up.simps [of lt h j] Let_def)
    ultimately show ?thesis by simp
  qed
qed

text \<open>While sifting down, the order may fail only between the element at \<open>i\<close> and its children.\<close>

lemma parent_eq_iff: "0 < k \<Longrightarrow> parent k = i \<longleftrightarrow> k = 2 * i + 1 \<or> k = 2 * i + 2"
  by (auto simp: parent_def)

lemma heap_down_ordered:
  assumes "i < n" "n \<le> length h"
    and "\<And>k. 0 < k \<Longrightarrow> k < n \<Longrightarrow> parent k \<noteq> i \<Longrightarrow> \<not> lt (h ! k) (h ! parent k)"
    and "\<And>k. 0 < k \<Longrightarrow> k < n \<Longrightarrow> parent k = i \<Longrightarrow> 0 < i \<Longrightarrow> \<not> lt (h ! k) (h ! parent i)"
  shows "ordered_below lt (heap_down lt h i n) n"
  using assms
proof (induction "n - i" arbitrary: h i rule: less_induct)
  case less
  define j where "j = (if 2 * i + 2 < n \<and> lt (h ! (2 * i + 2)) (h ! (2 * i + 1)) then 2 * i + 2 else 2 * i + 1)"
  have min: "\<not> lt (h ! k) (h ! j)" if "0 < k" "k < n" "parent k = i" for k
    using that irrefl asym by (auto simp: j_def parent_eq_iff)
  have step: "heap_down lt h i n =
      (if n \<le> 2 * i + 1 \<or> \<not> lt (h ! j) (h ! i) then h else heap_down lt (swap i j h) j n)"
    by (subst heap_down.simps) (auto simp: Let_def j_def)
  show ?case
  proof (cases "n \<le> 2 * i + 1 \<or> \<not> lt (h ! j) (h ! i)")
    case True
    have "\<not> lt (h ! k) (h ! parent k)" if k: "0 < k" "k < n" for k
    proof (cases "parent k = i")
      case par: True
      then have "2 * i + 1 < n" using k by (auto simp: parent_eq_iff)
      with True have "\<not> lt (h ! j) (h ! i)" by simp
      from this min [OF k par] show ?thesis unfolding par by (rule le_trans)
    qed (rule less.prems(3) [OF k])
    then show ?thesis using True step by (simp add: ordered_below_def)
  next
    case False
    then have j: "j < n" "0 < j" "parent j = i" "i < j" by (auto simp: j_def parent_def)
    let ?h = "swap i j h"
    have nth: "k < n \<Longrightarrow> ?h ! k = (if k = i then h ! j else if k = j then h ! i else h ! k)" for k
      using less.prems j by (simp add: nth_swap)
    have "ordered_below lt (heap_down lt ?h j n) n"
    proof (rule less.hyps)
      show "n - j < n - i" "j < n" "n \<le> length ?h" using j less.prems(2) by simp_all
      fix k assume k: "0 < k" "k < n"
      have pk: "parent k < k" "parent k < n" using parent_less [OF k(1)] k(2) by simp_all
      show "\<not> lt (?h ! k) (?h ! parent k)" if "parent k \<noteq> j"
      proof -
        consider "parent k = i" "k = j" | "parent k = i" "k \<noteq> j" | "parent k \<noteq> i" "k = i" | "parent k \<noteq> i" "k \<noteq> i"
          by blast
        then show ?thesis
        proof cases
          case 1
          then show ?thesis using nth [OF k(2)] nth [OF pk(2)] j asym False by simp
        next
          case 2
          then show ?thesis using nth [OF k(2)] nth [OF pk(2)] min [OF k 2(1)] pk by simp
        next
          case 3
          then show ?thesis using nth [OF k(2)] nth [OF pk(2)] that less.prems(4) [of j] j k by simp
        next
          case 4
          then have "k \<noteq> j" using j by auto
          with 4 show ?thesis using nth [OF k(2)] nth [OF pk(2)] that less.prems(3) [OF k] by simp
        qed
      qed
      show "\<not> lt (?h ! k) (?h ! parent j)" if pkj: "parent k = j"
      proof -
        have "k \<noteq> i" "k \<noteq> j" using pkj pk j by auto
        moreover have "\<not> lt (h ! k) (h ! j)" using less.prems(3) [OF k] pkj j by simp
        ultimately show ?thesis using nth [OF k(2)] nth [of i] j less.prems(1) by simp
      qed
    qed
    then show ?thesis using False step by simp
  qed
qed

lemma heap_push_ordered:
  assumes "heap_ordered lt h"
  shows "heap_ordered lt (heap_push lt x h)"
proof -
  have "\<not> lt ((h @ [x]) ! k) ((h @ [x]) ! parent k)" if "0 < k" "k < length h" for k
    using assms that parent_less [of k] by (simp add: heap_ordered_def ordered_below_def nth_append)
  moreover have "parent k \<noteq> length h" if "0 < k" "k < Suc (length h)" for k
    using that parent_less [of k] by simp
  ultimately have "ordered_below lt (heap_up lt (h @ [x]) (length h)) (Suc (length h))"
    by (intro heap_up_ordered) auto
  then show ?thesis by (simp add: heap_ordered_def heap_push_def Let_def)
qed

lemma heap_pop_spec:
  assumes "heap_ordered lt h" "h \<noteq> []" "heap_pop lt h = (x, h')"
  shows "heap_ordered lt h'" "mset h = add_mset x (mset h')" "y \<in> set h \<Longrightarrow> \<not> lt y x"
proof -
  define n where "n = length h - 1"
  define s where "s = swap 0 n h"
  define g where "g = heap_down lt s 0 n"
  have n: "length h = Suc n" using assms(2) by (simp add: n_def)
  have x: "x = g ! n" and h': "h' = take n g"
    using assms(3) by (auto simp: heap_pop_def Let_def n_def s_def g_def)
  have len: "length g = Suc n" by (simp add: g_def s_def n)
  have nth: "k < n \<Longrightarrow> 0 < k \<Longrightarrow> s ! k = h ! k" for k by (simp add: s_def nth_swap n)
  have gn: "g ! n = h ! 0"
  proof (cases "n = 0")
    case True
    then show ?thesis by (simp add: g_def heap_down.simps [of lt _ 0 0] s_def nth_swap n)
  next
    case False
    then have "g ! n = s ! n" unfolding g_def by (intro nth_heap_down_beyond) (simp_all add: s_def n)
    then show ?thesis by (simp add: s_def nth_swap n)
  qed
  have ord: "\<not> lt (h ! k) (h ! parent k)" if "0 < k" "k < Suc n" for k
    using assms(1) that by (simp add: heap_ordered_def ordered_below_def n)
  have "ordered_below lt g n"
  proof (cases "n = 0")
    case False
    show ?thesis unfolding g_def
    proof (rule heap_down_ordered)
      fix k assume k: "0 < k" "k < n" "parent k \<noteq> 0"
      then show "\<not> lt (s ! k) (s ! parent k)" using nth [of k] nth [of "parent k"] parent_less [of k] ord [of k] by simp
    qed (use False in \<open>simp_all add: s_def n\<close>)
  qed (simp add: ordered_below_def)
  moreover have "take n g ! parent k = g ! parent k" if "0 < k" "k < n" for k
    using parent_less [OF that(1)] that(2) by simp
  ultimately show "heap_ordered lt h'"
    by (simp add: heap_ordered_def ordered_below_def h' len)
  have "mset g = mset h" unfolding g_def s_def by (simp add: mset_heap_down mset_swap' n)
  moreover have "g = h' @ [x]" using len by (simp add: h' x take_Suc_conv_app_nth [symmetric])
  ultimately show "mset h = add_mset x (mset h')" by simp
  show "\<not> lt y x" if "y \<in> set h"
  proof -
    obtain k where "k < length h" "y = h ! k" using \<open>y \<in> set h\<close> by (auto simp: in_set_conv_nth)
    then show ?thesis using root_least [of h "length h" k] assms(1) by (simp add: x gn heap_ordered_def)
  qed
qed

end

section \<open>The priority queue contract\<close>

text \<open>What a client of a priority queue may rely on, whatever the representation.\<close>

locale priority_queue =
  fixes lt :: "'a \<Rightarrow> 'a \<Rightarrow> bool"
    and push :: "'a \<Rightarrow> 'a list \<Rightarrow> 'a list"
    and pop :: "'a list \<Rightarrow> 'a \<times> 'a list"
    and inv :: "'a list \<Rightarrow> bool"
  assumes inv_empty: "inv []"
    and push_inv: "inv h \<Longrightarrow> inv (push x h)"
    and push_mset: "inv h \<Longrightarrow> mset (push x h) = add_mset x (mset h)"
    and pop_inv: "inv h \<Longrightarrow> h \<noteq> [] \<Longrightarrow> pop h = (x, h') \<Longrightarrow> inv h'"
    and pop_mset: "inv h \<Longrightarrow> h \<noteq> [] \<Longrightarrow> pop h = (x, h') \<Longrightarrow> mset h = add_mset x (mset h')"
    and pop_least: "inv h \<Longrightarrow> h \<noteq> [] \<Longrightarrow> pop h = (x, h') \<Longrightarrow> y \<in> set h \<Longrightarrow> \<not> lt y x"
begin

lemma pop_length: "inv h \<Longrightarrow> h \<noteq> [] \<Longrightarrow> pop h = (x, h') \<Longrightarrow> length h = Suc (length h')"
  by (metis pop_mset size_add_mset size_mset)

lemma pop_set: "inv h \<Longrightarrow> h \<noteq> [] \<Longrightarrow> pop h = (x, h') \<Longrightarrow> set h = insert x (set h')"
  by (metis pop_mset set_mset_add_mset_insert set_mset_mset)

lemma push_set: "inv h \<Longrightarrow> set (push x h) = insert x (set h)"
  by (metis push_mset set_mset_add_mset_insert set_mset_mset)

lemma foldr_push:
  assumes "inv h"
  shows "inv (fold push xs h) \<and> mset (fold push xs h) = mset xs + mset h"
  using assms by (induction xs arbitrary: h) (simp_all add: push_inv push_mset)

text \<open>Popping everything gives the elements in order.\<close>

fun drain :: "nat \<Rightarrow> 'a list \<Rightarrow> 'a list" where
  "drain 0 h = []"
| "drain (Suc n) h = (let (x, h') = pop h in x # drain n h')"

lemma drain_sorted:
  assumes "inv h" "n = length h"
  shows "mset (drain n h) = mset h \<and> sorted_wrt (\<lambda>x y. \<not> lt y x) (drain n h)"
  using assms
proof (induction n arbitrary: h)
  case (Suc n)
  obtain x h' where p: "pop h = (x, h')" by fastforce
  have ne: "h \<noteq> []" using Suc.prems(2) by auto
  have h': "inv h'" "n = length h'" using Suc.prems pop_inv [OF _ ne p] pop_length [OF _ ne p] by auto
  note IH = Suc.IH [OF h']
  have "set (drain n h') = set h'" using IH by (metis set_mset_mset)
  then have "\<not> lt y x" if "y \<in> set (drain n h')" for y
    using that pop_least [OF Suc.prems(1) ne p] pop_set [OF Suc.prems(1) ne p] by simp
  then show ?case using IH p pop_mset [OF Suc.prems(1) ne p] by simp
qed simp

end

sublocale weak_order \<subseteq> pq: priority_queue lt "heap_push lt" "heap_pop lt" "heap_ordered lt"
  by unfold_locales (simp_all add: heap_push_ordered mset_heap_push heap_pop_spec, simp add: heap_ordered_def ordered_below_def)

end
