(* ===== verification/MemoryQueue.thy ===== *)
theory MemoryQueue
  imports Jobs Heap
begin

text \<open>
  The in-memory queue (\<open>src/queue/memory.go\<close>). Jobs are shared by pointer between the maps, the
  heap and the caller, so they live in a store and the queue holds references. The mutex makes each
  operation one step; \<open>Dequeue\<close> is given as its first critical section and the body of its select
  loop, because other operations run while it waits. The one-slot notification channel is a flag.
\<close>

section \<open>State\<close>

type_synonym ref = nat
type_synonym store = "ref \<Rightarrow> Job"

record MemoryQueue =
  mq_jobs :: "string \<rightharpoonup> ref"
  mq_pendingJobs :: "ref list"
  mq_scheduledJobs :: "string \<rightharpoonup> ref"
  mq_notifyC :: bool
  mq_closed :: bool

record QStats =
  qs_JobsProcessed :: int
  qs_JobsFailed :: int
  qs_JobsRetried :: int
  qs_QueueSize :: int
  qs_WorkersActive :: int
  qs_WorkersBusy :: int
  qs_TotalJobs :: int
  qs_Pending :: int
  qs_Running :: int
  qs_Completed :: int
  qs_Failed :: int
  qs_Retrying :: int
  qs_Scheduled :: int
  qs_DeadLetter :: int

definition QStats_zero :: QStats where
  "QStats_zero = \<lparr>qs_JobsProcessed = 0, qs_JobsFailed = 0, qs_JobsRetried = 0, qs_QueueSize = 0,
     qs_WorkersActive = 0, qs_WorkersBusy = 0, qs_TotalJobs = 0, qs_Pending = 0, qs_Running = 0,
     qs_Completed = 0, qs_Failed = 0, qs_Retrying = 0, qs_Scheduled = 0, qs_DeadLetter = 0\<rparr>"

definition NewMemoryQueue :: MemoryQueue where
  "NewMemoryQueue = \<lparr>mq_jobs = Map.empty, mq_pendingJobs = [], mq_scheduledJobs = Map.empty,
     mq_notifyC = False, mq_closed = False\<rparr>"

text \<open>\<open>jobHeap.Less\<close> on two jobs.\<close>

definition job_less :: "Job \<Rightarrow> Job \<Rightarrow> bool" where
  "job_less a b \<longleftrightarrow>
     (if j_Priority a \<noteq> j_Priority b then j_Priority a > j_Priority b else j_CreatedAt a < j_CreatedAt b)"

definition mq_Less :: "store \<Rightarrow> ref \<Rightarrow> ref \<Rightarrow> bool" where
  "mq_Less st a b \<longleftrightarrow> job_less (st a) (st b)"

section \<open>Operations\<close>

definition mq_notify :: "MemoryQueue \<Rightarrow> MemoryQueue" where
  "mq_notify mq = mq\<lparr>mq_notifyC := True\<rparr>"

definition mq_push :: "store \<Rightarrow> ref \<Rightarrow> MemoryQueue \<Rightarrow> MemoryQueue" where
  "mq_push st r mq = mq\<lparr>mq_pendingJobs := heap_push (mq_Less st) r (mq_pendingJobs mq)\<rparr>"

definition mq_pop :: "store \<Rightarrow> MemoryQueue \<Rightarrow> ref \<times> MemoryQueue" where
  "mq_pop st mq = (let (r, h) = heap_pop (mq_Less st) (mq_pendingJobs mq) in (r, mq\<lparr>mq_pendingJobs := h\<rparr>))"

definition queue_closed :: qerr where
  "queue_closed = QErr ''queue is closed''"

definition mq_Enqueue :: "time \<Rightarrow> store \<Rightarrow> ref \<Rightarrow> MemoryQueue \<Rightarrow> qerr option \<times> MemoryQueue" where
  "mq_Enqueue now st r mq =
     (if mq_closed mq then (Some queue_closed, mq)
      else
        (let mq1 = mq\<lparr>mq_jobs := (mq_jobs mq)(j_ID (st r) \<mapsto> r)\<rparr> in
         if \<not> IsScheduled now (st r) then (None, mq_notify (mq_push st r mq1))
         else (None, mq1\<lparr>mq_scheduledJobs := (mq_scheduledJobs mq1)(j_ID (st r) \<mapsto> r)\<rparr>)))"

datatype dequeue_result = Returned "qerr + ref" | Waiting

text \<open>\<open>Dequeue\<close> up to the select loop.\<close>

definition mq_Dequeue :: "store \<Rightarrow> MemoryQueue \<Rightarrow> dequeue_result \<times> MemoryQueue" where
  "mq_Dequeue st mq =
     (if mq_closed mq then (Returned (Inl queue_closed), mq)
      else if mq_pendingJobs mq \<noteq> [] then
        (let (r, mq1) = mq_pop st mq in (Returned (Inr r), mq1))
      else (Waiting, mq))"

datatype wake = CtxCancelled | TimerFired | Notified

text \<open>
  One round of the select loop of a waiting \<open>Dequeue\<close>. Receiving from \<open>notifyC\<close> takes the token; the
  receive is possible when there is one or the channel is closed.
\<close>

definition mq_wake :: "store \<Rightarrow> wake \<Rightarrow> MemoryQueue \<Rightarrow> dequeue_result \<times> MemoryQueue" where
  "mq_wake st ev mq =
     (case ev of
        CtxCancelled \<Rightarrow> (Returned (Inl CtxDone), mq)
      | TimerFired \<Rightarrow> (Returned (Inl DeadlineExceeded), mq)
      | Notified \<Rightarrow>
          (let mq0 = mq\<lparr>mq_notifyC := False\<rparr> in
           if mq_closed mq0 then (Returned (Inl queue_closed), mq0)
           else if mq_pendingJobs mq0 \<noteq> [] then
             (let (r, mq1) = mq_pop st mq0 in (Returned (Inr r), mq1))
           else (Waiting, mq0)))"

definition mq_Schedule :: "store \<Rightarrow> ref \<Rightarrow> MemoryQueue \<Rightarrow> qerr option \<times> MemoryQueue" where
  "mq_Schedule st r mq =
     (if mq_closed mq then (Some queue_closed, mq)
      else (None, mq\<lparr>mq_jobs := (mq_jobs mq)(j_ID (st r) \<mapsto> r),
                     mq_scheduledJobs := (mq_scheduledJobs mq)(j_ID (st r) \<mapsto> r)\<rparr>))"

definition mq_GetJob :: "string \<Rightarrow> MemoryQueue \<Rightarrow> qerr + ref" where
  "mq_GetJob i mq =
     (if mq_closed mq then Inl queue_closed
      else case mq_jobs mq i of None \<Rightarrow> Inl (QErr ''job not found'') | Some r \<Rightarrow> Inr r)"

definition mq_UpdateJob :: "store \<Rightarrow> ref \<Rightarrow> MemoryQueue \<Rightarrow> qerr option \<times> MemoryQueue" where
  "mq_UpdateJob st r mq =
     (if mq_closed mq then (Some queue_closed, mq)
      else
        (let i = j_ID (st r); mq1 = mq\<lparr>mq_jobs := (mq_jobs mq)(i \<mapsto> r)\<rparr> in
         (None,
          case j_Status (st r) of
            StatusPending \<Rightarrow>
              mq_notify (mq_push st r (mq1\<lparr>mq_scheduledJobs := (mq_scheduledJobs mq1)(i := None)\<rparr>))
          | StatusScheduled \<Rightarrow> mq1\<lparr>mq_scheduledJobs := (mq_scheduledJobs mq1)(i \<mapsto> r)\<rparr>
          | StatusRetrying \<Rightarrow> mq1\<lparr>mq_scheduledJobs := (mq_scheduledJobs mq1)(i \<mapsto> r)\<rparr>
          | StatusCompleted \<Rightarrow> mq1\<lparr>mq_scheduledJobs := (mq_scheduledJobs mq1)(i := None)\<rparr>
          | StatusFailed \<Rightarrow> mq1\<lparr>mq_scheduledJobs := (mq_scheduledJobs mq1)(i := None)\<rparr>
          | StatusDeadLetter \<Rightarrow> mq1\<lparr>mq_scheduledJobs := (mq_scheduledJobs mq1)(i := None)\<rparr>
          | _ \<Rightarrow> mq1)))"

definition mq_DeleteJob :: "string \<Rightarrow> MemoryQueue \<Rightarrow> qerr option \<times> MemoryQueue" where
  "mq_DeleteJob i mq =
     (if mq_closed mq then (Some queue_closed, mq)
      else (None, mq\<lparr>mq_jobs := (mq_jobs mq)(i := None), mq_scheduledJobs := (mq_scheduledJobs mq)(i := None)\<rparr>))"

text \<open>\<open>keys\<close> is the order in which \<open>range\<close> visits the map of jobs.\<close>

fun collect_jobs :: "store \<Rightarrow> (string \<rightharpoonup> ref) \<Rightarrow> Status \<Rightarrow> int \<Rightarrow> int \<Rightarrow> string list \<Rightarrow> ref list" where
  "collect_jobs st m status limit cnt [] = []"
| "collect_jobs st m status limit cnt (k # keys) =
     (case m k of
        None \<Rightarrow> collect_jobs st m status limit cnt keys
      | Some r \<Rightarrow>
          if j_Status (st r) = status then
            r # (if limit > 0 \<and> cnt + 1 \<ge> limit then [] else collect_jobs st m status limit (cnt + 1) keys)
          else collect_jobs st m status limit cnt keys)"

definition mq_GetJobs :: "string list \<Rightarrow> store \<Rightarrow> Status \<Rightarrow> int \<Rightarrow> MemoryQueue \<Rightarrow> qerr + ref list" where
  "mq_GetJobs keys st status limit mq =
     (if mq_closed mq then Inl queue_closed else Inr (collect_jobs st (mq_jobs mq) status limit 0 keys))"

definition count_job :: "Job \<Rightarrow> QStats \<Rightarrow> QStats" where
  "count_job j s =
     (let s = s\<lparr>qs_TotalJobs := qs_TotalJobs s + 1\<rparr> in
      case j_Status j of
        StatusPending \<Rightarrow> s\<lparr>qs_Pending := qs_Pending s + 1, qs_QueueSize := qs_QueueSize s + 1\<rparr>
      | StatusRunning \<Rightarrow> s\<lparr>qs_Running := qs_Running s + 1, qs_WorkersBusy := qs_WorkersBusy s + 1\<rparr>
      | StatusCompleted \<Rightarrow> s\<lparr>qs_Completed := qs_Completed s + 1, qs_JobsProcessed := qs_JobsProcessed s + 1\<rparr>
      | StatusFailed \<Rightarrow> s\<lparr>qs_Failed := qs_Failed s + 1, qs_JobsFailed := qs_JobsFailed s + 1\<rparr>
      | StatusRetrying \<Rightarrow> s\<lparr>qs_Retrying := qs_Retrying s + 1, qs_JobsRetried := qs_JobsRetried s + 1\<rparr>
      | StatusScheduled \<Rightarrow> s\<lparr>qs_Scheduled := qs_Scheduled s + 1, qs_QueueSize := qs_QueueSize s + 1\<rparr>
      | StatusDeadLetter \<Rightarrow> s\<lparr>qs_DeadLetter := qs_DeadLetter s + 1\<rparr>
      | Status_other _ \<Rightarrow> s)"

definition mq_GetStats :: "string list \<Rightarrow> store \<Rightarrow> MemoryQueue \<Rightarrow> qerr + QStats" where
  "mq_GetStats keys st mq =
     (if mq_closed mq then Inl queue_closed
      else Inr (fold (\<lambda>k s. case mq_jobs mq k of None \<Rightarrow> s | Some r \<Rightarrow> count_job (st r) s) keys QStats_zero))"

definition mq_Close :: "MemoryQueue \<Rightarrow> MemoryQueue" where
  "mq_Close mq = (if mq_closed mq then mq else mq\<lparr>mq_closed := True\<rparr>)"

section \<open>The heap of jobs\<close>

interpretation jobs: weak_order "mq_Less st" for st
  by unfold_locales (auto simp: mq_Less_def job_less_def split: if_splits)

definition mq_inv :: "store \<Rightarrow> MemoryQueue \<Rightarrow> bool" where
  "mq_inv st mq \<longleftrightarrow> heap_ordered (mq_Less st) (mq_pendingJobs mq) \<and> (\<forall>i r. mq_jobs mq i = Some r \<longrightarrow> j_ID (st r) = i)"

lemma mq_inv_new: "mq_inv st NewMemoryQueue"
  by (simp add: mq_inv_def NewMemoryQueue_def jobs.pq.inv_empty)

lemma mq_push_inv: "mq_inv st mq \<Longrightarrow> mq_inv st (mq_push st r mq)"
  by (simp add: mq_inv_def mq_push_def jobs.pq.push_inv)

lemma mq_inv_frame:
  "mq_inv st mq \<Longrightarrow> mq_inv st (mq\<lparr>mq_jobs := (mq_jobs mq)(j_ID (st r) \<mapsto> r)\<rparr>)"
  "mq_inv st mq \<Longrightarrow> mq_inv st (mq\<lparr>mq_jobs := (mq_jobs mq)(i := None)\<rparr>)"
  "mq_inv st (mq\<lparr>mq_scheduledJobs := s\<rparr>) = mq_inv st mq"
  "mq_inv st (mq\<lparr>mq_notifyC := b\<rparr>) = mq_inv st mq"
  "mq_inv st (mq\<lparr>mq_closed := b\<rparr>) = mq_inv st mq"
  "mq_inv st (mq_notify mq) = mq_inv st mq"
  by (auto simp: mq_inv_def mq_notify_def split: if_splits)

lemma mq_pop_spec:
  assumes "mq_inv st mq" "mq_pendingJobs mq \<noteq> []" "mq_pop st mq = (r, mq')"
  shows "mq_inv st mq'" "mset (mq_pendingJobs mq) = add_mset r (mset (mq_pendingJobs mq'))"
    "r' \<in> set (mq_pendingJobs mq) \<Longrightarrow> \<not> mq_Less st r' r" "mq_jobs mq' = mq_jobs mq" "mq_closed mq' = mq_closed mq"
proof -
  obtain h where p: "heap_pop (mq_Less st) (mq_pendingJobs mq) = (r, h)" "mq' = mq\<lparr>mq_pendingJobs := h\<rparr>"
    using assms(3) by (auto simp: mq_pop_def Let_def split: prod.splits)
  have h: "heap_ordered (mq_Less st) (mq_pendingJobs mq)" using assms(1) by (simp add: mq_inv_def)
  show "mq_inv st mq'" using assms(1) jobs.pq.pop_inv [OF h assms(2) p(1)] by (simp add: mq_inv_def p(2))
  show "mset (mq_pendingJobs mq) = add_mset r (mset (mq_pendingJobs mq'))"
    using jobs.pq.pop_mset [OF h assms(2) p(1)] by (simp add: p(2))
  show "r' \<in> set (mq_pendingJobs mq) \<Longrightarrow> \<not> mq_Less st r' r" by (rule jobs.pq.pop_least [OF h assms(2) p(1)])
  show "mq_jobs mq' = mq_jobs mq" "mq_closed mq' = mq_closed mq" by (simp_all add: p(2))
qed

lemma mq_Enqueue_inv: "mq_inv st mq \<Longrightarrow> mq_inv st (snd (mq_Enqueue now st r mq))"
  by (auto simp: mq_Enqueue_def Let_def mq_inv_frame intro!: mq_push_inv)

lemma mq_UpdateJob_inv: "mq_inv st mq \<Longrightarrow> mq_inv st (snd (mq_UpdateJob st r mq))"
  by (auto simp: mq_UpdateJob_def Let_def mq_inv_frame intro!: mq_push_inv split: Status.split)

lemma mq_Dequeue_inv: "mq_inv st mq \<Longrightarrow> mq_inv st (snd (mq_Dequeue st mq))"
  by (auto simp: mq_Dequeue_def Let_def split: prod.split dest: mq_pop_spec(1))

section \<open>Properties\<close>

text \<open>
  C8: \<open>Dequeue\<close> serves by priority, then by age: on an open queue with pending jobs it returns at once,
  the job it returns has the highest priority of all pending jobs and is the oldest of those with
  that priority, exactly that job leaves the heap, and the heap order is kept.
\<close>
theorem memory_queue_dequeue_order:
  assumes "mq_inv st mq" "\<not> mq_closed mq" "mq_pendingJobs mq \<noteq> []"
  shows "\<exists>r mq'. mq_Dequeue st mq = (Returned (Inr r), mq') \<and> mq_inv st mq' \<and>
    mset (mq_pendingJobs mq) = add_mset r (mset (mq_pendingJobs mq')) \<and> mq_jobs mq' = mq_jobs mq \<and>
    (\<forall>r' \<in> set (mq_pendingJobs mq).
       j_Priority (st r') < j_Priority (st r) \<or>
       (j_Priority (st r') = j_Priority (st r) \<and> j_CreatedAt (st r) \<le> j_CreatedAt (st r')))"
proof -
  obtain r mq' where p: "mq_pop st mq = (r, mq')" by fastforce
  have "mq_Dequeue st mq = (Returned (Inr r), mq')" using assms(2,3) p by (simp add: mq_Dequeue_def)
  moreover have "j_Priority (st r') < j_Priority (st r) \<or>
      (j_Priority (st r') = j_Priority (st r) \<and> j_CreatedAt (st r) \<le> j_CreatedAt (st r'))"
    if "r' \<in> set (mq_pendingJobs mq)" for r'
    using mq_pop_spec(3) [OF assms(1,3) p that] by (auto simp: mq_Less_def job_less_def split: if_splits)
  ultimately show ?thesis using mq_pop_spec(1,2,4) [OF assms(1,3) p] by blast
qed

definition demo_store :: store where
  "demo_store r =
     (if r = 1 then jb_WithPriority PriorityLow (jb_WithID ''a'' (NewJob 10 ''mail''))
      else if r = 2 then jb_WithPriority PriorityCritical (jb_WithID ''b'' (NewJob 30 ''mail''))
      else jb_WithPriority PriorityCritical (jb_WithID ''c'' (NewJob 20 ''mail'')))"

text \<open>A client that enqueues a list of jobs and one that dequeues until nothing is pending.\<close>

fun enqueue_all :: "time \<Rightarrow> store \<Rightarrow> ref list \<Rightarrow> MemoryQueue \<Rightarrow> MemoryQueue" where
  "enqueue_all now st [] mq = mq"
| "enqueue_all now st (r # rs) mq = enqueue_all now st rs (snd (mq_Enqueue now st r mq))"

fun dequeue_n :: "nat \<Rightarrow> store \<Rightarrow> MemoryQueue \<Rightarrow> ref list" where
  "dequeue_n 0 st mq = []"
| "dequeue_n (Suc n) st mq =
     (case mq_Dequeue st mq of
        (Returned (Inr r), mq') \<Rightarrow> r # dequeue_n n st mq'
      | _ \<Rightarrow> [])"

definition demo_refs :: "ref list" where
  "demo_refs = [1, 2, 3]"

definition demo_queue :: MemoryQueue where
  "demo_queue = enqueue_all 50 demo_store demo_refs NewMemoryQueue"

lemma demo_queue_eval: "mq_pendingJobs demo_queue = [3, 1, 2]" "mq_closed demo_queue = False"
  "mq_jobs demo_queue ''b'' = Some 2"
  by code_simp+

lemma enqueue_all_inv: "mq_inv st mq \<Longrightarrow> mq_inv st (enqueue_all now st rs mq)"
  by (induction rs arbitrary: mq) (simp_all add: mq_Enqueue_inv)

lemma demo_queue_inv: "mq_inv demo_store demo_queue"
  unfolding demo_queue_def by (intro enqueue_all_inv mq_inv_new)

theorem memory_queue_dequeue_order_witness:
  "\<exists>r mq'. mq_Dequeue demo_store demo_queue = (Returned (Inr r), mq') \<and> mq_inv demo_store mq' \<and>
     mset [3, 1, 2] = add_mset r (mset (mq_pendingJobs mq'))"
  using memory_queue_dequeue_order [OF demo_queue_inv] by (simp add: demo_queue_eval) blast

lemma enqueue_all_pending:
  assumes "mq_inv st mq" "\<not> mq_closed mq" "\<forall>r \<in> set rs. \<not> IsScheduled now (st r)"
  shows "\<not> mq_closed (enqueue_all now st rs mq) \<and>
    mset (mq_pendingJobs (enqueue_all now st rs mq)) = mset rs + mset (mq_pendingJobs mq)"
  using assms
proof (induction rs arbitrary: mq)
  case (Cons r rs)
  let ?mq = "snd (mq_Enqueue now st r mq)"
  have "mq_inv st ?mq" by (rule mq_Enqueue_inv [OF Cons.prems(1)])
  moreover have "\<not> mq_closed ?mq" "mset (mq_pendingJobs ?mq) = add_mset r (mset (mq_pendingJobs mq))"
    using Cons.prems jobs.pq.push_mset by (simp_all add: mq_Enqueue_def Let_def mq_notify_def mq_push_def mq_inv_def)
  ultimately show ?case using Cons.IH [of ?mq] Cons.prems(3) by simp
qed simp

lemma dequeue_n_sorted:
  assumes "mq_inv st mq" "\<not> mq_closed mq" "n = length (mq_pendingJobs mq)"
  shows "mset (dequeue_n n st mq) = mset (mq_pendingJobs mq) \<and>
    sorted_wrt (\<lambda>x y. \<not> mq_Less st y x) (dequeue_n n st mq)"
proof -
  have "dequeue_n n st mq = jobs.pq.drain st n (mq_pendingJobs mq)"
    using assms
  proof (induction n arbitrary: mq)
    case (Suc n)
    obtain r h where p: "heap_pop (mq_Less st) (mq_pendingJobs mq) = (r, h)" by fastforce
    have ne: "mq_pendingJobs mq \<noteq> []" using Suc.prems(3) by auto
    have pop: "mq_pop st mq = (r, mq\<lparr>mq_pendingJobs := h\<rparr>)" using p by (simp add: mq_pop_def)
    have "n = length h"
      using jobs.pq.pop_length [OF _ ne p] Suc.prems(1,3) by (simp add: mq_inv_def)
    then have "dequeue_n n st (mq\<lparr>mq_pendingJobs := h\<rparr>) = jobs.pq.drain st n h"
      using Suc.IH [of "mq\<lparr>mq_pendingJobs := h\<rparr>"] mq_pop_spec(1) [OF Suc.prems(1) ne pop] Suc.prems(2) by simp
    then show ?case using Suc.prems(2) ne pop p by (simp add: mq_Dequeue_def)
  qed simp
  then show ?thesis using jobs.pq.drain_sorted [of st "mq_pendingJobs mq" n] assms by (simp add: mq_inv_def)
qed

text \<open>
  C10: Nothing is lost and the order is right end to end: jobs that are due, enqueued in any order in a
  new queue, come out again, each exactly once, sorted by falling priority and rising creation time.
\<close>
theorem memory_queue_drains_sorted:
  assumes "\<forall>r \<in> set rs. \<not> IsScheduled now (st r)"
  shows "mset (dequeue_n (length rs) st (enqueue_all now st rs NewMemoryQueue)) = mset rs \<and>
    sorted_wrt (\<lambda>x y. j_Priority (st y) < j_Priority (st x) \<or>
        (j_Priority (st y) = j_Priority (st x) \<and> j_CreatedAt (st x) \<le> j_CreatedAt (st y)))
      (dequeue_n (length rs) st (enqueue_all now st rs NewMemoryQueue))"
proof -
  let ?mq = "enqueue_all now st rs NewMemoryQueue"
  have inv: "mq_inv st ?mq" by (intro enqueue_all_inv mq_inv_new)
  have p: "\<not> mq_closed ?mq" "mset (mq_pendingJobs ?mq) = mset rs"
    using enqueue_all_pending [OF mq_inv_new _ assms] by (simp_all add: NewMemoryQueue_def)
  then have "length rs = length (mq_pendingJobs ?mq)" by (metis size_mset)
  from dequeue_n_sorted [OF inv p(1) this] p(2) show ?thesis
    by (auto simp: mq_Less_def job_less_def split: if_splits elim: sorted_wrt_mono_rel [rotated])
qed

theorem memory_queue_drains_sorted_witness:
  "mset (dequeue_n 3 demo_store demo_queue) = {#1, 2, 3#}"
proof -
  have "\<forall>r \<in> set demo_refs. \<not> IsScheduled 50 (demo_store r)" by code_simp
  moreover have "length demo_refs = 3" "mset demo_refs = {#1, 2, 3#}" by (simp_all add: demo_refs_def)
  ultimately show ?thesis
    using memory_queue_drains_sorted [of demo_refs 50 demo_store] unfolding demo_queue_def [symmetric] by metis
qed

text \<open>
  Deleting a pending job does not keep it from running: after \<open>DeleteJob\<close> the job can no longer be
  looked up, but it is still in the heap, and when it is the only one there the next \<open>Dequeue\<close>
  returns it.
\<close>
theorem memory_queue_delete_still_runs:
  assumes "\<not> IsScheduled now (st r)"
    and "mq = snd (mq_DeleteJob (j_ID (st r)) (snd (mq_Enqueue now st r NewMemoryQueue)))"
  shows "mq_GetJob (j_ID (st r)) mq = Inl (QErr ''job not found'') \<and> fst (mq_Dequeue st mq) = Returned (Inr r)"
proof -
  have "heap_push (mq_Less st) r [] = [r]"
    by (simp add: heap_push_def Let_def heap_up.simps [of _ _ 0] parent_def)
  then have mq: "mq_pendingJobs mq = [r]" "\<not> mq_closed mq" "mq_jobs mq (j_ID (st r)) = None"
    using assms by (simp_all add: mq_DeleteJob_def mq_Enqueue_def NewMemoryQueue_def Let_def mq_notify_def mq_push_def)
  moreover have "fst (mq_pop st mq) = r"
    using mq by (simp add: mq_pop_def heap_pop_def Let_def swap_def heap_down.simps [of _ _ 0 0])
  ultimately show ?thesis by (auto simp: mq_GetJob_def mq_Dequeue_def split: prod.split)
qed

theorem memory_queue_delete_still_runs_witness:
  "fst (mq_Dequeue demo_store (snd (mq_DeleteJob (j_ID (demo_store 1)) (snd (mq_Enqueue 50 demo_store 1 NewMemoryQueue))))) =
    Returned (Inr 1)"
proof -
  have "\<not> IsScheduled 50 (demo_store 1)" by code_simp
  from memory_queue_delete_still_runs [where r = 1 and st = demo_store, OF this refl] show ?thesis by simp
qed

end
