(* ===== verification/QueueManager.thy ===== *)
theory QueueManager
  imports MemoryQueue
begin

text \<open>
  The queue manager (\<open>src/queue/queue.go\<close>) on its in-memory queue and the batch manager
  (\<open>src/queue/job.go\<close>). The workers, the retry goroutines and the schedule ticker are steps of a
  transition system: a retry goroutine is an entry of \<open>mg_retries\<close> with the time its sleep ends. Each
  step reads the clock once. A panic of a handler that no middleware recovers ends the process.
  The back-off is computed exactly on rationals where the code uses \<open>float64\<close>.
\<close>

section \<open>State and configuration\<close>

record Manager =
  mg_queue :: MemoryQueue
  mg_store :: store
  mg_handlers :: "string \<rightharpoonup> JobHandler"
  mg_workerCount :: int
  mg_maxRetries :: int
  mg_retryDelay :: duration
  mg_retryBackoff :: rat
  mg_scheduleInterval :: duration
  mg_shutdown :: bool
  mg_running :: bool
  mg_stats :: QStats
  mg_retries :: "(ref \<times> time) list"

definition NewManager :: "store \<Rightarrow> Manager" where
  "NewManager st = \<lparr>mg_queue = NewMemoryQueue, mg_store = st, mg_handlers = Map.empty, mg_workerCount = 1,
     mg_maxRetries = 3, mg_retryDelay = second * 2, mg_retryBackoff = 2, mg_scheduleInterval = second * 10,
     mg_shutdown = False, mg_running = False, mg_stats = QStats_zero, mg_retries = []\<rparr>"

definition mg_WithQueue :: "MemoryQueue \<Rightarrow> Manager \<Rightarrow> Manager" where
  "mg_WithQueue q m = m\<lparr>mg_queue := q\<rparr>"

definition WithWorkers :: "int \<Rightarrow> Manager \<Rightarrow> Manager" where
  "WithWorkers n m = (if n > 0 then m\<lparr>mg_workerCount := n\<rparr> else m)"

definition WithRetryAttempts :: "int \<Rightarrow> Manager \<Rightarrow> Manager" where
  "WithRetryAttempts n m = (if n \<ge> 0 then m\<lparr>mg_maxRetries := n\<rparr> else m)"

definition WithRetryDelay :: "duration \<Rightarrow> Manager \<Rightarrow> Manager" where
  "WithRetryDelay d m = (if d > 0 then m\<lparr>mg_retryDelay := d\<rparr> else m)"

definition WithRetryBackoff :: "rat \<Rightarrow> Manager \<Rightarrow> Manager" where
  "WithRetryBackoff b m = (if b > 0 then m\<lparr>mg_retryBackoff := b\<rparr> else m)"

definition WithScheduleInterval :: "duration \<Rightarrow> Manager \<Rightarrow> Manager" where
  "WithScheduleInterval d m = (if d > 0 then m\<lparr>mg_scheduleInterval := d\<rparr> else m)"

definition RegisterHandler :: "string \<Rightarrow> JobHandler \<Rightarrow> Manager \<Rightarrow> Manager" where
  "RegisterHandler t h m = m\<lparr>mg_handlers := (mg_handlers m)(t \<mapsto> h)\<rparr>"

section \<open>Life cycle\<close>

definition mg_Start :: "Manager \<Rightarrow> qerr option \<times> Manager" where
  "mg_Start m = (if mg_running m then (Some (QErr ''manager is already running''), m) else (None, m\<lparr>mg_running := True\<rparr>))"

text \<open>\<open>close\<close> of a closed channel panics: \<open>None\<close>.\<close>

definition mg_Stop :: "Manager \<Rightarrow> (qerr option \<times> Manager) option" where
  "mg_Stop m =
     (if \<not> mg_running m then Some (Some (QErr ''manager is not running''), m)
      else if mg_shutdown m then None
      else Some (None, m\<lparr>mg_running := False, mg_shutdown := True\<rparr>))"

definition mg_IsRunning :: "Manager \<Rightarrow> bool" where
  "mg_IsRunning m = mg_running m"

section \<open>Access to the queue\<close>

definition upd_job :: "ref \<Rightarrow> (Job \<Rightarrow> Job) \<Rightarrow> Manager \<Rightarrow> Manager" where
  "upd_job r f m = m\<lparr>mg_store := (mg_store m)(r := f (mg_store m r))\<rparr>"

definition upd_stats :: "(QStats \<Rightarrow> QStats) \<Rightarrow> Manager \<Rightarrow> Manager" where
  "upd_stats f m = m\<lparr>mg_stats := f (mg_stats m)\<rparr>"

text \<open>\<open>UpdateJob\<close> as the manager calls it: an error is only logged.\<close>

definition mg_UpdateJob :: "ref \<Rightarrow> Manager \<Rightarrow> Manager" where
  "mg_UpdateJob r m = m\<lparr>mg_queue := snd (mq_UpdateJob (mg_store m) r (mg_queue m))\<rparr>"

definition default_attempts :: "ref \<Rightarrow> Manager \<Rightarrow> Manager" where
  "default_attempts r m =
     upd_job r (\<lambda>j. if j_MaxAttempts j = 0 then j\<lparr>j_MaxAttempts := mg_maxRetries m\<rparr> else j) m"

definition queue_enqueue :: "time \<Rightarrow> ref \<Rightarrow> Manager \<Rightarrow> qerr option \<times> Manager" where
  "queue_enqueue now r m =
     (let (err, q) = mq_Enqueue now (mg_store m) r (mg_queue m) in (err, m\<lparr>mg_queue := q\<rparr>))"

definition mg_Enqueue :: "time \<Rightarrow> ref \<Rightarrow> Manager \<Rightarrow> qerr option \<times> Manager" where
  "mg_Enqueue now r m =
     (if \<not> mg_running m then (Some (QErr ''manager is not running''), m)
      else queue_enqueue now r (default_attempts r m))"

definition mg_Schedule :: "ref \<Rightarrow> Manager \<Rightarrow> qerr option \<times> Manager" where
  "mg_Schedule r m =
     (if \<not> mg_running m then (Some (QErr ''manager is not running''), m)
      else let m1 = default_attempts r m; (err, q) = mq_Schedule (mg_store m1) r (mg_queue m1)
           in (err, m1\<lparr>mg_queue := q\<rparr>))"

definition mg_GetJob :: "string \<Rightarrow> Manager \<Rightarrow> qerr + ref" where
  "mg_GetJob i m = mq_GetJob i (mg_queue m)"

definition mg_GetJobs :: "string list \<Rightarrow> Status \<Rightarrow> int \<Rightarrow> Manager \<Rightarrow> qerr + ref list" where
  "mg_GetJobs keys status limit m = mq_GetJobs keys (mg_store m) status limit (mg_queue m)"

definition mg_GetStats :: "string list \<Rightarrow> Manager \<Rightarrow> QStats" where
  "mg_GetStats keys m =
     (case mq_GetStats keys (mg_store m) (mg_queue m) of
        Inr s \<Rightarrow> s\<lparr>qs_WorkersActive := qs_WorkersActive (mg_stats m), qs_WorkersBusy := qs_WorkersBusy (mg_stats m)\<rparr>
      | Inl _ \<Rightarrow> QStats_zero\<lparr>qs_JobsProcessed := qs_JobsProcessed (mg_stats m), qs_JobsFailed := qs_JobsFailed (mg_stats m),
          qs_JobsRetried := qs_JobsRetried (mg_stats m), qs_QueueSize := qs_QueueSize (mg_stats m),
          qs_WorkersActive := qs_WorkersActive (mg_stats m), qs_WorkersBusy := qs_WorkersBusy (mg_stats m)\<rparr>)"

section \<open>Processing\<close>

definition calculateRetryDelay :: "Manager \<Rightarrow> int \<Rightarrow> duration" where
  "calculateRetryDelay m attempt =
     (if attempt \<le> 1 then mg_retryDelay m
      else int_of_float (of_int (mg_retryDelay m) * mg_retryBackoff m ^ nat (attempt - 1)))"

definition start_run :: "time \<Rightarrow> ref \<Rightarrow> Manager \<Rightarrow> Manager" where
  "start_run now r m =
     mg_UpdateJob r (upd_job r (\<lambda>j. j\<lparr>j_Status := StatusRunning, j_Attempts := j_Attempts j + 1, j_UpdatedAt := now\<rparr>) m)"

definition fail_run :: "time \<Rightarrow> ref \<Rightarrow> string \<Rightarrow> Manager \<Rightarrow> Manager" where
  "fail_run now r msg m =
     upd_stats (\<lambda>s. s\<lparr>qs_JobsFailed := qs_JobsFailed s + 1\<rparr>)
       (mg_UpdateJob r (upd_job r (\<lambda>j. j\<lparr>j_Status := StatusFailed, j_Error := msg, j_UpdatedAt := now\<rparr>) m))"

definition retry_run :: "time \<Rightarrow> ref \<Rightarrow> string \<Rightarrow> Manager \<Rightarrow> Manager" where
  "retry_run now r msg m =
     (let delay = calculateRetryDelay m (j_Attempts (mg_store m r));
          m1 = upd_stats (\<lambda>s. s\<lparr>qs_JobsRetried := qs_JobsRetried s + 1\<rparr>)
            (mg_UpdateJob r (upd_job r
               (\<lambda>j. j\<lparr>j_Status := StatusRetrying, j_Error := msg, j_RetryAt := now + delay, j_UpdatedAt := now\<rparr>) m))
      in m1\<lparr>mg_retries := mg_retries m1 @ [(r, now + delay)]\<rparr>)"

definition complete_run :: "time \<Rightarrow> ref \<Rightarrow> Manager \<Rightarrow> Manager" where
  "complete_run now r m =
     upd_stats (\<lambda>s. s\<lparr>qs_JobsProcessed := qs_JobsProcessed s + 1\<rparr>)
       (mg_UpdateJob r (upd_job r
          (\<lambda>j. j\<lparr>j_Status := StatusCompleted, j_CompletedAt := now, j_Progress := 1, j_UpdatedAt := now\<rparr>) m))"

text \<open>What follows the start of a run; \<open>None\<close>: the handler panicked.\<close>

definition processJob_end :: "time \<Rightarrow> ref \<Rightarrow> Manager \<Rightarrow> Manager option" where
  "processJob_end now r m1 =
     (case mg_handlers m1 (j_Type (mg_store m1 r)) of
        None \<Rightarrow> Some (fail_run now r (''no handler registered for job type: '' @ j_Type (mg_store m1 r)) m1)
      | Some handler \<Rightarrow>
          (let (j, out) = handler (mg_store m1 r); m2 = upd_job r (\<lambda>_. j) m1 in
           case out of
             Ok \<Rightarrow> Some (complete_run now r m2)
           | Retryable e \<Rightarrow>
               if j_Attempts j < j_MaxAttempts j then Some (retry_run now r e m2) else Some (fail_run now r e m2)
           | Failure e \<Rightarrow> Some (fail_run now r e m2)
           | Panic _ \<Rightarrow> None))"

definition processJob :: "time \<Rightarrow> ref \<Rightarrow> Manager \<Rightarrow> Manager option" where
  "processJob now r m = processJob_end now r (start_run now r m)"

text \<open>The end of a retry goroutine's sleep.\<close>

definition retry_fire :: "time \<Rightarrow> ref \<Rightarrow> Manager \<Rightarrow> Manager" where
  "retry_fire now r m = snd (queue_enqueue now r (upd_job r (\<lambda>j. j\<lparr>j_Status := StatusPending, j_RetryAt := 0\<rparr>) m))"

text \<open>
  One round of a worker, undisturbed by other goroutines: \<open>None\<close> when a handler panics, the manager
  unchanged but for the queue when nothing is returned. In the transition system below the round is
  two steps, so that everything else can happen while a handler runs.
\<close>

definition busy :: "int \<Rightarrow> Manager \<Rightarrow> Manager" where
  "busy d = upd_stats (\<lambda>s. s\<lparr>qs_WorkersBusy := qs_WorkersBusy s + d\<rparr>)"


definition worker_round :: "time \<Rightarrow> bool \<Rightarrow> Manager \<Rightarrow> Manager option" where
  "worker_round now ctx_done m =
     (if ctx_done \<or> mg_shutdown m then Some m
      else case mq_Dequeue (mg_store m) (mg_queue m) of
        (Returned (Inr r), q) \<Rightarrow>
          (case processJob now r (busy 1 (m\<lparr>mg_queue := q\<rparr>)) of
             None \<Rightarrow> None | Some m' \<Rightarrow> Some (busy (- 1) m'))
      | (_, q) \<Rightarrow> Some (m\<lparr>mg_queue := q\<rparr>))"

fun enqueue_due :: "time \<Rightarrow> ref list \<Rightarrow> Manager \<Rightarrow> Manager" where
  "enqueue_due now [] m = m"
| "enqueue_due now (r # rs) m =
     (if j_ScheduleAt (mg_store m r) \<le> now
      then enqueue_due now rs
             (snd (queue_enqueue now r (upd_job r (\<lambda>j. j\<lparr>j_Status := StatusPending, j_ScheduleAt := 0\<rparr>) m)))
      else enqueue_due now rs m)"

text \<open>A tick of the schedule processor; \<open>keys\<close> is the order in which \<open>GetJobs\<close> visits the jobs.\<close>

definition schedule_tick :: "time \<Rightarrow> string list \<Rightarrow> Manager \<Rightarrow> Manager" where
  "schedule_tick now keys m =
     (case mg_GetJobs keys StatusScheduled 100 m of Inl _ \<Rightarrow> m | Inr rs \<Rightarrow> enqueue_due now rs m)"

section \<open>The manager as a transition system\<close>


text \<open>How often a job waits to be run: in the heap or behind a sleeping retry goroutine.\<close>

definition waiting :: "Manager \<Rightarrow> ref \<Rightarrow> nat" where
  "waiting m r = count (mset (mq_pendingJobs (mg_queue m))) r + count (mset (map fst (mg_retries m))) r"




section \<open>The invariant\<close>






lemma upd_sel [simp]:
  "mg_queue (upd_job r f m) = mg_queue m" "mg_retries (upd_job r f m) = mg_retries m"
  "mg_handlers (upd_job r f m) = mg_handlers m" "mg_store (upd_job r f m) = (mg_store m)(r := f (mg_store m r))"
  "mg_running (upd_job r f m) = mg_running m" "mg_maxRetries (upd_job r f m) = mg_maxRetries m"
  "mg_queue (upd_stats g m) = mg_queue m" "mg_retries (upd_stats g m) = mg_retries m"
  "mg_handlers (upd_stats g m) = mg_handlers m" "mg_store (upd_stats g m) = mg_store m"
  by (simp_all add: upd_job_def upd_stats_def)


lemma mg_UpdateJob_sel [simp]:
  "mg_store (mg_UpdateJob r m) = mg_store m" "mg_retries (mg_UpdateJob r m) = mg_retries m"
  "mg_handlers (mg_UpdateJob r m) = mg_handlers m"
  by (simp_all add: mg_UpdateJob_def)

lemma mq_UpdateJob_pending:
  "j_Status (st r) \<noteq> StatusPending \<Longrightarrow> mq_pendingJobs (snd (mq_UpdateJob st r q)) = mq_pendingJobs q"
  by (auto simp: mq_UpdateJob_def Let_def split: Status.split)


lemma queue_enqueue_sel [simp]:
  "mg_store (snd (queue_enqueue now r m)) = mg_store m" "mg_retries (snd (queue_enqueue now r m)) = mg_retries m"
  "mg_handlers (snd (queue_enqueue now r m)) = mg_handlers m"
  "mg_queue (snd (queue_enqueue now r m)) = snd (mq_Enqueue now (mg_store m) r (mg_queue m))"
  by (simp_all add: queue_enqueue_def split: prod.split)


lemma mq_Enqueue_pending:
  "mset (mq_pendingJobs (snd (mq_Enqueue now st r q))) =
    (if mq_closed q \<or> IsScheduled now (st r) then mset (mq_pendingJobs q) else add_mset r (mset (mq_pendingJobs q)))"
  by (simp add: mq_Enqueue_def Let_def mq_notify_def mq_push_def mset_heap_push)

lemma waiting_frame [simp]: "waiting (upd_job r f m) = waiting m" "waiting (upd_stats g m) = waiting m"
  by (simp_all add: fun_eq_iff waiting_def)

lemma waiting_UpdateJob [simp]: "j_Status (mg_store m r) \<noteq> StatusPending \<Longrightarrow> waiting (mg_UpdateJob r m) = waiting m"
  by (simp add: fun_eq_iff waiting_def mg_UpdateJob_def mq_UpdateJob_pending)


subsection \<open>Steps that touch one job\<close>










subsection \<open>Submitting\<close>

lemma default_attempts_sel [simp]:
  "mg_queue (default_attempts r m) = mg_queue m"
  "mg_store (default_attempts r m) = (mg_store m)(r := (if j_MaxAttempts (mg_store m r) = 0
     then (mg_store m r)\<lparr>j_MaxAttempts := mg_maxRetries m\<rparr> else mg_store m r))"
  by (simp_all add: default_attempts_def)







subsection \<open>Running\<close>











subsection \<open>Retries and schedules\<close>



lemma collect_jobs_sound:
  assumes "r \<in> set (collect_jobs st q status limit cnt keys)"
  shows "\<exists>k \<in> set keys. q k = Some r \<and> j_Status (st r) = status"
  using assms
  by (induction keys arbitrary: cnt) (auto split: option.splits if_splits)




subsection \<open>Reachable states\<close>



section \<open>Properties\<close>


definition demo_handler :: JobHandler where
  "demo_handler j = (j, Retryable ''later'')"

definition demo_job :: Job where
  "demo_job = jb_WithMaxAttempts 2 (jb_WithID ''a'' (NewJob 10 ''mail''))"

definition demo_mgr :: Manager where
  "demo_mgr = snd (mg_Enqueue 20 7 (upd_job 7 (\<lambda>_. demo_job)
     (RegisterHandler ''mail'' demo_handler (snd (mg_Start (NewManager (\<lambda>_. Job_zero)))))))"


lemma demo_mgr_eval:
  "mq_pendingJobs (mg_queue demo_mgr) = [7]" "j_Attempts (mg_store demo_mgr 7) = 0" "j_MaxAttempts (mg_store demo_mgr 7) = 2"
  by code_simp+


text \<open>
  The manager left alone with its queue: a worker round while jobs are pending, otherwise the first
  retry goroutine wakes up, until nothing is left. \<open>None\<close> is a crash or the fuel running out.
\<close>

fun mg_drive :: "nat \<Rightarrow> time \<Rightarrow> Manager \<Rightarrow> Manager option" where
  "mg_drive 0 now m = None"
| "mg_drive (Suc n) now m =
     (if mq_pendingJobs (mg_queue m) \<noteq> [] then
        (case worker_round now False m of None \<Rightarrow> None | Some m' \<Rightarrow> mg_drive n now m')
      else case mg_retries m of
        [] \<Rightarrow> Some m
      | (r, due) # rest \<Rightarrow> mg_drive n (max now due) (retry_fire (max now due) r (m\<lparr>mg_retries := rest\<rparr>)))"

definition only_job :: "ref \<Rightarrow> JobHandler \<Rightarrow> Manager \<Rightarrow> bool" where
  "only_job r h m \<longleftrightarrow> mq_pendingJobs (mg_queue m) = [r] \<and> mg_retries m = [] \<and> \<not> mq_closed (mg_queue m) \<and>
     \<not> mg_shutdown m \<and> mg_handlers m (j_Type (mg_store m r)) = Some h \<and> j_ScheduleAt (mg_store m r) = 0"

lemma worker_round_single:
  assumes "only_job r h m" "\<And>j. h j = (j, Retryable e)"
  shows "\<exists>m'. worker_round now False m = Some m' \<and> mq_pendingJobs (mg_queue m') = [] \<and> \<not> mq_closed (mg_queue m') \<and>
    \<not> mg_shutdown m' \<and> mg_handlers m' = mg_handlers m \<and> j_Type (mg_store m' r) = j_Type (mg_store m r) \<and>
    j_ScheduleAt (mg_store m' r) = 0 \<and> j_Attempts (mg_store m' r) = j_Attempts (mg_store m r) + 1 \<and>
    j_MaxAttempts (mg_store m' r) = j_MaxAttempts (mg_store m r) \<and>
    (if j_Attempts (mg_store m r) + 1 < j_MaxAttempts (mg_store m r)
     then \<exists>due. mg_retries m' = [(r, due)]
     else mg_retries m' = [] \<and> j_Status (mg_store m' r) = StatusFailed \<and> j_Error (mg_store m' r) = e)"
proof -
  have d: "mq_Dequeue (mg_store m) (mg_queue m) = (Returned (Inr r), (mg_queue m)\<lparr>mq_pendingJobs := []\<rparr>)"
    using assms(1) by (simp add: mq_Dequeue_def mq_pop_def only_job_def)
  show ?thesis
    using assms(1)
    by (simp add: worker_round_def only_job_def d processJob_def processJob_end_def Let_def start_run_def fail_run_def retry_run_def
        mg_UpdateJob_def mq_UpdateJob_def upd_job_def upd_stats_def busy_def assms(2))
qed

lemma retry_fire_single:
  assumes "mq_pendingJobs (mg_queue m) = []" "\<not> mq_closed (mg_queue m)" "\<not> mg_shutdown m"
    "mg_handlers m (j_Type (mg_store m r)) = Some h" "j_ScheduleAt (mg_store m r) = 0"
  shows "only_job r h (retry_fire now r (m\<lparr>mg_retries := []\<rparr>)) \<and>
    j_Attempts (mg_store (retry_fire now r (m\<lparr>mg_retries := []\<rparr>)) r) = j_Attempts (mg_store m r) \<and>
    j_MaxAttempts (mg_store (retry_fire now r (m\<lparr>mg_retries := []\<rparr>)) r) = j_MaxAttempts (mg_store m r)"
  using assms
  by (simp add: only_job_def retry_fire_def queue_enqueue_def mq_Enqueue_def IsScheduled_def Let_def mq_notify_def mq_push_def upd_job_def)

lemma mg_drive_retries:
  assumes "only_job r h m" "\<And>j. h j = (j, Retryable e)" "j_Attempts (mg_store m r) < j_MaxAttempts (mg_store m r)"
    "n = nat (j_MaxAttempts (mg_store m r) - j_Attempts (mg_store m r))"
  shows "\<exists>m'. mg_drive (2 * n) now m = Some m' \<and> mq_pendingJobs (mg_queue m') = [] \<and> mg_retries m' = [] \<and>
    j_Attempts (mg_store m' r) = j_MaxAttempts (mg_store m r) \<and> j_Status (mg_store m' r) = StatusFailed \<and>
    j_Error (mg_store m' r) = e"
  using assms
proof (induction n arbitrary: m now)
  case (Suc n)
  obtain m1 where w: "worker_round now False m = Some m1" "mq_pendingJobs (mg_queue m1) = []" "\<not> mq_closed (mg_queue m1)"
    "\<not> mg_shutdown m1" "mg_handlers m1 (j_Type (mg_store m1 r)) = Some h" "j_ScheduleAt (mg_store m1 r) = 0"
    "j_Attempts (mg_store m1 r) = j_Attempts (mg_store m r) + 1" "j_MaxAttempts (mg_store m1 r) = j_MaxAttempts (mg_store m r)"
    "if j_Attempts (mg_store m r) + 1 < j_MaxAttempts (mg_store m r) then \<exists>due. mg_retries m1 = [(r, due)]
     else mg_retries m1 = [] \<and> j_Status (mg_store m1 r) = StatusFailed \<and> j_Error (mg_store m1 r) = e"
    using worker_round_single [OF Suc.prems(1,2), of now] Suc.prems(1) by (auto simp: only_job_def)
  have p: "mq_pendingJobs (mg_queue m) \<noteq> []" using Suc.prems(1) by (simp add: only_job_def)
  show ?case
  proof (cases "j_Attempts (mg_store m r) + 1 < j_MaxAttempts (mg_store m r)")
    case True
    then obtain due where due: "mg_retries m1 = [(r, due)]" using w(9) by auto
    let ?m = "retry_fire (max now due) r (m1\<lparr>mg_retries := []\<rparr>)"
    note f = retry_fire_single [OF w(2-6), of "max now due"]
    have "\<exists>m'. mg_drive (2 * n) (max now due) ?m = Some m' \<and> mq_pendingJobs (mg_queue m') = [] \<and> mg_retries m' = [] \<and>
        j_Attempts (mg_store m' r) = j_MaxAttempts (mg_store ?m r) \<and> j_Status (mg_store m' r) = StatusFailed \<and>
        j_Error (mg_store m' r) = e"
    proof (rule Suc.IH)
      show "only_job r h ?m" using f by blast
    qed (use f w(7,8) True Suc.prems(2,4) in simp_all)
    then show ?thesis using p w(1,2,8) due f by simp
  next
    case False
    then show ?thesis using p w Suc.prems(3) by (cases n) (auto simp: numeral_2_eq_2)
  qed
qed simp

text \<open>
  C12: A job that keeps failing with a retryable error is retried until its attempts are used up and
  then fails: on a running manager with that job alone in the queue, workers and retry goroutines
  together run it exactly as often as it has attempts left, after which it is marked failed with
  the handler's message and nothing of it is left in the heap or asleep. Twice the number of
  attempts left is enough fuel.
\<close>
theorem manager_retries_until_exhausted:
  assumes "only_job r h m" "\<And>j. h j = (j, Retryable e)" "j_Attempts (mg_store m r) < j_MaxAttempts (mg_store m r)"
  shows "\<exists>m'. mg_drive (2 * nat (j_MaxAttempts (mg_store m r) - j_Attempts (mg_store m r))) now m = Some m' \<and>
    mq_pendingJobs (mg_queue m') = [] \<and> mg_retries m' = [] \<and>
    j_Attempts (mg_store m' r) = j_MaxAttempts (mg_store m r) \<and> j_Status (mg_store m' r) = StatusFailed \<and>
    j_Error (mg_store m' r) = e"
  using mg_drive_retries [OF assms refl] .

theorem manager_retries_until_exhausted_witness:
  "\<exists>m'. mg_drive 4 30 demo_mgr = Some m' \<and> j_Attempts (mg_store m' 7) = 2 \<and> j_Status (mg_store m' 7) = StatusFailed"
proof -
  have "only_job 7 demo_handler demo_mgr"
    by (simp add: only_job_def demo_mgr_def mg_Enqueue_def default_attempts_def queue_enqueue_def mg_Start_def
        RegisterHandler_def NewManager_def NewMemoryQueue_def demo_job_def jb_WithMaxAttempts_def jb_WithID_def NewJob_def
        Job_zero_def mq_Enqueue_def IsScheduled_def upd_job_def mq_notify_def mq_push_def)
  from manager_retries_until_exhausted [OF this, of "''later''" 30] show ?thesis
    by (auto simp: demo_handler_def demo_mgr_eval)
qed

text \<open>
  A manager cannot be restarted: after \<open>Stop\<close> a second \<open>Start\<close> succeeds and the manager reports
  that it is running and accepts jobs, but every worker ends at once because the shutdown channel
  is still closed, and a second \<open>Stop\<close> panics when it closes the channel again.
\<close>
theorem manager_restart_dead:
  assumes "\<not> mg_running m" "\<not> mg_shutdown m" "mg_Stop (snd (mg_Start m)) = Some (e, m1)"
  shows "e = None \<and> fst (mg_Start m1) = None \<and> mg_IsRunning (snd (mg_Start m1)) \<and>
    worker_round now c (snd (mg_Start m1)) = Some (snd (mg_Start m1)) \<and> mg_Stop (snd (mg_Start m1)) = None"
  using assms by (auto simp: mg_Start_def mg_Stop_def mg_IsRunning_def worker_round_def)

theorem manager_restart_dead_witness:
  "\<exists>e m1. mg_Stop (snd (mg_Start (NewManager (\<lambda>_. Job_zero)))) = Some (e, m1) \<and> mg_Stop (snd (mg_Start m1)) = None"
proof -
  have "mg_Stop (snd (mg_Start (NewManager (\<lambda>_. Job_zero)))) =
      Some (None, (NewManager (\<lambda>_. Job_zero))\<lparr>mg_running := False, mg_shutdown := True\<rparr>)"
    by (simp add: mg_Stop_def mg_Start_def NewManager_def)
  from manager_restart_dead [OF _ _ this] this show ?thesis by (auto simp: NewManager_def)
qed

text \<open>
  A job marked as scheduled whose time has already come when it is enqueued can run twice:
  \<open>Enqueue\<close> pushes it into the heap at once but leaves it marked as scheduled, so a schedule tick
  that comes before a worker takes it pushes it a second time.
\<close>
theorem manager_due_job_queued_twice:
  assumes "mg_queue m = NewMemoryQueue" "mg_running m" "j_Status j = StatusScheduled" "j_ScheduleAt j \<le> now" "now \<le> now'"
    "j_MaxAttempts j > 0" "m1 = snd (mg_Enqueue now r (upd_job r (\<lambda>_. j) m))"
  shows "mset (mq_pendingJobs (mg_queue (schedule_tick now' [j_ID j] m1))) = {#r, r#}"
proof -
  have m1: "mg_store m1 r = j" "mq_pendingJobs (mg_queue m1) = [r]" "mq_jobs (mg_queue m1) (j_ID j) = Some r"
    "\<not> mq_closed (mg_queue m1)"
    using assms by (simp_all add: mg_Enqueue_def default_attempts_def queue_enqueue_def mq_Enqueue_def NewMemoryQueue_def
        IsScheduled_def upd_job_def mq_notify_def mq_push_def)
  let ?j = "j\<lparr>j_Status := StatusPending, j_ScheduleAt := 0\<rparr>"
  have h: "heap_ordered lt [r]" for lt by (simp add: heap_ordered_def ordered_below_def)
  have "schedule_tick now' [j_ID j] m1 =
      snd (queue_enqueue now' r (upd_job r (\<lambda>j. j\<lparr>j_Status := StatusPending, j_ScheduleAt := 0\<rparr>) m1))"
    using assms(3-5) m1 by (simp add: schedule_tick_def mg_GetJobs_def mq_GetJobs_def)
  then show ?thesis
    using m1 mq_Enqueue_pending [of now' "(mg_store m1)(r := ?j)" r "mg_queue m1"] by (simp add: IsScheduled_def)
qed

definition late_job :: Job where
  "late_job = jb_WithScheduleAt 15 (jb_WithID ''s'' (NewJob 10 ''mail''))"

theorem manager_due_job_queued_twice_witness:
  "mset (mq_pendingJobs (mg_queue (schedule_tick 25 [j_ID late_job]
     (snd (mg_Enqueue 20 7 (upd_job 7 (\<lambda>_. late_job) (snd (mg_Start (NewManager (\<lambda>_. Job_zero)))))))))) = {#7, 7#}"
proof -
  have "j_Status late_job = StatusScheduled" "j_ScheduleAt late_job \<le> 20" "j_MaxAttempts late_job > 0" by code_simp+
  moreover have "mg_queue (snd (mg_Start (NewManager (\<lambda>_. Job_zero)))) = NewMemoryQueue"
    "mg_running (snd (mg_Start (NewManager (\<lambda>_. Job_zero))))"
    by (simp_all add: mg_Start_def NewManager_def)
  ultimately show ?thesis
    using manager_due_job_queued_twice [of "snd (mg_Start (NewManager (\<lambda>_. Job_zero)))" late_job 20 25 _ 7] by simp
qed

text \<open>
  A job handed to \<open>Schedule\<close> that is not marked \<open>StatusScheduled\<close> is never run: \<open>Schedule\<close> only
  files it, and the schedule ticks look for \<open>StatusScheduled\<close>, so on a queue that holds nothing else
  no tick at any time, in any number, puts anything into the heap.
\<close>
theorem manager_schedule_unmarked_never_runs:
  assumes "mg_queue m = NewMemoryQueue" "mg_running m" "j_Status j \<noteq> StatusScheduled"
    "m1 = snd (mg_Schedule r (upd_job r (\<lambda>_. j) m))"
  shows "fst (mg_Schedule r (upd_job r (\<lambda>_. j) m)) = None \<and>
    fold (\<lambda>(now, keys) s. schedule_tick now keys s) ticks m1 = m1 \<and> mq_pendingJobs (mg_queue m1) = []"
proof -
  have m1: "j_Status (mg_store m1 r) \<noteq> StatusScheduled" "ran (mq_jobs (mg_queue m1)) = {r}"
    "mq_pendingJobs (mg_queue m1) = []" "\<not> mq_closed (mg_queue m1)"
    using assms by (auto simp: mg_Schedule_def default_attempts_def mq_Schedule_def NewMemoryQueue_def upd_job_def Let_def ran_def)
  have "collect_jobs (mg_store m1) (mq_jobs (mg_queue m1)) StatusScheduled 100 0 keys = []" for keys
    using collect_jobs_sound [of _ "mg_store m1" "mq_jobs (mg_queue m1)" StatusScheduled 100 0 keys] m1(1,2)
    by (metis list.set_intros(1) neq_Nil_conv ranI singletonD)
  then have "schedule_tick now keys m1 = m1" for now keys
    using m1(4) by (simp add: schedule_tick_def mg_GetJobs_def mq_GetJobs_def)
  then have "fold (\<lambda>(now, keys) s. schedule_tick now keys s) ticks m1 = m1" by (induction ticks) auto
  moreover have "fst (mg_Schedule r (upd_job r (\<lambda>_. j) m)) = None"
    using assms(1,2) by (simp add: mg_Schedule_def mq_Schedule_def NewMemoryQueue_def Let_def)
  ultimately show ?thesis using m1(3) by simp
qed

theorem manager_schedule_unmarked_never_runs_witness:
  "fold (\<lambda>(now, keys) s. schedule_tick now keys s) [(100, [''a'']), (1000, [''a''])]
     (snd (mg_Schedule 7 (upd_job 7 (\<lambda>_. demo_job) (snd (mg_Start (NewManager (\<lambda>_. Job_zero))))))) =
   snd (mg_Schedule 7 (upd_job 7 (\<lambda>_. demo_job) (snd (mg_Start (NewManager (\<lambda>_. Job_zero))))))"
proof -
  have "mg_queue (snd (mg_Start (NewManager (\<lambda>_. Job_zero)))) = NewMemoryQueue"
    "mg_running (snd (mg_Start (NewManager (\<lambda>_. Job_zero))))" "j_Status demo_job \<noteq> StatusScheduled"
    by (simp_all add: mg_Start_def NewManager_def demo_job_def jb_WithMaxAttempts_def jb_WithID_def NewJob_def)
  from manager_schedule_unmarked_never_runs [OF this refl] show ?thesis by blast
qed

end
