(* ===== verification/Batches.thy ===== *)
theory Batches
  imports QueueManager
begin

text \<open>
  Job batches (\<open>BatchManager\<close> of \<open>src/queue/job.go\<close>): creation, status aggregation and deletion on top
  of the queue manager. Batches are reached only through the manager's map, so they are values of it.
\<close>

section \<open>State and operations\<close>

record Batch =
  b_ID :: string
  b_Name :: string
  b_JobIDs :: "string list"
  b_Status :: Status
  b_Total :: int
  b_Pending :: int
  b_Running :: int
  b_Completed :: int
  b_Failed :: int
  b_CreatedAt :: time
  b_CompletedAt :: time
  b_Metadata :: "string \<rightharpoonup> string"

type_synonym batches = "string \<rightharpoonup> Batch"

definition NewBatchManager :: batches where
  "NewBatchManager = Map.empty"

text \<open>\<open>UnixNano\<close> counts from 1970; the model's instants count from year 1.\<close>

definition unix_nano :: "time \<Rightarrow> int" where
  "unix_nano t = t - 62135596800 * second"

definition generateBatchID :: "time \<Rightarrow> time \<Rightarrow> string" where
  "generateBatchID t1 t2 = ''batch_'' @ Itoa (unix_nano t1) @ ''_'' @ Itoa (t2 mod second)"

definition set_batch_id :: "string \<Rightarrow> Job \<Rightarrow> Job" where
  "set_batch_id i j =
     j\<lparr>j_Metadata := Some ((case j_Metadata j of None \<Rightarrow> Map.empty | Some m \<Rightarrow> m)(''batch_id'' \<mapsto> i))\<rparr>"

fun enqueue_batch :: "time \<Rightarrow> string \<Rightarrow> ref list \<Rightarrow> Manager \<Rightarrow> (qerr + string list) \<times> Manager" where
  "enqueue_batch now i [] m = (Inr [], m)"
| "enqueue_batch now i (r # rs) m =
     (case mg_Enqueue now r (upd_job r (set_batch_id i) m) of
        (Some err, m1) \<Rightarrow> (Inl (QWrap err), m1)
      | (None, m1) \<Rightarrow>
          (case enqueue_batch now i rs m1 of
             (Inl err, m2) \<Rightarrow> (Inl err, m2)
           | (Inr ids, m2) \<Rightarrow> (Inr (j_ID (mg_store m1 r) # ids), m2)))"

definition CreateBatch ::
    "time \<Rightarrow> string \<Rightarrow> ref list \<Rightarrow> Manager \<Rightarrow> batches \<Rightarrow> (qerr + Batch) \<times> Manager \<times> batches" where
  "CreateBatch now name jobs m bm =
     (let i = generateBatchID now now in
      case enqueue_batch now i jobs m of
        (Inl err, m1) \<Rightarrow> (Inl err, m1, bm)
      | (Inr ids, m1) \<Rightarrow>
          (let b = \<lparr>b_ID = i, b_Name = name, b_JobIDs = ids, b_Status = StatusPending, b_Total = int (length jobs),
                 b_Pending = int (length jobs), b_Running = 0, b_Completed = 0, b_Failed = 0, b_CreatedAt = now,
                 b_CompletedAt = 0, b_Metadata = Map.empty\<rparr>
           in (Inr b, m1, bm(i \<mapsto> b))))"

definition GetBatch :: "string \<Rightarrow> batches \<Rightarrow> qerr + Batch" where
  "GetBatch i bm = (case bm i of None \<Rightarrow> Inl (QErr ''batch not found'') | Some b \<Rightarrow> Inr b)"

definition count_one :: "Manager \<Rightarrow> string \<Rightarrow> Batch \<Rightarrow> Batch" where
  "count_one m i b =
     (case mg_GetJob i m of
        Inl _ \<Rightarrow> b
      | Inr r \<Rightarrow>
          (case j_Status (mg_store m r) of
             StatusPending \<Rightarrow> b\<lparr>b_Pending := b_Pending b + 1\<rparr>
           | StatusRunning \<Rightarrow> b\<lparr>b_Running := b_Running b + 1\<rparr>
           | StatusCompleted \<Rightarrow> b\<lparr>b_Completed := b_Completed b + 1\<rparr>
           | StatusFailed \<Rightarrow> b\<lparr>b_Failed := b_Failed b + 1\<rparr>
           | _ \<Rightarrow> b))"

definition batch_verdict :: "time \<Rightarrow> Batch \<Rightarrow> Batch" where
  "batch_verdict now b =
     (if b_Completed b = b_Total b then b\<lparr>b_Status := StatusCompleted, b_CompletedAt := now\<rparr>
      else if b_Failed b > 0 then b\<lparr>b_Status := StatusFailed\<rparr>
      else if b_Running b > 0 then b\<lparr>b_Status := StatusRunning\<rparr>
      else b\<lparr>b_Status := StatusPending\<rparr>)"

definition UpdateBatchStatus :: "time \<Rightarrow> string \<Rightarrow> Manager \<Rightarrow> batches \<Rightarrow> qerr option \<times> batches" where
  "UpdateBatchStatus now i m bm =
     (case bm i of
        None \<Rightarrow> (Some (QErr ''batch not found''), bm)
      | Some b \<Rightarrow>
          (let b0 = b\<lparr>b_Pending := 0, b_Running := 0, b_Completed := 0, b_Failed := 0\<rparr>;
               b1 = fold (count_one m) (b_JobIDs b0) b0
           in (None, bm(i \<mapsto> batch_verdict now b1))))"

text \<open>\<open>keys\<close> is the order in which \<open>range\<close> visits the map.\<close>

definition GetBatches :: "string list \<Rightarrow> batches \<Rightarrow> Batch list" where
  "GetBatches keys bm = List.map_filter bm keys"

definition DeleteBatch :: "string \<Rightarrow> Manager \<Rightarrow> batches \<Rightarrow> qerr option \<times> Manager \<times> batches" where
  "DeleteBatch i m bm =
     (case bm i of
        None \<Rightarrow> (Some (QErr ''batch not found''), m, bm)
      | Some b \<Rightarrow>
          (None,
           fold (\<lambda>j m. m\<lparr>mg_queue := snd (mq_DeleteJob j (mg_queue m))\<rparr>) (b_JobIDs b) m,
           bm(i := None)))"

section \<open>Counting\<close>

text \<open>A batch records one identifier for each of its jobs.\<close>

definition batch_wf :: "Batch \<Rightarrow> bool" where
  "batch_wf b \<longleftrightarrow> b_Total b = int (length (b_JobIDs b))"

lemma enqueue_batch_length: "enqueue_batch now i rs m = (Inr ids, m') \<Longrightarrow> length ids = length rs"
  by (induction now i rs m arbitrary: ids rule: enqueue_batch.induct) (auto split: prod.splits option.splits sum.splits)

lemma CreateBatch_wf: "CreateBatch now name jobs m bm = (Inr b, m', bm') \<Longrightarrow> batch_wf b \<and> bm' (b_ID b) = Some b"
  by (auto simp: CreateBatch_def Let_def batch_wf_def dest: enqueue_batch_length split: prod.splits sum.splits)

definition job_has :: "Manager \<Rightarrow> Status \<Rightarrow> string \<Rightarrow> bool" where
  "job_has m s i \<longleftrightarrow> (case mg_GetJob i m of Inl _ \<Rightarrow> False | Inr r \<Rightarrow> j_Status (mg_store m r) = s)"

lemma fold_count_one:
  "b_Completed (fold (count_one m) is b) = b_Completed b + int (length (filter (job_has m StatusCompleted) is))"
  "b_Failed (fold (count_one m) is b) = b_Failed b + int (length (filter (job_has m StatusFailed) is))"
  "b_Running (fold (count_one m) is b) = b_Running b + int (length (filter (job_has m StatusRunning) is))"
  "b_Pending (fold (count_one m) is b) = b_Pending b + int (length (filter (job_has m StatusPending) is))"
  "b_Total (fold (count_one m) is b) = b_Total b" "b_JobIDs (fold (count_one m) is b) = b_JobIDs b"
  by (induction "is" arbitrary: b) (auto simp: count_one_def job_has_def split: sum.split Status.split)

section \<open>Properties\<close>

text \<open>
  C25: The status of a batch says what its jobs are doing: after \<open>UpdateBatchStatus\<close> a batch made by
  \<open>CreateBatch\<close> is completed exactly when every one of its jobs is still known and completed; otherwise
  it is failed exactly when some job has failed, running exactly when none has failed and some job
  is running, and its four counters are the numbers of jobs in those states.
\<close>
theorem batch_status_correct:
  assumes "bm i = Some b" "batch_wf b"
  shows "\<exists>b'. UpdateBatchStatus now i m bm = (None, bm(i \<mapsto> b')) \<and> b_JobIDs b' = b_JobIDs b \<and>
    (b_Status b' = StatusCompleted \<longleftrightarrow> (\<forall>j \<in> set (b_JobIDs b). job_has m StatusCompleted j)) \<and>
    (b_Status b' = StatusFailed \<longleftrightarrow> (\<exists>j \<in> set (b_JobIDs b). job_has m StatusFailed j)) \<and>
    (b_Status b' = StatusRunning \<longleftrightarrow>
       \<not> (\<exists>j \<in> set (b_JobIDs b). job_has m StatusFailed j) \<and> (\<exists>j \<in> set (b_JobIDs b). job_has m StatusRunning j)) \<and>
    b_Completed b' = int (length (filter (job_has m StatusCompleted) (b_JobIDs b))) \<and>
    b_Failed b' = int (length (filter (job_has m StatusFailed) (b_JobIDs b)))"
proof -
  let ?ids = "b_JobIDs b"
  define b1 where "b1 = fold (count_one m) ?ids (b\<lparr>b_Pending := 0, b_Running := 0, b_Completed := 0, b_Failed := 0\<rparr>)"
  have c: "b_Completed b1 = int (length (filter (job_has m StatusCompleted) ?ids))"
    "b_Failed b1 = int (length (filter (job_has m StatusFailed) ?ids))"
    "b_Running b1 = int (length (filter (job_has m StatusRunning) ?ids))"
    "b_Total b1 = int (length ?ids)" "b_JobIDs b1 = ?ids"
    using assms(2) by (simp_all add: b1_def fold_count_one batch_wf_def)
  have all: "b_Completed b1 = b_Total b1 \<longleftrightarrow> (\<forall>j \<in> set ?ids. job_has m StatusCompleted j)"
    unfolding c by (metis filter_True length_filter_less linorder_neq_iff of_nat_eq_iff)
  have some: "b_Failed b1 > 0 \<longleftrightarrow> (\<exists>j \<in> set ?ids. job_has m StatusFailed j)"
    "b_Running b1 > 0 \<longleftrightarrow> (\<exists>j \<in> set ?ids. job_has m StatusRunning j)"
    unfolding c by (auto simp: filter_empty_conv)
  have excl: "job_has m StatusCompleted j \<Longrightarrow> \<not> job_has m StatusFailed j \<and> \<not> job_has m StatusRunning j" for j
    by (auto simp: job_has_def split: sum.splits)
  have "UpdateBatchStatus now i m bm = (None, bm(i \<mapsto> batch_verdict now b1))"
    using assms(1) by (simp add: UpdateBatchStatus_def Let_def b1_def)
  moreover have "b_JobIDs (batch_verdict now b1) = ?ids" "b_Completed (batch_verdict now b1) = b_Completed b1"
    "b_Failed (batch_verdict now b1) = b_Failed b1"
    by (simp_all add: batch_verdict_def c(5))
  moreover have "b_Status (batch_verdict now b1) = StatusCompleted \<longleftrightarrow> (\<forall>j \<in> set ?ids. job_has m StatusCompleted j)"
    "b_Status (batch_verdict now b1) = StatusFailed \<longleftrightarrow> (\<exists>j \<in> set ?ids. job_has m StatusFailed j)"
    "b_Status (batch_verdict now b1) = StatusRunning \<longleftrightarrow>
       \<not> (\<exists>j \<in> set ?ids. job_has m StatusFailed j) \<and> (\<exists>j \<in> set ?ids. job_has m StatusRunning j)"
    using all some excl unfolding batch_verdict_def by auto
  ultimately show ?thesis using c(1,2) by (intro exI [of _ "batch_verdict now b1"]) simp
qed

definition demo_batch :: Batch where
  "demo_batch = \<lparr>b_ID = ''x'', b_Name = ''n'', b_JobIDs = [''a''], b_Status = StatusPending, b_Total = 1,
     b_Pending = 1, b_Running = 0, b_Completed = 0, b_Failed = 0, b_CreatedAt = 5, b_CompletedAt = 0,
     b_Metadata = Map.empty\<rparr>"

theorem batch_status_correct_witness:
  "\<exists>b'. UpdateBatchStatus 9 ''x'' demo_mgr [''x'' \<mapsto> demo_batch] = (None, [''x'' \<mapsto> demo_batch, ''x'' \<mapsto> b']) \<and>
     b_JobIDs b' = [''a''] \<and> b_Status b' \<noteq> StatusCompleted"
proof -
  have "\<not> job_has demo_mgr StatusCompleted ''a''" by code_simp
  then show ?thesis
    using batch_status_correct [of "[''x'' \<mapsto> demo_batch]" "''x''" demo_batch 9 demo_mgr]
    by (auto simp: batch_wf_def demo_batch_def)
qed

end
