(* ===== verification/RedisQueue.thy ===== *)
theory RedisQueue
  imports MemoryQueue Batches "HOL-Library.Product_Lexorder" "HOL-Library.List_Lexorder" "HOL-Library.Char_ord"
begin

text \<open>
  The Redis queue (\<open>src/queue/redis.go\<close>): a hash per job and two sorted sets, of the pending and of the
  scheduled job IDs. The client (\<open>go-redis\<close>) is a record of the calls the queue makes on a server's state;
  \<open>queue_laws\<close> states what Redis documents of them, by a reference model \<open>rdb\<close> of hashes and sorted sets.
  Scores are integers; the laws speak of those that \<open>float64\<close> holds exactly, up to \<open>2 ^ 53\<close>.
\<close>

section \<open>The client\<close>

text \<open>The commands that are queued in a pipeline.\<close>

datatype cmd = HSet string string bytes | ZAdd string int string | ZRem string string | DelKey string

record 'r QueueClient =
  qc_Exec :: "cmd list \<Rightarrow> 'r \<Rightarrow> string option \<times> 'r"
  qc_BZPopMax :: "duration \<Rightarrow> string \<Rightarrow> 'r \<Rightarrow> value reply \<times> 'r"
  qc_HGet :: "string \<Rightarrow> string \<Rightarrow> 'r \<Rightarrow> bytes reply"
  qc_ZRange :: "string \<Rightarrow> int \<Rightarrow> int \<Rightarrow> 'r \<Rightarrow> string list reply"
  qc_ZRevRange :: "string \<Rightarrow> int \<Rightarrow> int \<Rightarrow> 'r \<Rightarrow> string list reply"
  qc_ZRangeByScore :: "string \<Rightarrow> string \<Rightarrow> string \<Rightarrow> 'r \<Rightarrow> string list reply"
  qc_ZCard :: "string \<Rightarrow> 'r \<Rightarrow> int reply"
  qc_Scan :: "nat \<Rightarrow> string \<Rightarrow> int \<Rightarrow> 'r \<Rightarrow> (string list \<times> nat) reply"

text \<open>\<open>json.Marshal\<close> and \<open>json.Unmarshal\<close> of a job.\<close>

record JobCodec =
  marshal_job :: "Job \<Rightarrow> string + bytes"
  unmarshal_job :: "bytes \<Rightarrow> string + Job"

record 'r RedisQueue =
  rq_server :: 'r
  rq_keyPrefix :: string
  rq_closed :: bool

definition NewRedisQueue :: "'r \<Rightarrow> string \<Rightarrow> 'r RedisQueue" where
  "NewRedisQueue client prefix = \<lparr>rq_server = client, rq_keyPrefix = (if prefix = [] then ''queue'' else prefix), rq_closed = False\<rparr>"

definition rq_jobKey :: "'r RedisQueue \<Rightarrow> string \<Rightarrow> string" where
  "rq_jobKey rq i = rq_keyPrefix rq @ '':job:'' @ i"

definition rq_pendingKey :: "'r RedisQueue \<Rightarrow> string" where
  "rq_pendingKey rq = rq_keyPrefix rq @ '':pending''"

definition rq_scheduledKey :: "'r RedisQueue \<Rightarrow> string" where
  "rq_scheduledKey rq = rq_keyPrefix rq @ '':scheduled''"

text \<open>\<open>time.Unix\<close>: seconds since 1970.\<close>

definition unix_sec :: "time \<Rightarrow> int" where
  "unix_sec t = t div second - 62135596800"

text \<open>\<open>apperror.Wrap\<close> of an error of the client, where \<open>redis.Nil\<close> is not told apart.\<close>

definition rwrap :: "string \<Rightarrow> qerr" where
  "rwrap e = QWrap (QErr e)"

definition redis_nil :: string where "redis_nil = ''redis: nil''"

section \<open>Operations\<close>

definition rq_exec :: "'r QueueClient \<Rightarrow> cmd list \<Rightarrow> 'r RedisQueue \<Rightarrow> qerr option \<times> 'r RedisQueue" where
  "rq_exec qc cs rq =
     (case qc_Exec qc cs (rq_server rq) of (e, r) \<Rightarrow> (map_option rwrap e, rq\<lparr>rq_server := r\<rparr>))"

definition rq_Enqueue :: "'r QueueClient \<Rightarrow> JobCodec \<Rightarrow> time \<Rightarrow> Job \<Rightarrow> 'r RedisQueue \<Rightarrow> qerr option \<times> 'r RedisQueue" where
  "rq_Enqueue qc json now j rq =
     (if rq_closed rq then (Some queue_closed, rq)
      else case marshal_job json j of
             Inl e \<Rightarrow> (Some (rwrap e), rq)
           | Inr data \<Rightarrow>
               rq_exec qc
                 ([HSet (rq_jobKey rq (j_ID j)) ''data'' data] @
                  (if IsScheduled now j then [ZAdd (rq_scheduledKey rq) (unix_sec (j_ScheduleAt j)) (j_ID j)] else []) @
                  (if \<not> IsScheduled now j then [ZAdd (rq_pendingKey rq) (j_Priority j) (j_ID j)] else [])) rq)"

definition rq_Dequeue :: "'r QueueClient \<Rightarrow> JobCodec \<Rightarrow> duration \<Rightarrow> 'r RedisQueue \<Rightarrow> (qerr + Job) \<times> 'r RedisQueue" where
  "rq_Dequeue qc json timeout rq =
     (if rq_closed rq then (Inl queue_closed, rq)
      else case qc_BZPopMax qc timeout (rq_pendingKey rq) (rq_server rq) of
             (RNil, r) \<Rightarrow> (Inl DeadlineExceeded, rq\<lparr>rq_server := r\<rparr>)
           | (RErr e, r) \<Rightarrow> (Inl (rwrap e), rq\<lparr>rq_server := r\<rparr>)
           | (Val m, r) \<Rightarrow>
               (let rq = rq\<lparr>rq_server := r\<rparr> in
                case m of
                  VString i \<Rightarrow>
                    (case qc_HGet qc (rq_jobKey rq i) ''data'' r of
                       RNil \<Rightarrow> (Inl (rwrap redis_nil), rq)
                     | RErr e \<Rightarrow> (Inl (rwrap e), rq)
                     | Val data \<Rightarrow>
                         (case unmarshal_job json data of Inl e \<Rightarrow> (Inl (rwrap e), rq) | Inr j \<Rightarrow> (Inr j, rq)))
                | _ \<Rightarrow> (Inl (QErr ''invalid member type in redis result''), rq)))"

definition rq_Schedule :: "'r QueueClient \<Rightarrow> JobCodec \<Rightarrow> Job \<Rightarrow> 'r RedisQueue \<Rightarrow> qerr option \<times> 'r RedisQueue" where
  "rq_Schedule qc json j rq =
     (if rq_closed rq then (Some queue_closed, rq)
      else case marshal_job json j of
             Inl e \<Rightarrow> (Some (rwrap e), rq)
           | Inr data \<Rightarrow>
               rq_exec qc [HSet (rq_jobKey rq (j_ID j)) ''data'' data,
                           ZAdd (rq_scheduledKey rq) (unix_sec (j_ScheduleAt j)) (j_ID j)] rq)"

definition rq_GetJob :: "'r QueueClient \<Rightarrow> JobCodec \<Rightarrow> string \<Rightarrow> 'r RedisQueue \<Rightarrow> qerr + Job" where
  "rq_GetJob qc json i rq =
     (if rq_closed rq then Inl queue_closed
      else case qc_HGet qc (rq_jobKey rq i) ''data'' (rq_server rq) of
             RNil \<Rightarrow> Inl (QErr ''job not found'')
           | RErr e \<Rightarrow> Inl (rwrap e)
           | Val data \<Rightarrow> (case unmarshal_job json data of Inl e \<Rightarrow> Inl (rwrap e) | Inr j \<Rightarrow> Inr j))"

text \<open>The pipeline of \<open>UpdateJob\<close>.\<close>

definition update_cmds :: "'r RedisQueue \<Rightarrow> Job \<Rightarrow> bytes \<Rightarrow> cmd list" where
  "update_cmds rq j data =
     [HSet (rq_jobKey rq (j_ID j)) ''data'' data, ZRem (rq_pendingKey rq) (j_ID j), ZRem (rq_scheduledKey rq) (j_ID j)] @
     (case j_Status j of
        StatusPending \<Rightarrow> [ZAdd (rq_pendingKey rq) (j_Priority j) (j_ID j)]
      | StatusScheduled \<Rightarrow> [ZAdd (rq_scheduledKey rq) (unix_sec (j_ScheduleAt j)) (j_ID j)]
      | StatusRetrying \<Rightarrow> [ZAdd (rq_scheduledKey rq) (unix_sec (j_ScheduleAt j)) (j_ID j)]
      | _ \<Rightarrow> [])"

definition rq_UpdateJob :: "'r QueueClient \<Rightarrow> JobCodec \<Rightarrow> Job \<Rightarrow> 'r RedisQueue \<Rightarrow> qerr option \<times> 'r RedisQueue" where
  "rq_UpdateJob qc json j rq =
     (if rq_closed rq then (Some queue_closed, rq)
      else case marshal_job json j of
             Inl e \<Rightarrow> (Some (rwrap e), rq)
           | Inr data \<Rightarrow> rq_exec qc (update_cmds rq j data) rq)"

definition rq_DeleteJob :: "'r QueueClient \<Rightarrow> string \<Rightarrow> 'r RedisQueue \<Rightarrow> qerr option \<times> 'r RedisQueue" where
  "rq_DeleteJob qc i rq =
     (if rq_closed rq then (Some queue_closed, rq)
      else rq_exec qc [DelKey (rq_jobKey rq i), ZRem (rq_pendingKey rq) i, ZRem (rq_scheduledKey rq) i] rq)"

text \<open>
  A page of keys in \<open>scanJobsByStatus\<close>: the jobs found and the new count. The loop over the pages ends when
  the server returns cursor 0 or the limit is reached; \<open>None\<close> is not returning.
\<close>

fun scan_keys :: "'r QueueClient \<Rightarrow> JobCodec \<Rightarrow> Status \<Rightarrow> int \<Rightarrow> 'r \<Rightarrow> int \<Rightarrow> string list \<Rightarrow> Job list \<times> int" where
  "scan_keys qc json status limit r cnt [] = ([], cnt)"
| "scan_keys qc json status limit r cnt (k # ks) =
     (if cnt \<ge> limit then ([], cnt)
      else case qc_HGet qc k ''data'' r of
             Val data \<Rightarrow>
               (case unmarshal_job json data of
                  Inl e \<Rightarrow> scan_keys qc json status limit r cnt ks
                | Inr j \<Rightarrow>
                    if j_Status j = status
                    then (case scan_keys qc json status limit r (cnt + 1) ks of (js, c) \<Rightarrow> (j # js, c))
                    else scan_keys qc json status limit r cnt ks)
           | _ \<Rightarrow> scan_keys qc json status limit r cnt ks)"

partial_function (option) rq_scan ::
    "'r QueueClient \<Rightarrow> JobCodec \<Rightarrow> Status \<Rightarrow> int \<Rightarrow> string \<Rightarrow> 'r \<Rightarrow> nat \<Rightarrow> int \<Rightarrow> Job list \<Rightarrow> (qerr + Job list) option" where
  "rq_scan qc json status limit pat r cursor cnt jobs =
     (case qc_Scan qc cursor pat 100 r of
        RNil \<Rightarrow> Some (Inl (rwrap redis_nil))
      | RErr e \<Rightarrow> Some (Inl (rwrap e))
      | Val page \<Rightarrow>
          (let (js, cnt') = scan_keys qc json status limit r cnt (fst page) in
           if snd page = 0 \<or> cnt' \<ge> limit then Some (Inr (jobs @ js))
           else rq_scan qc json status limit pat r (snd page) cnt' (jobs @ js)))"

definition rq_pattern :: "'r RedisQueue \<Rightarrow> string" where
  "rq_pattern rq = rq_keyPrefix rq @ '':job:*''"

definition rq_scanJobsByStatus :: "'r QueueClient \<Rightarrow> JobCodec \<Rightarrow> Status \<Rightarrow> int \<Rightarrow> 'r RedisQueue \<Rightarrow> (qerr + Job list) option" where
  "rq_scanJobsByStatus qc json status limit rq = rq_scan qc json status limit (rq_pattern rq) (rq_server rq) 0 0 []"

definition jobs_of_ids :: "'r QueueClient \<Rightarrow> JobCodec \<Rightarrow> Status \<Rightarrow> 'r RedisQueue \<Rightarrow> string list reply \<Rightarrow> qerr + Job list" where
  "jobs_of_ids qc json status rq ids =
     (case ids of
        RNil \<Rightarrow> Inl (rwrap redis_nil)
      | RErr e \<Rightarrow> Inl (rwrap e)
      | Val is \<Rightarrow> Inr (concat (map (\<lambda>i. case rq_GetJob qc json i rq of
                                Inl e \<Rightarrow> [] | Inr j \<Rightarrow> if j_Status j = status then [j] else []) is)))"

definition rq_GetJobs :: "'r QueueClient \<Rightarrow> JobCodec \<Rightarrow> Status \<Rightarrow> int \<Rightarrow> 'r RedisQueue \<Rightarrow> (qerr + Job list) option" where
  "rq_GetJobs qc json status limit rq =
     (if rq_closed rq then Some (Inl queue_closed)
      else if status = StatusPending
      then Some (jobs_of_ids qc json status rq (qc_ZRevRange qc (rq_pendingKey rq) 0 (wrap64 (limit - 1)) (rq_server rq)))
      else if status = StatusScheduled \<or> status = StatusRetrying
      then Some (jobs_of_ids qc json status rq (qc_ZRange qc (rq_scheduledKey rq) 0 (wrap64 (limit - 1)) (rq_server rq)))
      else rq_scanJobsByStatus qc json status limit rq)"

definition rq_count_job :: "Job \<Rightarrow> QStats \<Rightarrow> QStats" where
  "rq_count_job j s =
     (let s = s\<lparr>qs_TotalJobs := qs_TotalJobs s + 1\<rparr> in
      case j_Status j of
        StatusRunning \<Rightarrow> s\<lparr>qs_Running := qs_Running s + 1, qs_WorkersBusy := qs_WorkersBusy s + 1\<rparr>
      | StatusCompleted \<Rightarrow> s\<lparr>qs_Completed := qs_Completed s + 1, qs_JobsProcessed := qs_JobsProcessed s + 1\<rparr>
      | StatusFailed \<Rightarrow> s\<lparr>qs_Failed := qs_Failed s + 1, qs_JobsFailed := qs_JobsFailed s + 1\<rparr>
      | StatusRetrying \<Rightarrow> s\<lparr>qs_Retrying := qs_Retrying s + 1, qs_JobsRetried := qs_JobsRetried s + 1\<rparr>
      | StatusDeadLetter \<Rightarrow> s\<lparr>qs_DeadLetter := qs_DeadLetter s + 1\<rparr>
      | _ \<Rightarrow> s)"

definition stat_key :: "'r QueueClient \<Rightarrow> JobCodec \<Rightarrow> 'r \<Rightarrow> string \<Rightarrow> QStats \<Rightarrow> QStats" where
  "stat_key qc json r k s =
     (case qc_HGet qc k ''data'' r of
        Val data \<Rightarrow> (case unmarshal_job json data of Inl e \<Rightarrow> s | Inr j \<Rightarrow> rq_count_job j s)
      | _ \<Rightarrow> s)"

partial_function (option) rq_stat_scan ::
    "'r QueueClient \<Rightarrow> JobCodec \<Rightarrow> string \<Rightarrow> 'r \<Rightarrow> nat \<Rightarrow> QStats \<Rightarrow> (qerr + QStats) option" where
  "rq_stat_scan qc json pat r cursor s =
     (case qc_Scan qc cursor pat 100 r of
        RNil \<Rightarrow> Some (Inl (rwrap redis_nil))
      | RErr e \<Rightarrow> Some (Inl (rwrap e))
      | Val page \<Rightarrow>
          (let s' = fold (stat_key qc json r) (fst page) s in
           if snd page = 0 then Some (Inr s') else rq_stat_scan qc json pat r (snd page) s'))"

definition rq_GetStats :: "'r QueueClient \<Rightarrow> JobCodec \<Rightarrow> 'r RedisQueue \<Rightarrow> (qerr + QStats) option" where
  "rq_GetStats qc json rq =
     (if rq_closed rq then Some (Inl queue_closed)
      else case qc_ZCard qc (rq_pendingKey rq) (rq_server rq) of
             RNil \<Rightarrow> Some (Inl (rwrap redis_nil))
           | RErr e \<Rightarrow> Some (Inl (rwrap e))
           | Val p \<Rightarrow>
               (case qc_ZCard qc (rq_scheduledKey rq) (rq_server rq) of
                  RNil \<Rightarrow> Some (Inl (rwrap redis_nil))
                | RErr e \<Rightarrow> Some (Inl (rwrap e))
                | Val s \<Rightarrow> rq_stat_scan qc json (rq_pattern rq) (rq_server rq) 0
                             (QStats_zero\<lparr>qs_Pending := p, qs_Scheduled := s, qs_QueueSize := p + s\<rparr>)))"

definition rq_Close :: "'r RedisQueue \<Rightarrow> 'r RedisQueue" where
  "rq_Close rq = rq\<lparr>rq_closed := True\<rparr>"

definition move_job :: "'r QueueClient \<Rightarrow> JobCodec \<Rightarrow> string \<Rightarrow> 'r RedisQueue \<Rightarrow> 'r RedisQueue" where
  "move_job qc json i rq =
     (case rq_GetJob qc json i rq of
        Inl e \<Rightarrow> rq
      | Inr j \<Rightarrow> snd (rq_UpdateJob qc json (j\<lparr>j_Status := StatusPending, j_ScheduleAt := 0\<rparr>) rq))"

definition rq_MoveScheduledToPending :: "'r QueueClient \<Rightarrow> JobCodec \<Rightarrow> time \<Rightarrow> 'r RedisQueue \<Rightarrow> qerr option \<times> 'r RedisQueue" where
  "rq_MoveScheduledToPending qc json now rq =
     (if rq_closed rq then (Some queue_closed, rq)
      else case qc_ZRangeByScore qc (rq_scheduledKey rq) ''-inf'' (Itoa (unix_sec now)) (rq_server rq) of
             RNil \<Rightarrow> (Some (rwrap redis_nil), rq)
           | RErr e \<Rightarrow> (Some (rwrap e), rq)
           | Val ids \<Rightarrow> (None, fold (move_job qc json) ids rq))"

section \<open>What Redis documents\<close>

text \<open>
  Hashes, by key and field, and sorted sets, kept by score and then by the bytes of the member. A \<open>ZADD\<close> of
  a present member moves it.
\<close>

record rdb =
  db_hash :: "string \<Rightarrow> string \<Rightarrow> bytes option"
  db_zset :: "string \<Rightarrow> (int \<times> string) list"

definition z_rem :: "string \<Rightarrow> (int \<times> string) list \<Rightarrow> (int \<times> string) list" where
  "z_rem m zs = filter (\<lambda>z. snd z \<noteq> m) zs"

definition z_add :: "int \<Rightarrow> string \<Rightarrow> (int \<times> string) list \<Rightarrow> (int \<times> string) list" where
  "z_add s m zs = insort (s, m) (z_rem m zs)"

fun run_cmd :: "cmd \<Rightarrow> rdb \<Rightarrow> rdb" where
  "run_cmd (HSet k f b) db = db\<lparr>db_hash := (db_hash db)(k := (db_hash db k)(f \<mapsto> b))\<rparr>"
| "run_cmd (ZAdd k s m) db = db\<lparr>db_zset := (db_zset db)(k := z_add s m (db_zset db k))\<rparr>"
| "run_cmd (ZRem k m) db = db\<lparr>db_zset := (db_zset db)(k := z_rem m (db_zset db k))\<rparr>"
| "run_cmd (DelKey k) db = db\<lparr>db_hash := (db_hash db)(k := Map.empty), db_zset := (db_zset db)(k := [])\<rparr>"

definition exact_score :: "int \<Rightarrow> bool" where
  "exact_score n \<longleftrightarrow> - (2 ^ 53) \<le> n \<and> n \<le> 2 ^ 53"

fun exact_cmd :: "cmd \<Rightarrow> bool" where
  "exact_cmd (ZAdd k s m) \<longleftrightarrow> exact_score s"
| "exact_cmd _ \<longleftrightarrow> True"

text \<open>\<open>ZRANGE\<close> from index 0: a negative end counts from the end. The sorted-set commands fail on a key that holds a hash.\<close>

definition z_slice :: "int \<Rightarrow> 'a list \<Rightarrow> 'a list" where
  "z_slice stop xs = take (nat (if stop < 0 then int (length xs) + stop + 1 else stop + 1)) xs"

definition law_Exec :: "'r QueueClient \<Rightarrow> ('r \<Rightarrow> rdb) \<Rightarrow> bool" where
  "law_Exec qc view \<longleftrightarrow> (\<forall>cs r r'. list_all exact_cmd cs \<longrightarrow> qc_Exec qc cs r = (None, r') \<longrightarrow> view r' = fold run_cmd cs (view r))"

definition law_Pop :: "'r QueueClient \<Rightarrow> ('r \<Rightarrow> rdb) \<Rightarrow> bool" where
  "law_Pop qc view \<longleftrightarrow> (\<forall>t k r. db_zset (view r) k \<noteq> [] \<longrightarrow>
     (\<exists>r'. qc_BZPopMax qc t k r = (Val (VString (snd (last (db_zset (view r) k)))), r') \<and>
           view r' = (view r)\<lparr>db_zset := (db_zset (view r))(k := butlast (db_zset (view r) k))\<rparr>))"

definition law_HGet :: "'r QueueClient \<Rightarrow> ('r \<Rightarrow> rdb) \<Rightarrow> bool" where
  "law_HGet qc view \<longleftrightarrow> (\<forall>k f r. case db_hash (view r) k f of Some b \<Rightarrow> qc_HGet qc k f r = Val b | None \<Rightarrow> \<forall>b. qc_HGet qc k f r \<noteq> Val b)"

definition law_ZRange :: "'r QueueClient \<Rightarrow> ('r \<Rightarrow> rdb) \<Rightarrow> bool" where
  "law_ZRange qc view \<longleftrightarrow> (\<forall>k stop r. db_hash (view r) k = Map.empty \<longrightarrow>
     qc_ZRange qc k 0 stop r = Val (z_slice stop (map snd (db_zset (view r) k))) \<and>
     qc_ZRevRange qc k 0 stop r = Val (z_slice stop (rev (map snd (db_zset (view r) k)))) \<and>
     qc_ZCard qc k r = Val (int (length (db_zset (view r) k))))"

definition law_ZRangeByScore :: "'r QueueClient \<Rightarrow> ('r \<Rightarrow> rdb) \<Rightarrow> bool" where
  "law_ZRangeByScore qc view \<longleftrightarrow> (\<forall>k n r. db_hash (view r) k = Map.empty \<longrightarrow> exact_score n \<longrightarrow>
     qc_ZRangeByScore qc k ''-inf'' (Itoa n) r = Val (map snd (filter (\<lambda>z. fst z \<le> n) (db_zset (view r) k))))"

text \<open>
  A full iteration of \<open>SCAN\<close>: pages from cursor 0 to the page that returns cursor 0, which together hold
  every key that matches, some of them perhaps more than once.
\<close>

fun scan_pages :: "'r QueueClient \<Rightarrow> string \<Rightarrow> 'r \<Rightarrow> nat \<Rightarrow> (string list \<times> nat) list \<Rightarrow> bool" where
  "scan_pages qc pat r c [] \<longleftrightarrow> False"
| "scan_pages qc pat r c [page] \<longleftrightarrow> qc_Scan qc c pat 100 r = Val page \<and> snd page = 0"
| "scan_pages qc pat r c (page # p # ps) \<longleftrightarrow> qc_Scan qc c pat 100 r = Val page \<and> snd page \<noteq> 0 \<and> scan_pages qc pat r (snd page) (p # ps)"

definition glob_free :: "string \<Rightarrow> bool" where
  "glob_free p \<longleftrightarrow> (\<forall>c \<in> set p. c \<noteq> CHR ''*'' \<and> c \<noteq> CHR ''?'' \<and> c \<noteq> CHR ''['' \<and> c \<noteq> CHR 0x5C)"

definition law_Scan :: "'r QueueClient \<Rightarrow> ('r \<Rightarrow> rdb) \<Rightarrow> bool" where
  "law_Scan qc view \<longleftrightarrow> (\<forall>p r. glob_free p \<longrightarrow>
     (\<exists>ps. scan_pages qc (p @ ''*'') r 0 ps \<and>
           (\<forall>k f. db_hash (view r) k f \<noteq> None \<longrightarrow> (k \<in> set (concat (map fst ps)) \<longleftrightarrow> HasPrefix k p))))"

definition queue_laws :: "'r QueueClient \<Rightarrow> ('r \<Rightarrow> rdb) \<Rightarrow> bool" where
  "queue_laws qc view \<longleftrightarrow> law_Exec qc view \<and> law_Pop qc view \<and> law_HGet qc view \<and> law_ZRange qc view \<and>
     law_ZRangeByScore qc view \<and> law_Scan qc view"

lemma queue_lawsD:
  assumes "queue_laws qc view"
  shows "list_all exact_cmd cs \<Longrightarrow> qc_Exec qc cs r = (None, r') \<Longrightarrow> view r' = fold run_cmd cs (view r)"
    "db_hash (view r) k f = Some b \<Longrightarrow> qc_HGet qc k f r = Val b"
    "db_hash (view r) k f = None \<Longrightarrow> qc_HGet qc k f r \<noteq> Val b'"
    "db_hash (view r) k = Map.empty \<Longrightarrow> qc_ZRange qc k 0 stop r = Val (z_slice stop (map snd (db_zset (view r) k)))"
    "db_hash (view r) k = Map.empty \<Longrightarrow> qc_ZRevRange qc k 0 stop r = Val (z_slice stop (rev (map snd (db_zset (view r) k))))"
    "db_hash (view r) k = Map.empty \<Longrightarrow> qc_ZCard qc k r = Val (int (length (db_zset (view r) k)))"
    "db_hash (view r) k = Map.empty \<Longrightarrow> exact_score n \<Longrightarrow> qc_ZRangeByScore qc k ''-inf'' (Itoa n) r = Val (map snd (filter (\<lambda>z. fst z \<le> n) (db_zset (view r) k)))"
proof -
  have h: "case db_hash (view r) k f of Some b \<Rightarrow> qc_HGet qc k f r = Val b | None \<Rightarrow> \<forall>b. qc_HGet qc k f r \<noteq> Val b"
    using assms unfolding queue_laws_def law_HGet_def by blast
  from h show "db_hash (view r) k f = Some b \<Longrightarrow> qc_HGet qc k f r = Val b" by simp
  from h show "db_hash (view r) k f = None \<Longrightarrow> qc_HGet qc k f r \<noteq> Val b'" by simp
qed (use assms in \<open>simp_all add: queue_laws_def law_Exec_def law_ZRange_def law_ZRangeByScore_def\<close>)

lemma queue_laws_Pop:
  assumes "queue_laws qc view" "db_zset (view r) k = zs @ [z]"
  obtains r' where "qc_BZPopMax qc t k r = (Val (VString (snd z)), r')" "view r' = (view r)\<lparr>db_zset := (db_zset (view r))(k := zs)\<rparr>"
proof -
  have "db_zset (view r) k \<noteq> []" using assms(2) by simp
  then show thesis using assms that unfolding queue_laws_def law_Pop_def by (metis butlast_snoc last_snoc)
qed

lemma queue_laws_Scan:
  assumes "queue_laws qc view" "glob_free p"
  obtains ps where "scan_pages qc (p @ ''*'') r 0 ps"
    "\<And>k f b. db_hash (view r) k f = Some b \<Longrightarrow> k \<in> set (concat (map fst ps)) \<longleftrightarrow> HasPrefix k p"
proof -
  have "\<exists>ps. scan_pages qc (p @ ''*'') r 0 ps \<and> (\<forall>k f. db_hash (view r) k f \<noteq> None \<longrightarrow> (k \<in> set (concat (map fst ps)) \<longleftrightarrow> HasPrefix k p))"
    using assms unfolding queue_laws_def law_Scan_def by blast
  then obtain ps where "scan_pages qc (p @ ''*'') r 0 ps"
    "\<And>k f. db_hash (view r) k f \<noteq> None \<Longrightarrow> (k \<in> set (concat (map fst ps)) \<longleftrightarrow> HasPrefix k p)" by blast
  then show thesis by (intro that) auto
qed

text \<open>The keys of a queue never collide, and no call changes the queue's names.\<close>

lemma rq_keys [simp]:
  "rq_jobKey rq i = rq_jobKey rq i' \<longleftrightarrow> i = i'" "rq_jobKey rq i \<noteq> rq_pendingKey rq" "rq_jobKey rq i \<noteq> rq_scheduledKey rq"
  "rq_pendingKey rq \<noteq> rq_jobKey rq i" "rq_scheduledKey rq \<noteq> rq_jobKey rq i"
  "rq_pendingKey rq \<noteq> rq_scheduledKey rq" "rq_scheduledKey rq \<noteq> rq_pendingKey rq"
  by (simp_all add: rq_jobKey_def rq_pendingKey_def rq_scheduledKey_def)

lemma rq_keys_frame [simp]:
  "rq_jobKey (rq\<lparr>rq_server := r\<rparr>) i = rq_jobKey rq i" "rq_pendingKey (rq\<lparr>rq_server := r\<rparr>) = rq_pendingKey rq"
  "rq_scheduledKey (rq\<lparr>rq_server := r\<rparr>) = rq_scheduledKey rq" "rq_pattern (rq\<lparr>rq_server := r\<rparr>) = rq_pattern rq"
  by (simp_all add: rq_jobKey_def rq_pendingKey_def rq_scheduledKey_def rq_pattern_def)

section \<open>What the operations do\<close>

text \<open>The queue's state on the server: the two sorted sets and the job stored for an ID.\<close>

definition rq_pending :: "('r \<Rightarrow> rdb) \<Rightarrow> 'r RedisQueue \<Rightarrow> (int \<times> string) list" where
  "rq_pending view rq = db_zset (view (rq_server rq)) (rq_pendingKey rq)"

definition rq_scheduled :: "('r \<Rightarrow> rdb) \<Rightarrow> 'r RedisQueue \<Rightarrow> (int \<times> string) list" where
  "rq_scheduled view rq = db_zset (view (rq_server rq)) (rq_scheduledKey rq)"

definition rq_stored :: "('r \<Rightarrow> rdb) \<Rightarrow> JobCodec \<Rightarrow> 'r RedisQueue \<Rightarrow> string \<Rightarrow> Job option" where
  "rq_stored view json rq i =
     (case db_hash (view (rq_server rq)) (rq_jobKey rq i) ''data'' of
        None \<Rightarrow> None | Some b \<Rightarrow> (case unmarshal_job json b of Inl e \<Rightarrow> None | Inr j \<Rightarrow> Some j))"

lemmas rq_state_defs = rq_pending_def rq_scheduled_def rq_stored_def

text \<open>
  A job that survives its encoding exactly and whose scores are exact. The encoding leaves an empty map of metadata out,
  so a job of the builder is storable once it has metadata, or has nil for the empty map that \<open>NewJob\<close> makes.
\<close>

definition storable :: "JobCodec \<Rightarrow> Job \<Rightarrow> bool" where
  "storable json j \<longleftrightarrow> exact_score (j_Priority j) \<and> exact_score (unix_sec (j_ScheduleAt j)) \<and> (case marshal_job json j of Inl e \<Rightarrow> False | Inr b \<Rightarrow> unmarshal_job json b = Inr j)"

lemma storableE:
  assumes "storable json j"
  obtains b where "marshal_job json j = Inr b" "unmarshal_job json b = Inr j" "exact_score (j_Priority j)" "exact_score (unix_sec (j_ScheduleAt j))"
  using assms by (auto simp: storable_def split: sum.splits)

lemma rq_GetJob_iff:
  assumes "queue_laws qc view" "\<not> rq_closed rq"
  shows "rq_GetJob qc json i rq = Inr j \<longleftrightarrow> rq_stored view json rq i = Some j"
proof (cases "db_hash (view (rq_server rq)) (rq_jobKey rq i) ''data''")
  case None
  then show ?thesis using queue_lawsD(3) [OF assms(1) None] assms(2)
    by (auto simp: rq_GetJob_def rq_stored_def split: reply.splits)
next
  case (Some b)
  then show ?thesis using queue_lawsD(2) [OF assms(1) Some] assms(2)
    by (auto simp: rq_GetJob_def rq_stored_def split: sum.splits)
qed

lemma rq_exec_ok:
  assumes "queue_laws qc view" "list_all exact_cmd cs" "rq_exec qc cs rq = (None, rq')"
  obtains r' where "rq' = rq\<lparr>rq_server := r'\<rparr>" "view r' = fold run_cmd cs (view (rq_server rq))"
  using assms(3) queue_lawsD(1) [OF assms(1,2)] by (auto simp: rq_exec_def split: prod.splits)

lemma rq_UpdateJob_effect:
  assumes laws: "queue_laws qc view" and upd: "rq_UpdateJob qc json j rq = (None, rq')" and c: "storable json j"
  shows "rq_pending view rq' = (if j_Status j = StatusPending then z_add (j_Priority j) (j_ID j) (rq_pending view rq)
      else z_rem (j_ID j) (rq_pending view rq))"
    "rq_scheduled view rq' = (if j_Status j = StatusScheduled \<or> j_Status j = StatusRetrying
      then z_add (unix_sec (j_ScheduleAt j)) (j_ID j) (rq_scheduled view rq) else z_rem (j_ID j) (rq_scheduled view rq))"
    "rq_stored view json rq' = (rq_stored view json rq)(j_ID j \<mapsto> j)"
    "\<exists>r. rq' = rq\<lparr>rq_server := r\<rparr>"
proof -
  from c obtain b where b: "marshal_job json j = Inr b" "unmarshal_job json b = Inr j" "exact_score (j_Priority j)" "exact_score (unix_sec (j_ScheduleAt j))"
    by (rule storableE)
  have "rq_exec qc (update_cmds rq j b) rq = (None, rq')"
    using upd b by (auto simp: rq_UpdateJob_def split: if_splits)
  then obtain r' where r: "rq' = rq\<lparr>rq_server := r'\<rparr>" "view r' = fold run_cmd (update_cmds rq j b) (view (rq_server rq))"
    by (rule rq_exec_ok [OF laws, rotated]) (use b in \<open>auto simp: update_cmds_def split: Status.split\<close>)
  have z: "z_add s m (z_rem m zs) = z_add s m zs" for s m zs by (simp add: z_add_def z_rem_def)
  show "\<exists>r. rq' = rq\<lparr>rq_server := r\<rparr>" using r by blast
  show "rq_pending view rq' = (if j_Status j = StatusPending then z_add (j_Priority j) (j_ID j) (rq_pending view rq)
      else z_rem (j_ID j) (rq_pending view rq))"
    by (cases "j_Status j") (simp_all add: r rq_state_defs update_cmds_def z)
  show "rq_scheduled view rq' = (if j_Status j = StatusScheduled \<or> j_Status j = StatusRetrying
      then z_add (unix_sec (j_ScheduleAt j)) (j_ID j) (rq_scheduled view rq) else z_rem (j_ID j) (rq_scheduled view rq))"
    by (cases "j_Status j") (simp_all add: r rq_state_defs update_cmds_def z)
  show "rq_stored view json rq' = (rq_stored view json rq)(j_ID j \<mapsto> j)"
    by (rule ext, cases "j_Status j") (simp_all add: r rq_state_defs update_cmds_def b)
qed

lemma rq_Enqueue_effect:
  assumes laws: "queue_laws qc view" and enq: "rq_Enqueue qc json now j rq = (None, rq')" and c: "storable json j"
  shows "rq_pending view rq' = (if IsScheduled now j then rq_pending view rq else z_add (j_Priority j) (j_ID j) (rq_pending view rq))"
    "rq_scheduled view rq' = (if IsScheduled now j then z_add (unix_sec (j_ScheduleAt j)) (j_ID j) (rq_scheduled view rq) else rq_scheduled view rq)"
    "rq_stored view json rq' = (rq_stored view json rq)(j_ID j \<mapsto> j)"
    "\<exists>r. rq' = rq\<lparr>rq_server := r\<rparr>" "\<not> rq_closed rq"
proof -
  from c obtain b where b: "marshal_job json j = Inr b" "unmarshal_job json b = Inr j" "exact_score (j_Priority j)" "exact_score (unix_sec (j_ScheduleAt j))"
    by (rule storableE)
  have "rq_exec qc ([HSet (rq_jobKey rq (j_ID j)) ''data'' b] @
       (if IsScheduled now j then [ZAdd (rq_scheduledKey rq) (unix_sec (j_ScheduleAt j)) (j_ID j)] else []) @
       (if \<not> IsScheduled now j then [ZAdd (rq_pendingKey rq) (j_Priority j) (j_ID j)] else [])) rq = (None, rq')"
    using enq b by (auto simp: rq_Enqueue_def split: if_splits)
  then obtain r' where r: "rq' = rq\<lparr>rq_server := r'\<rparr>" "view r' = fold run_cmd ([HSet (rq_jobKey rq (j_ID j)) ''data'' b] @
       (if IsScheduled now j then [ZAdd (rq_scheduledKey rq) (unix_sec (j_ScheduleAt j)) (j_ID j)] else []) @
       (if \<not> IsScheduled now j then [ZAdd (rq_pendingKey rq) (j_Priority j) (j_ID j)] else [])) (view (rq_server rq))"
    by (rule rq_exec_ok [OF laws, rotated]) (use b in auto)
  show "\<exists>r. rq' = rq\<lparr>rq_server := r\<rparr>" using r by blast
  show "\<not> rq_closed rq" using enq by (auto simp: rq_Enqueue_def)
  show "rq_stored view json rq' = (rq_stored view json rq)(j_ID j \<mapsto> j)" by (rule ext) (simp add: r rq_state_defs b)
  show "rq_pending view rq' = (if IsScheduled now j then rq_pending view rq else z_add (j_Priority j) (j_ID j) (rq_pending view rq))"
    by (simp add: r rq_state_defs)
  show "rq_scheduled view rq' = (if IsScheduled now j then z_add (unix_sec (j_ScheduleAt j)) (j_ID j) (rq_scheduled view rq) else rq_scheduled view rq)"
    by (simp add: r rq_state_defs)
qed

text \<open>\<open>Dequeue\<close> on a non-empty set of pending jobs: the last by priority and ID, whose data stays stored.\<close>

lemma rq_Dequeue_effect:
  assumes laws: "queue_laws qc view" and op: "\<not> rq_closed rq" and p: "rq_pending view rq = zs @ [(s, i)]"
    and st: "rq_stored view json rq i = Some j"
  obtains rq' where "rq_Dequeue qc json t rq = (Inr j, rq')" "rq_pending view rq' = zs" "rq_scheduled view rq' = rq_scheduled view rq"
    "rq_stored view json rq' = rq_stored view json rq" "\<not> rq_closed rq'"
proof -
  obtain r' where pop: "qc_BZPopMax qc t (rq_pendingKey rq) (rq_server rq) = (Val (VString i), r')"
    and v: "view r' = (view (rq_server rq))\<lparr>db_zset := (db_zset (view (rq_server rq)))(rq_pendingKey rq := zs)\<rparr>"
    using queue_laws_Pop [OF laws p [unfolded rq_pending_def], of t] by auto
  from st obtain b where b: "db_hash (view (rq_server rq)) (rq_jobKey rq i) ''data'' = Some b" "unmarshal_job json b = Inr j"
    by (auto simp: rq_stored_def split: option.splits sum.splits)
  from b have "db_hash (view r') (rq_jobKey rq i) ''data'' = Some b" by (simp add: v)
  from queue_lawsD(2) [OF laws this] have "rq_Dequeue qc json t rq = (Inr j, rq\<lparr>rq_server := r'\<rparr>)"
    using op pop b by (simp add: rq_Dequeue_def Let_def)
  then show thesis by (rule that) (use op in \<open>simp_all add: rq_state_defs v fun_eq_iff\<close>)
qed

section \<open>Order\<close>

fun rq_enqueue_all :: "'r QueueClient \<Rightarrow> JobCodec \<Rightarrow> time \<Rightarrow> Job list \<Rightarrow> 'r RedisQueue \<Rightarrow> qerr option \<times> 'r RedisQueue" where
  "rq_enqueue_all qc json now [] rq = (None, rq)"
| "rq_enqueue_all qc json now (j # js) rq =
     (case rq_Enqueue qc json now j rq of (Some e, rq) \<Rightarrow> (Some e, rq) | (None, rq) \<Rightarrow> rq_enqueue_all qc json now js rq)"

fun rq_dequeue_n :: "'r QueueClient \<Rightarrow> JobCodec \<Rightarrow> duration \<Rightarrow> nat \<Rightarrow> 'r RedisQueue \<Rightarrow> (qerr + Job) list" where
  "rq_dequeue_n qc json t 0 rq = []"
| "rq_dequeue_n qc json t (Suc n) rq = (case rq_Dequeue qc json t rq of (res, rq) \<Rightarrow> res # rq_dequeue_n qc json t n rq)"

lemma rq_dequeue_n_pending:
  assumes "queue_laws qc view" "\<not> rq_closed rq" "rq_pending view rq = zs" "\<forall>z \<in> set zs. rq_stored view json rq (snd z) = Some (job (snd z))"
  shows "rq_dequeue_n qc json t (length zs) rq = map (\<lambda>z. Inr (job (snd z))) (rev zs)"
  using assms(2-)
proof (induction zs arbitrary: rq rule: rev_induct)
  case (snoc z zs)
  obtain s i where z: "z = (s, i)" by (cases z)
  have "rq_pending view rq = zs @ [(s, i)]" "rq_stored view json rq i = Some (job i)" using snoc.prems z by simp_all
  from rq_Dequeue_effect [OF assms(1) snoc.prems(1) this, of t] obtain rq' where
    "rq_Dequeue qc json t rq = (Inr (job i), rq')" "rq_pending view rq' = zs" "rq_stored view json rq' = rq_stored view json rq" "\<not> rq_closed rq'"
    by metis
  then show ?case using snoc.IH [of rq'] snoc.prems(3) z by simp
qed simp

lemma rq_enqueue_all_effect:
  assumes laws: "queue_laws qc view"
  shows "rq_enqueue_all qc json now js rq = (None, rq1) \<Longrightarrow> \<forall>j \<in> set js. storable json j \<and> \<not> IsScheduled now j \<Longrightarrow> distinct (map j_ID js) \<Longrightarrow>
    sorted (rq_pending view rq) \<Longrightarrow> \<forall>j \<in> set js. j_ID j \<notin> snd ` set (rq_pending view rq) \<Longrightarrow> \<not> rq_closed rq \<Longrightarrow>
    sorted (rq_pending view rq1) \<and> mset (rq_pending view rq1) = mset (rq_pending view rq) + mset (map (\<lambda>j. (j_Priority j, j_ID j)) js) \<and>
    rq_stored view json rq1 = rq_stored view json rq ++ map_of (rev (map (\<lambda>j. (j_ID j, j)) js)) \<and> \<not> rq_closed rq1"
proof (induction js arbitrary: rq)
  case (Cons j js)
  obtain rq2 where e: "rq_Enqueue qc json now j rq = (None, rq2)" "rq_enqueue_all qc json now js rq2 = (None, rq1)"
    using Cons.prems(1) by (auto split: prod.splits option.splits)
  have c: "storable json j" "\<not> IsScheduled now j" using Cons.prems(2) by simp_all
  note eff = rq_Enqueue_effect [OF laws e(1) c(1)]
  have "z_rem (j_ID j) (rq_pending view rq) = rq_pending view rq"
    using Cons.prems(5) by (force simp: z_rem_def filter_id_conv)
  then have p: "rq_pending view rq2 = insort (j_Priority j, j_ID j) (rq_pending view rq)" using eff(1) c(2) by (simp add: z_add_def)
  have op: "\<not> rq_closed rq2" using eff(4,5) by auto
  have fresh: "\<forall>j' \<in> set js. j_ID j' \<notin> snd ` set (rq_pending view rq2)"
    using Cons.prems(3,5) by (auto simp: p set_insort_key) (metis imageI)
  have "sorted (rq_pending view rq2)" using Cons.prems(4) by (simp add: p sorted_insort)
  from Cons.IH [OF e(2) _ _ this fresh op] Cons.prems(2,3) show ?case
    by (simp add: p eff(3) fun_eq_iff map_add_def split: option.split)
qed simp

text \<open>
  C29: Jobs that are due, enqueued in any order, are dequeued exactly once each, by falling priority and among
  equal priorities by falling ID, whatever the order of their creation.
\<close>

theorem redis_queue_drains_sorted:
  assumes laws: "queue_laws qc view" and empty: "rq_pending view rq = []" and op: "\<not> rq_closed rq"
    and js: "\<forall>j \<in> set js. storable json j \<and> \<not> IsScheduled now j" "distinct (map j_ID js)"
    and enq: "rq_enqueue_all qc json now js rq = (None, rq1)"
  shows "rq_dequeue_n qc json t (length js) rq1 = map Inr (rev (sort_key (\<lambda>j. (j_Priority j, j_ID j)) js))"
proof -
  let ?f = "\<lambda>j. (j_Priority j, j_ID j)" and ?job = "\<lambda>i. the (map_of (map (\<lambda>j. (j_ID j, j)) js) i)"
  have eff: "sorted (rq_pending view rq1)" "mset (rq_pending view rq1) = mset (map ?f js)"
    "rq_stored view json rq1 = rq_stored view json rq ++ map_of (rev (map (\<lambda>j. (j_ID j, j)) js))" "\<not> rq_closed rq1"
    using rq_enqueue_all_effect [OF laws enq js] empty op by simp_all
  have job: "map_of (rev (map (\<lambda>j. (j_ID j, j)) js)) (j_ID j) = Some j" "map_of (map (\<lambda>j. (j_ID j, j)) js) (j_ID j) = Some j"
    if "j \<in> set js" for j using js(2) that by (auto simp: map_of_eq_Some_iff comp_def rev_map [symmetric])
  have "sort (map ?f js) = rq_pending view rq1" "sort (map ?f js) = map ?f (sort_key ?f js)"
    using eff(1,2) by (auto intro: properties_for_sort)
  then have p: "rq_pending view rq1 = map ?f (sort_key ?f js)" by simp
  have "rq_dequeue_n qc json t (length (rq_pending view rq1)) rq1 = map (\<lambda>z. Inr (?job (snd z))) (rev (rq_pending view rq1))"
    by (rule rq_dequeue_n_pending [OF laws eff(4) refl]) (auto simp: p eff(3) job map_add_Some_iff)
  then show ?thesis by (simp add: p rev_map [symmetric] job)
qed

section \<open>Scheduled jobs\<close>

abbreviation pend :: "Job \<Rightarrow> Job" where
  "pend j \<equiv> j\<lparr>j_Status := StatusPending, j_ScheduleAt := 0\<rparr>"

lemma update_cmds_frame [simp]: "update_cmds (rq\<lparr>rq_server := r\<rparr>) j b = update_cmds rq j b"
  by (cases "j_Status j") (simp_all add: update_cmds_def)

lemma set_z_add: "set (z_add s m zs) = insert (s, m) {z \<in> set zs. snd z \<noteq> m}"
  by (auto simp: z_add_def z_rem_def set_insort_key)

lemma rq_UpdateJob_succeeds:
  assumes "\<And>j b r. fst (qc_Exec qc (update_cmds rq j b) r) = None" "\<not> rq_closed rq" "storable json j"
  shows "rq_UpdateJob qc json j rq = (None, snd (rq_UpdateJob qc json j rq))"
proof -
  from assms(3) obtain b where "marshal_job json j = Inr b" by (rule storableE)
  then show ?thesis using assms(1) [of j b "rq_server rq"] assms(2)
    by (auto simp: rq_UpdateJob_def rq_exec_def split: prod.splits)
qed

lemma move_jobs_effect:
  assumes laws: "queue_laws qc view" and up: "\<And>j b r. fst (qc_Exec qc (update_cmds rq0 j b) r) = None"
  shows "\<not> rq_closed rq \<Longrightarrow> rq = rq0\<lparr>rq_server := r\<rparr> \<Longrightarrow> distinct ids \<Longrightarrow>
    \<forall>i \<in> set ids. rq_stored view json rq i = Some (job i) \<and> j_ID (job i) = i \<and> storable json (pend (job i)) \<Longrightarrow>
    rq_scheduled view (fold (move_job qc json) ids rq) = filter (\<lambda>z. snd z \<notin> set ids) (rq_scheduled view rq) \<and>
    set (rq_pending view (fold (move_job qc json) ids rq)) =
      {z \<in> set (rq_pending view rq). snd z \<notin> set ids} \<union> (\<lambda>i. (j_Priority (job i), i)) ` set ids \<and>
    rq_stored view json (fold (move_job qc json) ids rq) = (\<lambda>i. if i \<in> set ids then Some (pend (job i)) else rq_stored view json rq i)"
proof (induction ids arbitrary: rq r)
  case (Cons i ids)
  have j: "rq_stored view json rq i = Some (job i)" "j_ID (job i) = i" "storable json (pend (job i))" using Cons.prems(4) by simp_all
  define rq2 where "rq2 = move_job qc json i rq"
  have "rq_GetJob qc json i rq = Inr (job i)" using rq_GetJob_iff [OF laws Cons.prems(1)] j(1) by simp
  then have m: "rq2 = snd (rq_UpdateJob qc json (pend (job i)) rq)" by (simp add: rq2_def move_job_def)
  have "rq_UpdateJob qc json (pend (job i)) rq = (None, rq2)"
    unfolding m by (rule rq_UpdateJob_succeeds) (use up Cons.prems(1,2) j(3) in simp_all)
  note eff = rq_UpdateJob_effect [OF laws this j(3)]
  obtain r2 where "rq2 = rq0\<lparr>rq_server := r2\<rparr>" "\<not> rq_closed rq2" using eff(4) Cons.prems(1,2) by auto
  from Cons.IH [OF this(2,1)] Cons.prems(3,4) eff(3) j(2)
  have IH: "rq_scheduled view (fold (move_job qc json) ids rq2) = filter (\<lambda>z. snd z \<notin> set ids) (rq_scheduled view rq2)"
    "set (rq_pending view (fold (move_job qc json) ids rq2)) =
      {z \<in> set (rq_pending view rq2). snd z \<notin> set ids} \<union> (\<lambda>i. (j_Priority (job i), i)) ` set ids"
    "rq_stored view json (fold (move_job qc json) ids rq2) = (\<lambda>i. if i \<in> set ids then Some (pend (job i)) else rq_stored view json rq2 i)"
    by auto
  have "fold (move_job qc json) (i # ids) rq = fold (move_job qc json) ids rq2" by (simp add: rq2_def)
  then show ?case
    using IH eff(1-3) j(2) Cons.prems(3) by (auto simp: z_rem_def set_z_add fun_eq_iff intro: filter_cong)
qed simp

text \<open>
  C31: When the server answers, \<open>MoveScheduledToPending\<close> moves exactly the scheduled jobs whose time has come
  to the pending set, with their priority and marked as pending, and leaves every other job where it was.
\<close>

theorem redis_move_scheduled:
  assumes laws: "queue_laws qc view" and op: "\<not> rq_closed rq" and key: "db_hash (view (rq_server rq)) (rq_scheduledKey rq) = Map.empty"
    and up: "\<And>j b r. fst (qc_Exec qc (update_cmds rq j b) r) = None"
    and now: "exact_score (unix_sec now)" and dist: "distinct (map snd (rq_scheduled view rq))" and due: "due = {i. \<exists>s. (s, i) \<in> set (rq_scheduled view rq) \<and> s \<le> unix_sec now}"
    and st: "\<And>i. i \<in> due \<Longrightarrow> rq_stored view json rq i = Some (job i) \<and> j_ID (job i) = i \<and> storable json (pend (job i))"
  shows "\<exists>rq'. rq_MoveScheduledToPending qc json now rq = (None, rq') \<and>
    rq_scheduled view rq' = filter (\<lambda>z. unix_sec now < fst z) (rq_scheduled view rq) \<and>
    set (rq_pending view rq') = {z \<in> set (rq_pending view rq). snd z \<notin> due} \<union> (\<lambda>i. (j_Priority (job i), i)) ` due \<and>
    (\<forall>i. rq_stored view json rq' i = (if i \<in> due then Some (pend (job i)) else rq_stored view json rq i))"
proof -
  let ?ids = "map snd (filter (\<lambda>z. fst z \<le> unix_sec now) (rq_scheduled view rq))"
  have ids: "set ?ids = due" by (force simp: due)
  have "distinct ?ids" using dist by (simp add: distinct_map inj_on_def)
  note eff = move_jobs_effect [OF laws up op _ this, where r = "rq_server rq" and json = json and job = job, unfolded ids]
  have "qc_ZRangeByScore qc (rq_scheduledKey rq) ''-inf'' (Itoa (unix_sec now)) (rq_server rq) = Val ?ids"
    using queue_lawsD(7) [OF laws key now] by (simp add: rq_scheduled_def)
  then have run: "rq_MoveScheduledToPending qc json now rq = (None, fold (move_job qc json) ?ids rq)"
    using op by (simp add: rq_MoveScheduledToPending_def)
  have "i \<in> due \<longleftrightarrow> s \<le> unix_sec now" if "(s, i) \<in> set (rq_scheduled view rq)" for s i
    using that dist by (auto simp: due distinct_map inj_on_def) (metis fst_conv snd_conv)
  then have "filter (\<lambda>z. snd z \<notin> due) (rq_scheduled view rq) = filter (\<lambda>z. unix_sec now < fst z) (rq_scheduled view rq)"
    by (intro filter_cong) auto
  with eff st run show ?thesis by (intro exI [of _ "fold (move_job qc json) ?ids rq"]) simp
qed

section \<open>Scanning\<close>

text \<open>A full iteration makes the loop of \<open>GetStats\<close> return after its last page, with all pages counted.\<close>

lemma rq_stat_scan_pages:
  "scan_pages qc pat r c ps \<Longrightarrow> rq_stat_scan qc json pat r c s = Some (Inr (fold (stat_key qc json r) (concat (map fst ps)) s))"
proof (induction qc pat r c ps arbitrary: s rule: scan_pages.induct)
  case (2 qc pat r c page)
  then show ?case by (subst rq_stat_scan.simps) simp
next
  case (3 qc pat r c page p ps)
  then show ?case by (subst rq_stat_scan.simps) simp
qed simp

definition key_job :: "'r QueueClient \<Rightarrow> JobCodec \<Rightarrow> 'r \<Rightarrow> string \<Rightarrow> Job option" where
  "key_job qc json r k =
     (case qc_HGet qc k ''data'' r of
        Val data \<Rightarrow> (case unmarshal_job json data of Inl e \<Rightarrow> None | Inr j \<Rightarrow> Some j) | _ \<Rightarrow> None)"

lemma stat_key_job: "stat_key qc json r k s = (case key_job qc json r k of None \<Rightarrow> s | Some j \<Rightarrow> rq_count_job j s)"
  by (simp add: stat_key_def key_job_def split: reply.split sum.split)

lemma key_job_stored:
  assumes "queue_laws qc view"
  shows "key_job qc json (rq_server rq) (rq_jobKey rq i) = rq_stored view json rq i"
proof (cases "db_hash (view (rq_server rq)) (rq_jobKey rq i) ''data''")
  case None
  then show ?thesis using queue_lawsD(3) [OF assms None] by (auto simp: key_job_def rq_stored_def split: reply.splits)
next
  case (Some b)
  then show ?thesis using queue_lawsD(2) [OF assms Some] by (simp add: key_job_def rq_stored_def)
qed

definition with_status :: "(string \<Rightarrow> Job option) \<Rightarrow> Status \<Rightarrow> string \<Rightarrow> bool" where
  "with_status m st k \<longleftrightarrow> (case m k of None \<Rightarrow> False | Some j \<Rightarrow> j_Status j = st)"

lemma fold_stat_key:
  assumes m: "m = key_job qc json r"
  shows "qs_TotalJobs (fold (stat_key qc json r) ks s) = qs_TotalJobs s + int (length (filter (\<lambda>k. m k \<noteq> None) ks))"
    "qs_Running (fold (stat_key qc json r) ks s) = qs_Running s + int (length (filter (with_status m StatusRunning) ks))"
    "qs_Completed (fold (stat_key qc json r) ks s) = qs_Completed s + int (length (filter (with_status m StatusCompleted) ks))"
    "qs_Failed (fold (stat_key qc json r) ks s) = qs_Failed s + int (length (filter (with_status m StatusFailed) ks))"
    "qs_Pending (fold (stat_key qc json r) ks s) = qs_Pending s"
    "qs_Scheduled (fold (stat_key qc json r) ks s) = qs_Scheduled s"
    "qs_QueueSize (fold (stat_key qc json r) ks s) = qs_QueueSize s"
  unfolding m
  by (induction ks arbitrary: s)
    (auto simp: stat_key_job rq_count_job_def with_status_def Let_def split: option.splits Status.splits)

lemma card_length_filter: "distinct ks \<Longrightarrow> length (filter P ks) = card {k \<in> set ks. P k}"
  by (metis distinct_card distinct_filter set_filter)

text \<open>The keys that a full iteration finds hold exactly the stored jobs, one key per job.\<close>

lemma scanned_jobs:
  assumes laws: "queue_laws qc view"
    and ks: "\<And>k f b. db_hash (view (rq_server rq)) k f = Some b \<Longrightarrow> k \<in> set ks \<longleftrightarrow> HasPrefix k (rq_keyPrefix rq @ '':job:'')"
    and P: "\<And>k. P k \<Longrightarrow> key_job qc json (rq_server rq) k \<noteq> None"
  shows "{k \<in> set ks. P k} = rq_jobKey rq ` {i. P (rq_jobKey rq i)}"
proof -
  have "\<exists>b. db_hash (view (rq_server rq)) k ''data'' = Some b" if "P k" for k
    using P [OF that] queue_lawsD(3) [OF laws, of "rq_server rq" k "''data''"] by (fastforce simp: key_job_def split: reply.splits)
  then show ?thesis using ks by (fastforce simp: HasPrefix_iff rq_jobKey_def)
qed

text \<open>
  When the server answers, \<open>GetStats\<close> returns: the pending and scheduled counts are the sizes of the two
  sets, no stored job is missed, and if the iteration of the server yields no key twice, which \<open>SCAN\<close> does not
  promise, the total and the counts by status are exactly those of the stored jobs.
\<close>

theorem redis_stats:
  assumes laws: "queue_laws qc view" and op: "\<not> rq_closed rq" and glob: "glob_free (rq_keyPrefix rq)"
    and key: "db_hash (view (rq_server rq)) (rq_pendingKey rq) = Map.empty" "db_hash (view (rq_server rq)) (rq_scheduledKey rq) = Map.empty"
  shows "\<exists>s. rq_GetStats qc json rq = Some (Inr s) \<and>
    qs_Pending s = int (length (rq_pending view rq)) \<and> qs_Scheduled s = int (length (rq_scheduled view rq)) \<and>
    qs_QueueSize s = qs_Pending s + qs_Scheduled s \<and> int (card (dom (rq_stored view json rq))) \<le> qs_TotalJobs s \<and>
    ((\<forall>ps. scan_pages qc (rq_pattern rq) (rq_server rq) 0 ps \<longrightarrow> distinct (concat (map fst ps))) \<longrightarrow>
      qs_TotalJobs s = int (card (dom (rq_stored view json rq))) \<and>
      qs_Running s = int (card {i. with_status (rq_stored view json rq) StatusRunning i}) \<and>
      qs_Completed s = int (card {i. with_status (rq_stored view json rq) StatusCompleted i}) \<and>
      qs_Failed s = int (card {i. with_status (rq_stored view json rq) StatusFailed i}))"
proof -
  let ?r = "rq_server rq" and ?p = "rq_keyPrefix rq @ '':job:''"
  have "glob_free ?p" using glob by (auto simp: glob_free_def)
  from queue_laws_Scan [OF laws this, of ?r] obtain ps where ps: "scan_pages qc (?p @ ''*'') ?r 0 ps"
    and all: "\<And>k f b. db_hash (view ?r) k f = Some b \<Longrightarrow> k \<in> set (concat (map fst ps)) \<longleftrightarrow> HasPrefix k ?p" by metis
  define ks where "ks = concat (map fst ps)"
  have pat: "rq_pattern rq = ?p @ ''*''" by (simp add: rq_pattern_def)
  define s where "s = fold (stat_key qc json ?r) ks
    (QStats_zero\<lparr>qs_Pending := int (length (rq_pending view rq)), qs_Scheduled := int (length (rq_scheduled view rq)),
      qs_QueueSize := int (length (rq_pending view rq)) + int (length (rq_scheduled view rq))\<rparr>)"
  have run: "rq_GetStats qc json rq = Some (Inr s)"
    using op rq_stat_scan_pages [OF ps] queue_lawsD(6) [OF laws key(1)] queue_lawsD(6) [OF laws key(2)]
    by (simp add: rq_GetStats_def pat s_def ks_def rq_pending_def rq_scheduled_def)
  note jobs = scanned_jobs [OF laws all, folded ks_def]
  have inj: "card (rq_jobKey rq ` A) = card A" for A by (simp add: card_image inj_on_def)
  have dom: "card (dom (rq_stored view json rq)) = card {k \<in> set ks. key_job qc json ?r k \<noteq> None}"
    by (subst jobs) (simp_all add: inj key_job_stored [OF laws] dom_def)
  have st: "card {i. with_status (rq_stored view json rq) x i} = card {k \<in> set ks. with_status (key_job qc json ?r) x k}" for x
  proof -
    have "{k \<in> set ks. with_status (key_job qc json ?r) x k} = rq_jobKey rq ` {i. with_status (rq_stored view json rq) x i}"
      by (subst jobs) (auto simp: key_job_stored [OF laws] with_status_def split: option.splits)
    then show ?thesis by (simp add: inj)
  qed
  have zero: "qs_TotalJobs QStats_zero = 0" "qs_Running QStats_zero = 0" "qs_Completed QStats_zero = 0" "qs_Failed QStats_zero = 0"
    by (simp_all add: QStats_zero_def)
  have "card {k \<in> set ks. key_job qc json ?r k \<noteq> None} \<le> length (filter (\<lambda>k. key_job qc json ?r k \<noteq> None) ks)"
    by (metis card_length set_filter)
  moreover have "distinct ks" if "\<forall>ps. scan_pages qc (rq_pattern rq) ?r 0 ps \<longrightarrow> distinct (concat (map fst ps))"
    using that ps by (simp add: pat ks_def)
  ultimately show ?thesis
    by (intro exI [of _ s]) (simp add: run s_def fold_stat_key [OF refl] zero dom st card_length_filter)
qed

section \<open>Deletion and failures\<close>

lemma redis_delete:
  assumes laws: "queue_laws qc view" and del: "rq_DeleteJob qc i rq = (None, rq')"
  shows "rq_stored view json rq' = (rq_stored view json rq)(i := None)"
    "rq_pending view rq' = z_rem i (rq_pending view rq)" "rq_scheduled view rq' = z_rem i (rq_scheduled view rq)"
proof -
  have "rq_exec qc [DelKey (rq_jobKey rq i), ZRem (rq_pendingKey rq) i, ZRem (rq_scheduledKey rq) i] rq = (None, rq')"
    using del by (auto simp: rq_DeleteJob_def split: if_splits)
  then obtain r' where r: "rq' = rq\<lparr>rq_server := r'\<rparr>"
      "view r' = fold run_cmd [DelKey (rq_jobKey rq i), ZRem (rq_pendingKey rq) i, ZRem (rq_scheduledKey rq) i] (view (rq_server rq))"
    by (rule rq_exec_ok [OF laws, rotated]) auto
  show "rq_stored view json rq' = (rq_stored view json rq)(i := None)" by (rule ext) (simp add: r rq_state_defs)
  show "rq_pending view rq' = z_rem i (rq_pending view rq)" "rq_scheduled view rq' = z_rem i (rq_scheduled view rq)"
    by (simp_all add: r rq_state_defs)
qed

text \<open>\<open>Dequeue\<close> pops the ID before it reads the job: when the read fails the job is in neither set any more.\<close>

lemma redis_dequeue_failure_loses_job:
  assumes laws: "queue_laws qc view" and op: "\<not> rq_closed rq" and p: "rq_pending view rq = zs @ [(s, i)]"
    and fail: "\<And>r. qc_HGet qc (rq_jobKey rq i) ''data'' r = RErr e"
  shows "\<exists>rq'. rq_Dequeue qc json t rq = (Inl (rwrap e), rq') \<and> rq_pending view rq' = zs \<and> rq_scheduled view rq' = rq_scheduled view rq"
proof -
  obtain r' where pop: "qc_BZPopMax qc t (rq_pendingKey rq) (rq_server rq) = (Val (VString i), r')"
    and v: "view r' = (view (rq_server rq))\<lparr>db_zset := (db_zset (view (rq_server rq)))(rq_pendingKey rq := zs)\<rparr>"
    using queue_laws_Pop [OF laws p [unfolded rq_pending_def], of t] by auto
  then show ?thesis using op fail by (simp add: rq_Dequeue_def Let_def rq_state_defs)
qed

text \<open>A retrying job is filed by \<open>ScheduleAt\<close>, which is zero, so it counts as due whatever \<open>RetryAt\<close> says.\<close>

lemma redis_retrying_job_due_at_once:
  assumes "queue_laws qc view" "rq_UpdateJob qc json j rq = (None, rq')" "storable json j" "j_Status j = StatusRetrying" "j_ScheduleAt j = 0" "0 \<le> now"
  shows "\<exists>s. (s, j_ID j) \<in> set (rq_scheduled view rq') \<and> s \<le> unix_sec now"
proof -
  have "unix_sec 0 \<le> unix_sec now" using assms(6) by (simp add: unix_sec_def pos_imp_zdiv_nonneg_iff)
  then show ?thesis using rq_UpdateJob_effect(2) [OF assms(1-3)] assms(4,5) by (auto simp: set_z_add)
qed

text \<open>A limit of 0 means all pending jobs, but no jobs of the statuses that are scanned for.\<close>

lemma redis_limit_zero:
  assumes laws: "queue_laws qc view" and key: "db_hash (view (rq_server rq)) (rq_pendingKey rq) = Map.empty"
  shows "qc_ZRevRange qc (rq_pendingKey rq) 0 (wrap64 (0 - 1)) (rq_server rq) = Val (rev (map snd (rq_pending view rq)))"
    "qc_Scan qc 0 (rq_pattern rq) 100 (rq_server rq) = Val page \<Longrightarrow> rq_scanJobsByStatus qc json status 0 rq = Some (Inr [])"
proof -
  have "wrap64 (0 - 1) = - 1" by (simp add: wrap64_def)
  then show "qc_ZRevRange qc (rq_pendingKey rq) 0 (wrap64 (0 - 1)) (rq_server rq) = Val (rev (map snd (rq_pending view rq)))"
    using queue_lawsD(5) [OF laws key] by (simp add: z_slice_def rq_pending_def)
  assume "qc_Scan qc 0 (rq_pattern rq) 100 (rq_server rq) = Val page"
  moreover have "scan_keys qc json status 0 r 0 ks = ([], 0)" for r ks by (cases ks) simp_all
  ultimately show "rq_scanJobsByStatus qc json status 0 rq = Some (Inr [])"
    unfolding rq_scanJobsByStatus_def by (subst rq_scan.simps) simp
qed

section \<open>Witnesses\<close>

text \<open>A server that is a list of hash fields and a table of sorted sets, and a code for some jobs.\<close>

type_synonym qstore = "((string \<times> string) \<times> bytes) list \<times> (string \<Rightarrow> (int \<times> string) list)"

definition qs_view :: "qstore \<Rightarrow> rdb" where
  "qs_view r = \<lparr>db_hash = (\<lambda>k f. map_of (fst r) (k, f)), db_zset = snd r\<rparr>"

fun qs_run :: "cmd \<Rightarrow> qstore \<Rightarrow> qstore" where
  "qs_run (HSet k f b) (h, z) = (((k, f), b) # h, z)"
| "qs_run (ZAdd k s m) (h, z) = (h, z(k := z_add s m (z k)))"
| "qs_run (ZRem k m) (h, z) = (h, z(k := z_rem m (z k)))"
| "qs_run (DelKey k) (h, z) = (filter (\<lambda>((k', f), b). k' \<noteq> k) h, z(k := []))"

definition qs_client :: "qstore QueueClient" where
  "qs_client = \<lparr>qc_Exec = (\<lambda>cs r. (None, fold qs_run cs r)),
     qc_BZPopMax = (\<lambda>t k r. if snd r k = [] then (RNil, r)
       else (Val (VString (snd (last (snd r k)))), (fst r, (snd r)(k := butlast (snd r k))))),
     qc_HGet = (\<lambda>k f r. case map_of (fst r) (k, f) of None \<Rightarrow> RNil | Some b \<Rightarrow> Val b),
     qc_ZRange = (\<lambda>k a stop r. Val (z_slice stop (map snd (snd r k)))),
     qc_ZRevRange = (\<lambda>k a stop r. Val (z_slice stop (rev (map snd (snd r k))))),
     qc_ZRangeByScore = (\<lambda>k lo hi r. Val (map snd (filter (\<lambda>z. fst z \<le> the (Atoi hi)) (snd r k)))),
     qc_ZCard = (\<lambda>k r. Val (int (length (snd r k)))),
     qc_Scan = (\<lambda>c pat n r. Val (remdups (filter (\<lambda>k. HasPrefix k (butlast pat)) (map (fst \<circ> fst) (fst r))), 0))\<rparr>"

lemma qs_run_view: "qs_view (qs_run c r) = run_cmd c (qs_view r)"
proof -
  have del: "map_of (filter (\<lambda>((k', f), b). k' \<noteq> k) h) (k', f) = (if k' = k then None else map_of h (k', f))"
    for k k' f and h :: "((string \<times> string) \<times> bytes) list" by (induction h) auto
  show ?thesis by (cases c; cases r) (auto simp: qs_view_def fun_eq_iff del)
qed

lemma qs_laws: "queue_laws qs_client qs_view"
proof -
  have "qs_view (fold qs_run cs r) = fold run_cmd cs (qs_view r)" for cs r by (induction cs arbitrary: r) (simp_all add: qs_run_view)
  then have "law_Exec qs_client qs_view" by (simp add: law_Exec_def qs_client_def)
  moreover have "law_Pop qs_client qs_view" by (simp add: law_Pop_def qs_client_def qs_view_def)
  moreover have "law_HGet qs_client qs_view" by (simp add: law_HGet_def qs_client_def qs_view_def split: option.split)
  moreover have "law_ZRange qs_client qs_view" by (simp add: law_ZRange_def qs_client_def qs_view_def)
  moreover have "Atoi (Itoa n) = Some n" if "exact_score n" for n
    by (rule Atoi_Itoa) (use that in \<open>simp add: exact_score_def int64_range_def\<close>)
  then have "law_ZRangeByScore qs_client qs_view" by (simp add: law_ZRangeByScore_def qs_client_def qs_view_def)
  moreover have "law_Scan qs_client qs_view"
    unfolding law_Scan_def
  proof (intro allI impI)
    fix p and r :: qstore
    show "\<exists>ps. scan_pages qs_client (p @ ''*'') r 0 ps \<and>
      (\<forall>k f. db_hash (qs_view r) k f \<noteq> None \<longrightarrow> (k \<in> set (concat (map fst ps)) \<longleftrightarrow> HasPrefix k p))"
      by (intro exI [of _ "[(remdups (filter (\<lambda>k. HasPrefix k p) (map (fst \<circ> fst) (fst r))), 0)]"])
        (force simp: qs_client_def qs_view_def dest: map_of_SomeD)
  qed
  ultimately show ?thesis by (simp add: queue_laws_def)
qed

definition demo_codec :: JobCodec where
  "demo_codec = \<lparr>marshal_job = (\<lambda>j. Inr (digit_char (nat (j_Priority j)) # (if j_Status j = StatusScheduled then CHR ''S'' else CHR ''P'') # j_ID j)),
     unmarshal_job = (\<lambda>b. case b of
         p # st # i \<Rightarrow> Inr (Job_zero\<lparr>j_ID := i, j_Priority := (case digit_val p of None \<Rightarrow> 0 | Some n \<Rightarrow> int n),
           j_Status := (if st = CHR ''S'' then StatusScheduled else StatusPending), j_ScheduleAt := (if st = CHR ''S'' then 3 * second else 0)\<rparr>)
       | _ \<Rightarrow> Inl ''unexpected end of JSON input'')\<rparr>"

definition rq_demo_job :: "string \<Rightarrow> int \<Rightarrow> Job" where
  "rq_demo_job i p = Job_zero\<lparr>j_ID := i, j_Priority := p\<rparr>"

definition demo_rqueue :: "qstore RedisQueue" where
  "demo_rqueue = NewRedisQueue ([], \<lambda>k. []) ''q''"

lemma demo_storable: "0 \<le> p \<Longrightarrow> p < 10 \<Longrightarrow> storable demo_codec (rq_demo_job i p)"
  by (simp add: storable_def demo_codec_def rq_demo_job_def exact_score_def unix_sec_def Job_zero_def)

theorem redis_queue_drains_sorted_witness:
  "rq_dequeue_n qs_client demo_codec second 3
     (snd (rq_enqueue_all qs_client demo_codec 0 [rq_demo_job ''a'' 1, rq_demo_job ''c'' 2, rq_demo_job ''b'' 1] demo_rqueue)) =
   map Inr [rq_demo_job ''c'' 2, rq_demo_job ''b'' 1, rq_demo_job ''a'' 1]"
proof -
  let ?js = "[rq_demo_job ''a'' 1, rq_demo_job ''c'' 2, rq_demo_job ''b'' 1]"
  let ?rq1 = "snd (rq_enqueue_all qs_client demo_codec 0 ?js demo_rqueue)"
  have f: "j_ID (rq_demo_job i p) = i" "j_Priority (rq_demo_job i p) = p" "\<not> IsScheduled 0 (rq_demo_job i p)" for i p
    by (simp_all add: rq_demo_job_def IsScheduled_def Job_zero_def)
  have "rq_pending qs_view demo_rqueue = []" "\<not> rq_closed demo_rqueue"
    by (simp_all add: rq_pending_def demo_rqueue_def NewRedisQueue_def qs_view_def)
  moreover have "\<forall>j \<in> set ?js. storable demo_codec j \<and> \<not> IsScheduled 0 j" by (simp add: demo_storable f)
  moreover have "distinct (map j_ID ?js)" by (simp add: f)
  moreover have "rq_enqueue_all qs_client demo_codec 0 ?js demo_rqueue = (None, ?rq1)"
    by (simp add: rq_Enqueue_def rq_exec_def demo_rqueue_def NewRedisQueue_def demo_codec_def qs_client_def)
  ultimately show ?thesis
    using redis_queue_drains_sorted [OF qs_laws, of demo_rqueue ?js demo_codec 0 ?rq1 second]
    by (simp add: f eval_nat_numeral)
qed

text \<open>One scheduled job that is due and one that is not.\<close>

definition demo_scheduled :: "qstore RedisQueue" where
  "demo_scheduled = NewRedisQueue ([((''q:job:x'', ''data''), ''2Sx''), ((''q:job:y'', ''data''), ''1Py'')],
     (\<lambda>k. [])(''q:scheduled'' := [(unix_sec (3 * second), ''x''), (unix_sec (9 * second), ''y'')])) ''q''"

lemma demo_scheduled_facts:
  "\<not> rq_closed demo_scheduled" "rq_keyPrefix demo_scheduled = ''q''"
  "db_hash (qs_view (rq_server demo_scheduled)) (rq_pendingKey demo_scheduled) = Map.empty"
  "db_hash (qs_view (rq_server demo_scheduled)) (rq_scheduledKey demo_scheduled) = Map.empty"
  "rq_scheduled qs_view demo_scheduled = [(unix_sec (3 * second), ''x''), (unix_sec (9 * second), ''y'')]"
  "rq_pending qs_view demo_scheduled = []"
  "rq_stored qs_view demo_codec demo_scheduled ''x'' = Some ((rq_demo_job ''x'' 2)\<lparr>j_Status := StatusScheduled, j_ScheduleAt := 3 * second\<rparr>)"
  by (simp_all add: demo_scheduled_def NewRedisQueue_def qs_view_def rq_state_defs rq_jobKey_def rq_pendingKey_def rq_scheduledKey_def
      demo_codec_def rq_demo_job_def fun_eq_iff Job_zero_def digit_val_def)

theorem redis_move_scheduled_witness:
  "\<exists>rq'. rq_MoveScheduledToPending qs_client demo_codec (5 * second) demo_scheduled = (None, rq') \<and>
     rq_scheduled qs_view rq' = [(unix_sec (9 * second), ''y'')] \<and> set (rq_pending qs_view rq') = {(2, ''x'')}"
proof -
  let ?due = "{i. \<exists>s. (s, i) \<in> set (rq_scheduled qs_view demo_scheduled) \<and> s \<le> unix_sec (5 * second)}"
  let ?j = "(rq_demo_job ''x'' 2)\<lparr>j_Status := StatusScheduled, j_ScheduleAt := 3 * second\<rparr>"
  have due: "{''x''} = ?due" by (auto simp: demo_scheduled_facts unix_sec_def)
  have "storable demo_codec (pend ?j)"
    using demo_storable [of 2 "''x''"] by (simp add: rq_demo_job_def Job_zero_def)
  moreover have "fst (qc_Exec qs_client cs r) = None" for cs r by (simp add: qs_client_def)
  ultimately show ?thesis
    using redis_move_scheduled [OF qs_laws demo_scheduled_facts(1,4) _ _ _ due, of demo_codec "\<lambda>i. ?j"]
    by (auto simp: demo_scheduled_facts exact_score_def unix_sec_def rq_demo_job_def Job_zero_def)
qed

theorem redis_stats_witness:
  "\<exists>s. rq_GetStats qs_client demo_codec demo_scheduled = Some (Inr s) \<and> qs_Pending s = 0 \<and> qs_Scheduled s = 2 \<and> qs_QueueSize s = 2"
  using redis_stats [OF qs_laws demo_scheduled_facts(1), of demo_codec]
  by (fastforce simp: demo_scheduled_facts glob_free_def)

end
