(* ===== verification/AppError.thy ===== *)
theory AppError
  imports GoStrings
begin

text \<open>
  The error type of \<open>src/apperror/apperror.go\<close>. An error is a foreign error (its text) or an application
  error with its trace, its additional errors (possibly nil), its message and the address of its details
  map, because copies of an error share that map. What \<open>runtime.Caller\<close> reports for a call is an argument.
  Rendering an error is a partial function: \<open>None\<close> is the panic of calling \<open>Error\<close> on a nil error. The
  format variables have their initial values.
\<close>

section \<open>Errors\<close>

datatype err = Plain string | App (er_Trace: "string list") (er_Errors: "err option list") (er_Context: "nat option") (er_Message: string)

type_synonym details = "(string \<times> value) list"
type_synonym ctx_heap = "nat \<Rightarrow> details"

record AppErrorConfig =
  ac_Debug :: bool
  ac_WithDetails :: bool
  ac_show :: "value \<Rightarrow> string"

definition TraceDelimiter :: string where "TraceDelimiter = '' -> ''"
definition ErrorDelimiter :: string where "ErrorDelimiter = '' => ''"

definition ErrorFormat :: "string \<Rightarrow> string \<Rightarrow> string" where
  "ErrorFormat m es = m @ '' ['' @ es @ '']''"

definition ErrorTraceFormat :: "string \<Rightarrow> string \<Rightarrow> string" where
  "ErrorTraceFormat t m = t @ '' | '' @ m"

definition FullFormat :: "string \<Rightarrow> string \<Rightarrow> string \<Rightarrow> string" where
  "FullFormat a b c = a @ '' | '' @ b @ '' ['' @ c @ '']''"

definition FormatDetails :: "(value \<Rightarrow> string) \<Rightarrow> details \<Rightarrow> string" where
  "FormatDetails sh ds = Join (map (\<lambda>(k, v). k @ '': '' @ sh v) ds) '', ''"

text \<open>\<open>loc\<close>: the caller's function and line, \<open>None\<close> where \<open>runtime.Caller\<close> fails.\<close>

definition trace_from :: "string option \<Rightarrow> string list \<Rightarrow> string list" where
  "trace_from loc t = (case loc of None \<Rightarrow> t | Some l \<Rightarrow> t @ [l])"

definition NewError :: "string option \<Rightarrow> string \<Rightarrow> err" where
  "NewError loc msg = App (trace_from loc []) [] None msg"

text \<open>\<open>sprintf\<close> is \<open>fmt.Sprintf\<close>.\<close>

definition NewErrorf :: "(string \<Rightarrow> value list \<Rightarrow> string) \<Rightarrow> string option \<Rightarrow> string \<Rightarrow> value list \<Rightarrow> err" where
  "NewErrorf sprintf loc fmt a = App (trace_from loc []) [] None (sprintf fmt a)"

record Frame =
  fr_File :: string
  fr_Line :: int
  fr_Function :: string

text \<open>\<open>frames\<close> are the frames that \<open>runtime.Callers\<close> finds from a level on, at most 32 calls.\<close>

fun frame_lines :: "Frame list \<Rightarrow> string" where
  "frame_lines [] = []"
| "frame_lines (f # fs) = fr_File f @ '':'' @ Itoa (fr_Line f) @ '' ('' @ fr_Function f @ '')'' @ [CHR 0x0A] @ frame_lines fs"

definition Where :: "(int \<Rightarrow> Frame list) \<Rightarrow> int \<Rightarrow> string" where
  "Where frames level = (if frames level = [] then ''unknown'' else frame_lines (frames level))"

fun getErrors :: "err option \<Rightarrow> err option list" where
  "getErrors (Some (App t es c m)) = es"
| "getErrors _ = []"

fun AddError :: "err option \<Rightarrow> err \<Rightarrow> err" where
  "AddError x (App t es c m) = App t (es @ (if getErrors x \<noteq> [] then getErrors x else [x])) c m"
| "AddError x (Plain m) = Plain m"

fun AddErrors :: "err option list \<Rightarrow> err \<Rightarrow> err" where
  "AddErrors [] e = e"
| "AddErrors (x # xs) e = AddErrors xs (AddError x e)"

text \<open>The details map of \<open>e\<close>; \<open>fresh\<close> is the address \<open>make\<close> returns when there is none yet.\<close>

fun ctx_init :: "nat \<Rightarrow> ctx_heap \<Rightarrow> err \<Rightarrow> ctx_heap \<times> err" where
  "ctx_init fresh h (App t es None m) = (h(fresh := []), App t es (Some fresh) m)"
| "ctx_init fresh h e = (h, e)"

fun set_details :: "details \<Rightarrow> ctx_heap \<Rightarrow> err \<Rightarrow> ctx_heap" where
  "set_details kvs h (App t es (Some a) m) = h(a := fold (\<lambda>(k, v). AList.update k v) kvs (h a))"
| "set_details kvs h e = h"

definition AddDetail :: "nat \<Rightarrow> string \<Rightarrow> value \<Rightarrow> ctx_heap \<Rightarrow> err \<Rightarrow> ctx_heap \<times> err" where
  "AddDetail fresh k v h e = (let (h1, e1) = ctx_init fresh h e in (set_details [(k, v)] h1 e1, e1))"

definition AddDetails :: "nat \<Rightarrow> details \<Rightarrow> ctx_heap \<Rightarrow> err \<Rightarrow> ctx_heap \<times> err" where
  "AddDetails fresh kvs h e = (let (h1, e1) = ctx_init fresh h e in (set_details kvs h1 e1, e1))"

fun GetDetail :: "ctx_heap \<Rightarrow> string \<Rightarrow> err \<Rightarrow> value option" where
  "GetDetail h k (App t es (Some a) m) = map_of (h a) k"
| "GetDetail h k e = None"

fun GetContext :: "ctx_heap \<Rightarrow> err \<Rightarrow> details option" where
  "GetContext h (App t es (Some a) m) = Some (h a)"
| "GetContext h e = None"

section \<open>Rendering\<close>

definition details_text :: "AppErrorConfig \<Rightarrow> ctx_heap \<Rightarrow> nat option \<Rightarrow> string" where
  "details_text cfg h c =
     (case c of None \<Rightarrow> [] | Some a \<Rightarrow> if ac_WithDetails cfg then FormatDetails (ac_show cfg) (h a) else [])"

definition render_debug :: "string list \<Rightarrow> string \<Rightarrow> string \<Rightarrow> string \<Rightarrow> string" where
  "render_debug t m es ds =
     (let tr = Join (rev t) TraceDelimiter in
      if es = [] \<and> ds \<noteq> [] then tr @ '' | '' @ ds
      else if es \<noteq> [] \<and> ds = [] then FullFormat tr m es
      else if es \<noteq> [] \<and> ds \<noteq> [] then FullFormat tr m es @ ds
      else ErrorTraceFormat tr m)"

definition render_plain :: "string \<Rightarrow> string \<Rightarrow> string \<Rightarrow> string" where
  "render_plain m es ds =
     (if es = [] \<and> ds \<noteq> [] then m @ '' | '' @ ds
      else if es \<noteq> [] \<and> ds = [] then ErrorFormat m es
      else if es \<noteq> [] \<and> ds \<noteq> [] then FullFormat m es ds
      else m)"

definition sep_errors :: "string \<Rightarrow> string" where
  "sep_errors acc = (if acc \<noteq> [] then acc @ ErrorDelimiter else acc)"

fun err_Error :: "AppErrorConfig \<Rightarrow> ctx_heap \<Rightarrow> err \<Rightarrow> string option"
and join_errors :: "AppErrorConfig \<Rightarrow> ctx_heap \<Rightarrow> bool \<Rightarrow> string \<Rightarrow> err option list \<Rightarrow> string option" where
  "err_Error cfg h (Plain m) = Some m"
| "err_Error cfg h (App t es c m) =
     (if ac_Debug cfg \<and> t \<noteq> []
      then map_option (\<lambda>s. render_debug t m s (details_text cfg h c)) (join_errors cfg h True [] es)
      else map_option (\<lambda>s. render_plain m s (details_text cfg h c)) (join_errors cfg h False [] es))"
| "join_errors cfg h skip acc [] = Some acc"
| "join_errors cfg h skip acc (None # ds) = (if skip then join_errors cfg h skip (sep_errors acc) ds else None)"
| "join_errors cfg h skip acc (Some d # ds) =
     (case err_Error cfg h d of None \<Rightarrow> None | Some s \<Rightarrow> join_errors cfg h skip (sep_errors acc @ s) ds)"

fun err_Split :: "err \<Rightarrow> string \<times> string list \<times> err option list" where
  "err_Split (Plain m) = (m, [], [])"
| "err_Split (App t es c m) = (if m = [] \<and> t = [] \<and> es = [] then ([], [], []) else (m, t, es))"

text \<open>\<open>Wrap\<close> renders only foreign errors, which have a text.\<close>

fun Wrap :: "string option \<Rightarrow> err option \<Rightarrow> err option" where
  "Wrap loc None = None"
| "Wrap loc (Some (App t es c m)) = Some (App (trace_from loc t) es c m)"
| "Wrap loc (Some (Plain m)) = Some (NewError loc m)"

text \<open>\<open>loc\<close> is the caller of \<open>Parse\<close>, \<open>ploc\<close> the location in \<open>Parse\<close> itself, which \<open>NewError\<close> records.\<close>

definition Parse :: "string option \<Rightarrow> string option \<Rightarrow> string \<Rightarrow> err" where
  "Parse loc ploc str =
     (let parts = Split str TraceDelimiter in
      if length parts < 2 then NewError ploc str
      else
        (let t = butlast parts;
             es = (if length parts > 2 then map (\<lambda>s. Some (NewError ploc s)) (tl (butlast parts)) else [])
         in App (trace_from loc t) es None (last parts)))"

section \<open>Handlers\<close>

text \<open>What happens to an error: nothing, the package's \<open>ErrorHandler\<close> (which panics by default), or the caller's handler.\<close>

datatype handled = NotHandled | DefaultHandler err string | CustomHandler err string

definition Handle :: "bool \<Rightarrow> err option \<Rightarrow> string \<Rightarrow> handled" where
  "Handle has_default e msg =
     (case e of None \<Rightarrow> NotHandled | Some x \<Rightarrow> if has_default then DefaultHandler x msg else NotHandled)"

definition HandleCustom :: "bool \<Rightarrow> bool \<Rightarrow> err option \<Rightarrow> string \<Rightarrow> handled" where
  "HandleCustom has_default has_custom e msg =
     (case e of None \<Rightarrow> NotHandled
      | Some x \<Rightarrow> if has_custom then CustomHandler x msg else if has_default then DefaultHandler x msg else NotHandled)"

text \<open>\<open>f\<close> is the checked function, with its effect on the caller's state.\<close>

definition Catch :: "bool \<Rightarrow> ('s \<Rightarrow> err option \<times> 's) \<Rightarrow> string \<Rightarrow> 's \<Rightarrow> handled \<times> 's" where
  "Catch has_default f msg s =
     (if has_default then (let (e, s1) = f s in (case e of None \<Rightarrow> NotHandled | Some x \<Rightarrow> DefaultHandler x msg, s1))
      else (NotHandled, s))"

definition CatchCustom :: "bool \<Rightarrow> bool \<Rightarrow> ('s \<Rightarrow> err option \<times> 's) \<Rightarrow> string \<Rightarrow> 's \<Rightarrow> handled \<times> 's" where
  "CatchCustom has_default has_custom f msg s =
     (if has_custom then
        (let (e, s1) = f s in
         case e of Some x \<Rightarrow> (CustomHandler x msg, s1) | None \<Rightarrow> Catch has_default f msg s1)
      else Catch has_default f msg s)"

section \<open>Properties\<close>

fun has_nil :: "err \<Rightarrow> bool"
and has_nil_list :: "err option list \<Rightarrow> bool" where
  "has_nil (Plain m) = False"
| "has_nil (App t es c m) = has_nil_list es"
| "has_nil_list [] = False"
| "has_nil_list (None # ds) = True"
| "has_nil_list (Some d # ds) = (has_nil d \<or> has_nil_list ds)"

lemma err_Error_None_iff:
  "\<not> ac_Debug cfg \<Longrightarrow> err_Error cfg h e = None \<longleftrightarrow> has_nil e"
  "\<not> ac_Debug cfg \<Longrightarrow> \<not> skip \<Longrightarrow> join_errors cfg h skip acc ds = None \<longleftrightarrow> has_nil_list ds"
proof (induction cfg h e and cfg h skip acc ds rule: err_Error_join_errors.induct)
  case (5 cfg h skip acc d ds)
  then show ?case by (cases "err_Error cfg h d") auto
qed auto

lemma has_nil_list_append [simp]: "has_nil_list (xs @ ys) \<longleftrightarrow> has_nil_list xs \<or> has_nil_list ys"
proof (induction xs)
  case (Cons x xs)
  then show ?case by (cases x) auto
qed simp

fun nil_arg :: "err option \<Rightarrow> bool" where
  "nil_arg None = True"
| "nil_arg (Some e) = has_nil e"

lemma has_nil_AddError: "has_nil (AddError x (App t es c m)) \<longleftrightarrow> has_nil_list es \<or> nil_arg x"
proof (cases x)
  case (Some e)
  then show ?thesis by (cases e) auto
qed simp

lemma AddError_App: "AddError x (App t es c m) = App t (er_Errors (AddError x (App t es c m))) c m"
  by simp

lemma has_nil_AddErrors: "has_nil (AddErrors xs (App t es c m)) \<longleftrightarrow> has_nil_list es \<or> list_ex nil_arg xs"
proof (induction xs arbitrary: es)
  case (Cons x xs)
  then show ?case using has_nil_AddError [of x t es c m] by simp
qed simp

text \<open>
  C38: Outside debug mode, printing an error to which any errors were added panics exactly when one of
  them was nil (or is an error with a nil inside): \<open>AddError(nil)\<close> makes \<open>Error()\<close> panic.
\<close>

theorem error_text_panics_iff_nil_added:
  assumes "\<not> ac_Debug cfg"
  shows "err_Error cfg h (AddErrors xs (NewError loc msg)) = None \<longleftrightarrow> list_ex nil_arg xs"
  using err_Error_None_iff(1) [OF assms] by (simp add: NewError_def has_nil_AddErrors)

definition quiet :: AppErrorConfig where
  "quiet = \<lparr>ac_Debug = False, ac_WithDetails = False, ac_show = (\<lambda>v. [])\<rparr>"

theorem error_text_panics_iff_nil_added_witness:
  "err_Error quiet (\<lambda>_. []) (AddErrors [Some (Plain ''io''), None] (NewError None ''failed'')) = None
   \<and> err_Error quiet (\<lambda>_. []) (AddErrors [Some (Plain ''io'')] (NewError None ''failed'')) = Some ''failed [io]''"
proof -
  have "\<not> ac_Debug quiet" by (simp add: quiet_def)
  from error_text_panics_iff_nil_added [OF this, of "\<lambda>_. []" "[Some (Plain ''io''), None]" None "''failed''"]
  have "err_Error quiet (\<lambda>_. []) (AddErrors [Some (Plain ''io''), None] (NewError None ''failed'')) = None" by simp
  moreover have "err_Error quiet (\<lambda>_. []) (AddErrors [Some (Plain ''io'')] (NewError None ''failed'')) = Some ''failed [io]''"
    by code_simp
  ultimately show ?thesis ..
qed

text \<open>An added application error that has errors of its own loses its message.\<close>

lemma AddError_drops_message:
  "es \<noteq> [] \<Longrightarrow> AddError (Some (App t es c m)) e = AddError (Some (App t' es c' m')) e"
  by (cases e) auto

text \<open>The function is called a second time when it succeeds and both handlers are set.\<close>

lemma CatchCustom_runs_twice:
  "f s = (None, s1) \<Longrightarrow> CatchCustom True True f msg s = (let (e, s2) = f s1 in (case e of None \<Rightarrow> NotHandled | Some x \<Rightarrow> DefaultHandler x msg, s2))"
  by (simp add: CatchCustom_def Catch_def)

text \<open>Two errors that start from the same one share their details.\<close>

lemma AddDetail_shared:
  assumes "AddDetail f1 k v h (App t es (Some a) m) = (h1, e1)"
  shows "GetDetail h1 k (App t es (Some a) m) = Some v"
  using assms by (auto simp: AddDetail_def update_conv)

end
