(* ===== verification/RabbitQueue.thy ===== *)
theory RabbitQueue
  imports RedisQueue AppError "HOL-Library.Word"
begin

text \<open>
  The RabbitMQ queue (\<open>src/queue/rabbitmq.go\<close>). The AMQP client is a record of the calls the queue makes on
  the state of the connection and the broker; \<open>broker_laws\<close> states what RabbitMQ documents of publishing,
  getting and acknowledging. The queue keeps the jobs it has seen by reference, as \<open>MemoryQueue\<close> does. An
  error of a closing call is passed to \<open>apperror.Handle\<close>, whose default handler panics: \<open>None\<close>.
\<close>

section \<open>The client\<close>

record Publishing =
  pb_Headers :: "string \<rightharpoonup> value"
  pb_ContentType :: string
  pb_ContentEncoding :: string
  pb_Body :: bytes
  pb_Persistent :: bool
  pb_Priority :: "8 word"
  pb_Timestamp :: time

record Delivery =
  dl_Body :: bytes
  dl_DeliveryTag :: nat

record 'b Amqp =
  am_Dial :: "string \<Rightarrow> 'b \<Rightarrow> string option \<times> 'b"
  am_Channel :: "'b \<Rightarrow> string option \<times> 'b"
  am_ExchangeDeclare :: "string \<Rightarrow> string \<Rightarrow> bool \<Rightarrow> bool \<Rightarrow> bool \<Rightarrow> bool \<Rightarrow> 'b \<Rightarrow> string option \<times> 'b"
  am_QueueDeclare :: "string \<Rightarrow> bool \<Rightarrow> bool \<Rightarrow> bool \<Rightarrow> bool \<Rightarrow> (string \<rightharpoonup> value) \<Rightarrow> 'b \<Rightarrow> string option \<times> 'b"
  am_QueueBind :: "string \<Rightarrow> string \<Rightarrow> string \<Rightarrow> bool \<Rightarrow> 'b \<Rightarrow> string option \<times> 'b"
  am_Publish :: "string \<Rightarrow> string \<Rightarrow> Publishing \<Rightarrow> 'b \<Rightarrow> string option \<times> 'b"
  am_Get :: "string \<Rightarrow> 'b \<Rightarrow> (string + Delivery option) \<times> 'b"
  am_Ack :: "nat \<Rightarrow> 'b \<Rightarrow> string option \<times> 'b"
  am_Nack :: "nat \<Rightarrow> bool \<Rightarrow> 'b \<Rightarrow> string option \<times> 'b"
  am_QueueMessages :: "string \<Rightarrow> 'b \<Rightarrow> string + int"
  am_QueuePurge :: "string \<Rightarrow> 'b \<Rightarrow> string option \<times> 'b"
  am_ChannelClose :: "'b \<Rightarrow> string option \<times> 'b"
  am_ConnClose :: "'b \<Rightarrow> string option \<times> 'b"
  am_IsClosed :: "'b \<Rightarrow> bool"

section \<open>Construction\<close>

record RabbitMQConfig =
  rm_URL :: string
  rm_QueueName :: string
  rm_ExchangeName :: string
  rm_RoutingKey :: string
  rm_Durable :: bool
  rm_AutoDelete :: bool
  rm_Exclusive :: bool
  rm_NoWait :: bool
  rm_MaxPriority :: int

text \<open>\<open>rb_conn\<close> and \<open>rb_channel\<close> say that the pointers are not nil.\<close>

record RabbitMQ =
  rb_conn :: bool
  rb_channel :: bool
  rb_queueName :: string
  rb_exchangeName :: string
  rb_routingKey :: string
  rb_jobs :: "string \<rightharpoonup> ref"
  rb_closed :: bool

definition handle_close :: "string \<Rightarrow> string option \<times> 'b \<Rightarrow> 'b option" where
  "handle_close msg res =
     (case Handle True (map_option Plain (fst res)) msg of NotHandled \<Rightarrow> Some (snd res) | _ \<Rightarrow> None)"

definition close_both :: "'b Amqp \<Rightarrow> 'b \<Rightarrow> 'b option" where
  "close_both am b =
     Option.bind (handle_close ''failed to close channel'' (am_ChannelClose am b))
       (\<lambda>b. handle_close ''failed to close connection'' (am_ConnClose am b))"

text \<open>A declaration: on an error both are closed and the error is returned, otherwise \<open>k\<close> goes on.\<close>

definition setup_step ::
    "'b Amqp \<Rightarrow> string option \<times> 'b \<Rightarrow> ('b \<Rightarrow> ((qerr + 'a) \<times> 'b) option) \<Rightarrow> ((qerr + 'a) \<times> 'b) option" where
  "setup_step am res k =
     (case res of
        (None, b) \<Rightarrow> k b
      | (Some e, b) \<Rightarrow> map_option (\<lambda>b. (Inl (rwrap e), b)) (close_both am b))"

definition connect :: "'b Amqp \<Rightarrow> string \<Rightarrow> ('b \<Rightarrow> ((qerr + 'a) \<times> 'b) option) \<Rightarrow> 'b \<Rightarrow> ((qerr + 'a) \<times> 'b) option" where
  "connect am url k b =
     (case am_Dial am url b of
        (Some e, b) \<Rightarrow> Some (Inl (rwrap e), b)
      | (None, b) \<Rightarrow>
          (case am_Channel am b of
             (Some e, b) \<Rightarrow> map_option (\<lambda>b. (Inl (rwrap e), b)) (handle_close ''failed to close connection'' (am_ConnClose am b))
           | (None, b) \<Rightarrow> k b))"

definition NewRabbitMQ :: "'b Amqp \<Rightarrow> RabbitMQConfig \<Rightarrow> 'b \<Rightarrow> ((qerr + RabbitMQ) \<times> 'b) option" where
  "NewRabbitMQ am cfg b =
     (if TrimSpace (rm_URL cfg) = [] then Some (Inl (QErr ''RabbitMQ URL is required''), b)
      else if TrimSpace (rm_QueueName cfg) = [] then Some (Inl (QErr ''Queue name is required''), b)
      else if TrimSpace (rm_ExchangeName cfg) = [] then Some (Inl (QErr ''Exchange name is required''), b)
      else if TrimSpace (rm_RoutingKey cfg) = [] then Some (Inl (QErr ''Routing key is required''), b)
      else
        let cfg = (if rm_MaxPriority cfg = 0 then cfg\<lparr>rm_MaxPriority := 10\<rparr> else cfg);
            args = (if rm_MaxPriority cfg > 0 then [''x-max-priority'' \<mapsto> VInt (rm_MaxPriority cfg)] else Map.empty);
            delayed = [''x-message-ttl'' \<mapsto> VInt 0, ''x-dead-letter-exchange'' \<mapsto> VString (rm_ExchangeName cfg),
                       ''x-dead-letter-routing-key'' \<mapsto> VString (rm_RoutingKey cfg)];
            declare_queue = (\<lambda>name args. am_QueueDeclare am name (rm_Durable cfg) (rm_AutoDelete cfg) (rm_Exclusive cfg) (rm_NoWait cfg) args)
        in connect am (rm_URL cfg)
             (\<lambda>b. setup_step am (am_ExchangeDeclare am (rm_ExchangeName cfg) ''direct'' (rm_Durable cfg) (rm_AutoDelete cfg) (rm_Exclusive cfg) (rm_NoWait cfg) b)
             (\<lambda>b. setup_step am (declare_queue (rm_QueueName cfg) args b)
             (\<lambda>b. setup_step am (am_QueueBind am (rm_QueueName cfg) (rm_RoutingKey cfg) (rm_ExchangeName cfg) (rm_NoWait cfg) b)
             (\<lambda>b. setup_step am (declare_queue (rm_QueueName cfg @ ''_delayed'') delayed b)
             (\<lambda>b. Some (Inr \<lparr>rb_conn = True, rb_channel = True, rb_queueName = rm_QueueName cfg, rb_exchangeName = rm_ExchangeName cfg,
                              rb_routingKey = rm_RoutingKey cfg, rb_jobs = Map.empty, rb_closed = False\<rparr>, b)))))) b)"

definition NewRabbitMQFromURL :: "'b Amqp \<Rightarrow> string \<Rightarrow> 'b \<Rightarrow> ((qerr + RabbitMQ) \<times> 'b) option" where
  "NewRabbitMQFromURL am url b =
     NewRabbitMQ am \<lparr>rm_URL = url, rm_QueueName = ''jobs'', rm_ExchangeName = ''jobs_exchange'', rm_RoutingKey = ''jobs'',
       rm_Durable = True, rm_AutoDelete = False, rm_Exclusive = False, rm_NoWait = False, rm_MaxPriority = 0\<rparr> b"

section \<open>Operations\<close>

fun status_number :: "Status \<Rightarrow> int" where
  "status_number StatusPending = 0"
| "status_number StatusRunning = 1"
| "status_number StatusCompleted = 2"
| "status_number StatusFailed = 3"
| "status_number StatusRetrying = 4"
| "status_number StatusScheduled = 5"
| "status_number StatusDeadLetter = 6"
| "status_number (Status_other n) = n"

definition int32 :: "int \<Rightarrow> int" where
  "int32 n = sint (word_of_int n :: 32 word)"

definition job_headers :: "Job \<Rightarrow> string \<rightharpoonup> value" where
  "job_headers j k =
     (if HasPrefix k ''meta_''
      then map_option VString (Option.bind (j_Metadata j) (\<lambda>m. m (TrimPrefix k ''meta_'')))
      else [''job_id'' \<mapsto> VString (j_ID j), ''job_type'' \<mapsto> VString (j_Type j), ''priority'' \<mapsto> VInt (int32 (j_Priority j)),
            ''max_attempts'' \<mapsto> VInt (int32 (j_MaxAttempts j)), ''attempts'' \<mapsto> VInt (int32 (j_Attempts j)),
            ''status'' \<mapsto> VInt (int32 (status_number (j_Status j)))] k)"

definition job_message :: "time \<Rightarrow> Job \<Rightarrow> bytes \<Rightarrow> Publishing" where
  "job_message now j data = \<lparr>pb_Headers = job_headers j, pb_ContentType = ''application/json'', pb_ContentEncoding = [], pb_Body = data,
     pb_Persistent = True, pb_Priority = word_of_int (j_Priority j), pb_Timestamp = now\<rparr>"

definition rb_scheduleJob :: "'b Amqp \<Rightarrow> Publishing \<Rightarrow> RabbitMQ \<Rightarrow> 'b \<Rightarrow> string option \<times> 'b" where
  "rb_scheduleJob am msg rq b = am_Publish am (rb_exchangeName rq) (rb_routingKey rq) msg b"

definition rb_Enqueue ::
    "'b Amqp \<Rightarrow> JobCodec \<Rightarrow> time \<Rightarrow> store \<Rightarrow> ref \<Rightarrow> RabbitMQ \<Rightarrow> 'b \<Rightarrow> qerr option \<times> RabbitMQ \<times> 'b" where
  "rb_Enqueue am json now st r rq b =
     (if rb_closed rq then (Some queue_closed, rq, b)
      else
        let j = st r; rq = rq\<lparr>rb_jobs := (rb_jobs rq)(j_ID j \<mapsto> r)\<rparr>
        in case marshal_job json j of
             Inl e \<Rightarrow> (Some (rwrap e), rq, b)
           | Inr data \<Rightarrow>
               (let msg = job_message now j data;
                    (e, b) = (if IsScheduled now j then rb_scheduleJob am msg rq b
                              else am_Publish am (rb_exchangeName rq) (rb_routingKey rq) msg b)
                in (map_option QErr e, rq, b)))"

definition ErrNoJobAvailable :: qerr where
  "ErrNoJobAvailable = QErr ''no job available''"

text \<open>
  \<open>done\<close>: the select takes the expired context rather than the second attempt. \<open>fresh\<close> is the reference of
  the job that \<open>Dequeue\<close> allocates.
\<close>

definition rb_receive ::
    "'b Amqp \<Rightarrow> JobCodec \<Rightarrow> time \<Rightarrow> ref \<Rightarrow> Delivery \<Rightarrow> store \<Rightarrow> RabbitMQ \<Rightarrow> 'b \<Rightarrow> ((qerr + ref) \<times> store \<times> RabbitMQ \<times> 'b) option" where
  "rb_receive am json now fresh msg st rq b =
     (case unmarshal_job json (dl_Body msg) of
        Inl e \<Rightarrow> map_option (\<lambda>b. (Inl (rwrap e), st, rq, b)) (handle_close ''failed to nack message'' (am_Nack am (dl_DeliveryTag msg) False b))
      | Inr j \<Rightarrow>
          let meta = (case j_Metadata j of None \<Rightarrow> Map.empty | Some m \<Rightarrow> m);
              j = j\<lparr>j_Status := StatusRunning, j_UpdatedAt := now,
                    j_Metadata := Some (meta(''delivery_tag'' \<mapsto> itoa_nat (dl_DeliveryTag msg)))\<rparr>
          in Some (Inr fresh, st(fresh := j), rq\<lparr>rb_jobs := (rb_jobs rq)(j_ID j \<mapsto> fresh)\<rparr>, b))"

definition rb_Dequeue ::
    "'b Amqp \<Rightarrow> JobCodec \<Rightarrow> time \<Rightarrow> bool \<Rightarrow> ref \<Rightarrow> store \<Rightarrow> RabbitMQ \<Rightarrow> 'b \<Rightarrow> ((qerr + ref) \<times> store \<times> RabbitMQ \<times> 'b) option" where
  "rb_Dequeue am json now done fresh st rq b =
     (if rb_closed rq then Some (Inl queue_closed, st, rq, b)
      else case am_Get am (rb_queueName rq) b of
             (Inl e, b) \<Rightarrow> Some (Inl (rwrap e), st, rq, b)
           | (Inr (Some msg), b) \<Rightarrow> rb_receive am json now fresh msg st rq b
           | (Inr None, b) \<Rightarrow>
               if done then Some (Inl ErrNoJobAvailable, st, rq, b)
               else (case am_Get am (rb_queueName rq) b of
                       (Inl e, b) \<Rightarrow> Some (Inl (rwrap e), st, rq, b)
                     | (Inr None, b) \<Rightarrow> Some (Inl ErrNoJobAvailable, st, rq, b)
                     | (Inr (Some msg), b) \<Rightarrow> rb_receive am json now fresh msg st rq b))"

definition rb_Schedule ::
    "'b Amqp \<Rightarrow> JobCodec \<Rightarrow> time \<Rightarrow> store \<Rightarrow> ref \<Rightarrow> RabbitMQ \<Rightarrow> 'b \<Rightarrow> qerr option \<times> store \<times> RabbitMQ \<times> 'b" where
  "rb_Schedule am json now st r rq b =
     (let st = st(r := (st r)\<lparr>j_Status := StatusScheduled\<rparr>); (e, rq, b) = rb_Enqueue am json now st r rq b in (e, st, rq, b))"

text \<open>\<open>strconv.ParseUint(s, 10, 64)\<close>: digits only.\<close>

definition ParseUint64 :: "string \<Rightarrow> nat option" where
  "ParseUint64 s =
     (if s = [] then None
      else case digits_val 0 s of None \<Rightarrow> None | Some n \<Rightarrow> if n < 2 ^ 64 then Some (nat n) else None)"

definition settle :: "'b Amqp \<Rightarrow> Job \<Rightarrow> nat \<Rightarrow> 'b \<Rightarrow> string option \<times> 'b" where
  "settle am j tag b =
     (case j_Status j of
        StatusCompleted \<Rightarrow> am_Ack am tag b
      | StatusFailed \<Rightarrow> if j_Attempts j \<ge> j_MaxAttempts j then am_Ack am tag b else am_Nack am tag True b
      | StatusRetrying \<Rightarrow> am_Nack am tag True b
      | _ \<Rightarrow> (None, b))"

definition rb_UpdateJob :: "'b Amqp \<Rightarrow> store \<Rightarrow> ref \<Rightarrow> RabbitMQ \<Rightarrow> 'b \<Rightarrow> qerr option \<times> RabbitMQ \<times> 'b" where
  "rb_UpdateJob am st r rq b =
     (if rb_closed rq then (Some queue_closed, rq, b)
      else
        let j = st r; rq = rq\<lparr>rb_jobs := (rb_jobs rq)(j_ID j \<mapsto> r)\<rparr>
        in case Option.bind (j_Metadata j) (\<lambda>m. Option.bind (m ''delivery_tag'') ParseUint64) of
             None \<Rightarrow> (None, rq, b)
           | Some tag \<Rightarrow> (let (e, b) = settle am j tag b in (map_option QErr e, rq, b)))"

definition rb_GetJob :: "string \<Rightarrow> RabbitMQ \<Rightarrow> qerr + ref" where
  "rb_GetJob i rq =
     (if rb_closed rq then Inl queue_closed
      else case rb_jobs rq i of None \<Rightarrow> Inl (QErr ''job not found'') | Some r \<Rightarrow> Inr r)"

text \<open>\<open>keys\<close> is the order of the iteration over the map of jobs.\<close>

definition rb_GetJobs :: "string list \<Rightarrow> store \<Rightarrow> Status \<Rightarrow> int \<Rightarrow> RabbitMQ \<Rightarrow> qerr + ref list" where
  "rb_GetJobs keys st status limit rq =
     (if rb_closed rq then Inl queue_closed else Inr (collect_jobs st (rb_jobs rq) status limit 0 keys))"

definition rb_count_job :: "Job \<Rightarrow> QStats \<Rightarrow> QStats" where
  "rb_count_job j s =
     (let s = s\<lparr>qs_TotalJobs := qs_TotalJobs s + 1\<rparr> in
      case j_Status j of
        StatusPending \<Rightarrow> s\<lparr>qs_Pending := qs_Pending s + 1\<rparr>
      | StatusRunning \<Rightarrow> s\<lparr>qs_Running := qs_Running s + 1\<rparr>
      | StatusCompleted \<Rightarrow> s\<lparr>qs_Completed := qs_Completed s + 1\<rparr>
      | StatusFailed \<Rightarrow> s\<lparr>qs_Failed := qs_Failed s + 1\<rparr>
      | StatusRetrying \<Rightarrow> s\<lparr>qs_Retrying := qs_Retrying s + 1\<rparr>
      | StatusScheduled \<Rightarrow> s\<lparr>qs_Scheduled := qs_Scheduled s + 1\<rparr>
      | StatusDeadLetter \<Rightarrow> s\<lparr>qs_DeadLetter := qs_DeadLetter s + 1\<rparr>
      | Status_other _ \<Rightarrow> s)"

definition rb_GetStats :: "'b Amqp \<Rightarrow> string list \<Rightarrow> store \<Rightarrow> RabbitMQ \<Rightarrow> 'b \<Rightarrow> qerr + QStats" where
  "rb_GetStats am keys st rq b =
     (if rb_closed rq then Inl queue_closed
      else
        let s = fold (\<lambda>k s. case rb_jobs rq k of None \<Rightarrow> s | Some r \<Rightarrow> rb_count_job (st r) s) keys QStats_zero
        in case am_QueueMessages am (rb_queueName rq) b of
             Inl e \<Rightarrow> Inr s
           | Inr n \<Rightarrow> Inr (s\<lparr>qs_QueueSize := n\<rparr>))"

definition rb_DeleteJob :: "string \<Rightarrow> RabbitMQ \<Rightarrow> qerr option \<times> RabbitMQ" where
  "rb_DeleteJob i rq =
     (if rb_closed rq then (Some queue_closed, rq) else (None, rq\<lparr>rb_jobs := (rb_jobs rq)(i := None)\<rparr>))"

definition close_open :: "string \<Rightarrow> string \<Rightarrow> 'b Amqp \<Rightarrow> RabbitMQ \<Rightarrow> 'b \<Rightarrow> 'b option" where
  "close_open m1 m2 am rq b =
     Option.bind (if rb_channel rq then handle_close m1 (am_ChannelClose am b) else Some b)
       (\<lambda>b. if rb_conn rq then handle_close m2 (am_ConnClose am b) else Some b)"

definition rb_Close :: "'b Amqp \<Rightarrow> RabbitMQ \<Rightarrow> 'b \<Rightarrow> (RabbitMQ \<times> 'b) option" where
  "rb_Close am rq b =
     (if rb_closed rq then Some (rq, b)
      else let rq = rq\<lparr>rb_closed := True\<rparr>
           in map_option (Pair rq) (close_open ''failed to close channel'' ''failed to close connection'' am rq b))"

definition IsConnectionOpen :: "'b Amqp \<Rightarrow> RabbitMQ \<Rightarrow> 'b \<Rightarrow> bool" where
  "IsConnectionOpen am rq b \<longleftrightarrow> \<not> rb_closed rq \<and> rb_conn rq \<and> \<not> am_IsClosed am b"

definition rb_Reconnect :: "'b Amqp \<Rightarrow> RabbitMQConfig \<Rightarrow> RabbitMQ \<Rightarrow> 'b \<Rightarrow> ((qerr + RabbitMQ) \<times> 'b) option" where
  "rb_Reconnect am cfg rq b =
     Option.bind (close_open ''failed to close old channel'' ''failed to close old connection'' am rq b)
       (connect am (rm_URL cfg) (\<lambda>b. Some (Inr (rq\<lparr>rb_conn := True, rb_channel := True, rb_closed := False\<rparr>), b)))"

definition rb_PurgeQueue :: "'b Amqp \<Rightarrow> RabbitMQ \<Rightarrow> 'b \<Rightarrow> qerr option \<times> RabbitMQ \<times> 'b" where
  "rb_PurgeQueue am rq b =
     (if rb_closed rq then (Some queue_closed, rq, b)
      else case am_QueuePurge am (rb_queueName rq) b of
             (Some e, b) \<Rightarrow> (Some (rwrap e), rq, b)
           | (None, b) \<Rightarrow> (None, rq\<lparr>rb_jobs := Map.empty\<rparr>, b))"

section \<open>Setting up and closing\<close>

text \<open>What the client documents of closing: a connection that was closed is closed, and one that did not come up is not open.\<close>

definition close_laws :: "'b Amqp \<Rightarrow> bool" where
  "close_laws am \<longleftrightarrow>
     (\<forall>b b'. am_ConnClose am b = (None, b') \<longrightarrow> am_IsClosed am b') \<and>
     (\<forall>url b e b'. am_Dial am url b = (Some e, b') \<longrightarrow> am_IsClosed am b' = am_IsClosed am b)"

lemma handle_close_Some: "handle_close msg res = Some b \<longleftrightarrow> res = (None, b)"
  by (cases res; cases "fst res") (auto simp: handle_close_def Handle_def)

lemma handle_close_None: "handle_close msg res = None \<longleftrightarrow> fst res \<noteq> None"
  by (cases res; cases "fst res") (auto simp: handle_close_def Handle_def)

lemma close_both_closed: "close_laws am \<Longrightarrow> close_both am b = Some b' \<Longrightarrow> am_IsClosed am b'"
  by (auto simp: close_both_def bind_eq_Some_conv handle_close_Some close_laws_def)

lemma setup_step_error:
  assumes "close_laws am" "setup_step am res k = Some (Inl e, b')" "\<And>b. k b = Some (Inl e, b') \<Longrightarrow> am_IsClosed am b'"
  shows "am_IsClosed am b'"
  using assms by (auto simp: setup_step_def split: prod.splits option.splits dest: close_both_closed)

lemma connect_error:
  assumes "close_laws am" "connect am url k b = Some (Inl e, b')" "am_IsClosed am b" "\<And>b. k b = Some (Inl e, b') \<Longrightarrow> am_IsClosed am b'"
  shows "am_IsClosed am b'"
  using assms by (auto simp: connect_def close_laws_def handle_close_Some split: prod.splits option.splits)

text \<open>
  C35: \<open>NewRabbitMQ\<close> leaves no connection behind: whenever it returns an error, whichever of the steps failed,
  the connection is closed again; and a configuration that lacks a required name is refused without a call.
\<close>

theorem rabbit_failed_setup_closes:
  assumes laws: "close_laws am" and start: "am_IsClosed am b" and err: "NewRabbitMQ am cfg b = Some (Inl e, b')"
  shows "am_IsClosed am b' \<and>
    ((\<exists>f \<in> {rm_URL, rm_QueueName, rm_ExchangeName, rm_RoutingKey}. TrimSpace (f cfg) = []) \<longrightarrow> b' = b)"
proof -
  have "am_IsClosed am b'"
    using err start unfolding NewRabbitMQ_def Let_def
    by (auto split: if_splits elim!: connect_error [OF laws] setup_step_error [OF laws])
  moreover have "b' = b"
    if "\<exists>f \<in> {rm_URL, rm_QueueName, rm_ExchangeName, rm_RoutingKey}. TrimSpace (f cfg) = []"
    using that err by (auto simp: NewRabbitMQ_def split: if_splits)
  ultimately show ?thesis by blast
qed

text \<open>\<open>Close\<close> of a closed connection is an error for the client, and \<open>Reconnect\<close> closes first: it panics when it is needed.\<close>

lemma rabbit_reconnect_panics:
  assumes "rb_conn rq" "\<And>b. fst (am_ConnClose am b) \<noteq> None"
  shows "rb_Reconnect am cfg rq b = None"
  using assms by (auto simp: rb_Reconnect_def close_open_def bind_eq_None_conv handle_close_None split: if_splits)

section \<open>Deliveries\<close>

text \<open>
  What RabbitMQ documents of a queue that is bound to the exchange: published messages become ready, \<open>Get\<close>
  takes one and keeps it under the next delivery tag of the channel (a 64-bit counter) until it is acknowledged, and a negative acknowledgement
  with requeue makes the same message ready again.
\<close>

record broker =
  bk_ready :: "Publishing list"
  bk_unacked :: "nat \<rightharpoonup> Publishing"
  bk_tag :: nat

definition law_Publish :: "'b Amqp \<Rightarrow> RabbitMQ \<Rightarrow> ('b \<Rightarrow> broker) \<Rightarrow> bool" where
  "law_Publish am rq view \<longleftrightarrow> (\<forall>p b b'. am_Publish am (rb_exchangeName rq) (rb_routingKey rq) p b = (None, b') \<longrightarrow>
     mset (bk_ready (view b')) = add_mset p (mset (bk_ready (view b))) \<and> bk_unacked (view b') = bk_unacked (view b) \<and> bk_tag (view b') = bk_tag (view b))"

definition law_Get :: "'b Amqp \<Rightarrow> RabbitMQ \<Rightarrow> ('b \<Rightarrow> broker) \<Rightarrow> bool" where
  "law_Get am rq view \<longleftrightarrow> (\<forall>b m ms tag. bk_ready (view b) = m # ms \<longrightarrow> tag = Suc (bk_tag (view b)) \<longrightarrow> tag < 2 ^ 64 \<longrightarrow>
     (\<exists>b'. am_Get am (rb_queueName rq) b = (Inr (Some \<lparr>dl_Body = pb_Body m, dl_DeliveryTag = tag\<rparr>), b') \<and>
        bk_unacked (view b) tag = None \<and> view b' = \<lparr>bk_ready = ms, bk_unacked = (bk_unacked (view b))(tag \<mapsto> m), bk_tag = tag\<rparr>))"

definition law_Ack :: "'b Amqp \<Rightarrow> ('b \<Rightarrow> broker) \<Rightarrow> bool" where
  "law_Ack am view \<longleftrightarrow> (\<forall>b tag m. bk_unacked (view b) tag = Some m \<longrightarrow>
     (\<exists>b'. am_Ack am tag b = (None, b') \<and> view b' = (view b)\<lparr>bk_unacked := (bk_unacked (view b))(tag := None)\<rparr>))"

definition law_Nack :: "'b Amqp \<Rightarrow> ('b \<Rightarrow> broker) \<Rightarrow> bool" where
  "law_Nack am view \<longleftrightarrow> (\<forall>b tag m. bk_unacked (view b) tag = Some m \<longrightarrow>
     (\<exists>b'. am_Nack am tag True b = (None, b') \<and> bk_unacked (view b') = (bk_unacked (view b))(tag := None) \<and> bk_tag (view b') = bk_tag (view b) \<and>
        mset (bk_ready (view b')) = add_mset m (mset (bk_ready (view b)))))"

definition broker_laws :: "'b Amqp \<Rightarrow> RabbitMQ \<Rightarrow> ('b \<Rightarrow> broker) \<Rightarrow> bool" where
  "broker_laws am rq view \<longleftrightarrow> law_Publish am rq view \<and> law_Get am rq view \<and> law_Ack am view \<and> law_Nack am view"

lemma ParseUint64_itoa [simp]: "n < 2 ^ 64 \<Longrightarrow> ParseUint64 (itoa_nat n) = Some n"
  by (simp add: ParseUint64_def digits_val_itoa_nat)

text \<open>The job as \<open>Dequeue\<close> hands it out, and what the final status of a delivered job does to its message.\<close>

definition delivered :: "time \<Rightarrow> nat \<Rightarrow> Job \<Rightarrow> Job" where
  "delivered now tag j = j\<lparr>j_Status := StatusRunning, j_UpdatedAt := now,
     j_Metadata := Some ((case j_Metadata j of None \<Rightarrow> Map.empty | Some m \<Rightarrow> m)(''delivery_tag'' \<mapsto> itoa_nat tag))\<rparr>"

lemma rb_Dequeue_ready:
  assumes laws: "broker_laws am rq view" and op: "\<not> rb_closed rq" and names: "rb_queueName rq' = rb_queueName rq" "rb_closed rq' = rb_closed rq"
    and ready: "bk_ready (view b) = m # ms" and j: "unmarshal_job json (pb_Body m) = Inr j" and tag: "tag = Suc (bk_tag (view b))" "tag < 2 ^ 64"
  obtains b' where "rb_Dequeue am json now dn fresh st rq' b =
      Some (Inr fresh, st(fresh := delivered now tag j), rq'\<lparr>rb_jobs := (rb_jobs rq')(j_ID j \<mapsto> fresh)\<rparr>, b')"
    "bk_unacked (view b) tag = None" "view b' = \<lparr>bk_ready = ms, bk_unacked = (bk_unacked (view b))(tag \<mapsto> m), bk_tag = tag\<rparr>"
proof -
  have "law_Get am rq view" using laws by (simp add: broker_laws_def)
  then obtain b' where g: "am_Get am (rb_queueName rq) b = (Inr (Some \<lparr>dl_Body = pb_Body m, dl_DeliveryTag = tag\<rparr>), b')"
    "bk_unacked (view b) tag = None" "view b' = \<lparr>bk_ready = ms, bk_unacked = (bk_unacked (view b))(tag \<mapsto> m), bk_tag = tag\<rparr>"
    using ready tag unfolding law_Get_def by blast
  then show thesis using op names j by (intro that [of b']) (simp_all add: rb_Dequeue_def rb_receive_def Let_def delivered_def)
qed

lemma rb_UpdateJob_delivered:
  assumes "\<not> rb_closed rq" "j_Metadata (st3 r) = j_Metadata (delivered t tag j)" "tag < 2 ^ 64"
  shows "rb_UpdateJob am st3 r rq b =
    (case settle am (st3 r) tag b of (e, b') \<Rightarrow> (map_option QErr e, rq\<lparr>rb_jobs := (rb_jobs rq)(j_ID (st3 r) \<mapsto> r)\<rparr>, b'))"
  using assms by (simp add: rb_UpdateJob_def delivered_def Let_def split: prod.split)

lemma rb_complete_delivered:
  assumes laws: "broker_laws am rq0 view" and op: "\<not> rb_closed rq" "tag < 2 ^ 64" and un: "bk_unacked (view b) tag = Some m"
    and st3: "st3 r = (delivered t tag j)\<lparr>j_Status := StatusCompleted\<rparr>"
  shows "\<exists>rq3 b3. rb_UpdateJob am st3 r rq b = (None, rq3, b3) \<and> view b3 = (view b)\<lparr>bk_unacked := (bk_unacked (view b))(tag := None)\<rparr>"
proof -
  obtain b3 where "am_Ack am tag b = (None, b3)" "view b3 = (view b)\<lparr>bk_unacked := (bk_unacked (view b))(tag := None)\<rparr>"
    using laws un unfolding broker_laws_def law_Ack_def by metis
  then show ?thesis using rb_UpdateJob_delivered [OF op(1) _ op(2), of st3 r t j am b] st3 by (simp add: settle_def)
qed

lemma rb_retry_delivered:
  assumes laws: "broker_laws am rq0 view" and op: "\<not> rb_closed rq" "tag < 2 ^ 64" and un: "bk_unacked (view b) tag = Some m"
    and st3: "st3 r = (delivered t tag j)\<lparr>j_Status := StatusRetrying, j_Attempts := n\<rparr>"
  shows "\<exists>rq3 b3. rb_UpdateJob am st3 r rq b = (None, rq3, b3) \<and> rb_queueName rq3 = rb_queueName rq \<and> rb_closed rq3 = rb_closed rq \<and>
    bk_tag (view b3) = bk_tag (view b) \<and> mset (bk_ready (view b3)) = add_mset m (mset (bk_ready (view b)))"
proof -
  obtain b3 where "am_Nack am tag True b = (None, b3)" "bk_tag (view b3) = bk_tag (view b)" "mset (bk_ready (view b3)) = add_mset m (mset (bk_ready (view b)))"
    using laws un unfolding broker_laws_def law_Nack_def by metis
  then show ?thesis using rb_UpdateJob_delivered [OF op(1) _ op(2), of st3 r t j am b] st3 by (simp add: settle_def)
qed

lemma rb_Enqueue_ready:
  assumes laws: "broker_laws am rq view" and enq: "rb_Enqueue am json now st r rq b = (None, rq1, b1)" and d: "marshal_job json (st r) = Inr d"
  shows "mset (bk_ready (view b1)) = add_mset (job_message now (st r) d) (mset (bk_ready (view b)))" "bk_unacked (view b1) = bk_unacked (view b) \<and> bk_tag (view b1) = bk_tag (view b)"
    "rq1 = rq\<lparr>rb_jobs := (rb_jobs rq)(j_ID (st r) \<mapsto> r)\<rparr>" "\<not> rb_closed rq"
proof -
  have op: "\<not> rb_closed rq" using enq by (auto simp: rb_Enqueue_def)
  have "am_Publish am (rb_exchangeName rq) (rb_routingKey rq) (job_message now (st r) d) b = (None, b1) \<and> rq1 = rq\<lparr>rb_jobs := (rb_jobs rq)(j_ID (st r) \<mapsto> r)\<rparr>"
    using enq op d by (auto simp: rb_Enqueue_def rb_scheduleJob_def Let_def split: prod.splits if_splits)
  then show "mset (bk_ready (view b1)) = add_mset (job_message now (st r) d) (mset (bk_ready (view b)))" "bk_unacked (view b1) = bk_unacked (view b) \<and> bk_tag (view b1) = bk_tag (view b)"
    "rq1 = rq\<lparr>rb_jobs := (rb_jobs rq)(j_ID (st r) \<mapsto> r)\<rparr>" "\<not> rb_closed rq"
    using laws op by (auto simp: broker_laws_def law_Publish_def)
qed

text \<open>
  C30: A job published to an empty queue is delivered by the next \<open>Dequeue\<close>, marked as running and with its
  delivery tag, also when it is scheduled for later. Completing it removes its message for good. Marking it
  for a retry makes the original message ready again, so it is delivered once more at once and with the
  number of attempts it was published with, whatever has been counted since.
\<close>

theorem rabbit_delivery:
  assumes laws: "broker_laws am rq view" and empty: "bk_ready (view b) = []"
    and json: "marshal_job json (st r) = Inr d" "unmarshal_job json d = Inr (st r)"
    and enq: "rb_Enqueue am json now st r rq b = (None, rq1, b1)" and few: "bk_tag (view b) + 2 < 2 ^ 64"
  shows "\<exists>tag rq2 b2. rb_Dequeue am json t dn fresh st rq1 b1 = Some (Inr fresh, st(fresh := delivered t tag (st r)), rq2, b2) \<and>
    (\<forall>st3. st3 fresh = (delivered t tag (st r))\<lparr>j_Status := StatusCompleted\<rparr> \<longrightarrow>
       (\<exists>rq3 b3. rb_UpdateJob am st3 fresh rq2 b2 = (None, rq3, b3) \<and> bk_ready (view b3) = [] \<and> bk_unacked (view b3) = bk_unacked (view b))) \<and>
    (\<forall>st3 n fresh' t' dn'. st3 fresh = (delivered t tag (st r))\<lparr>j_Status := StatusRetrying, j_Attempts := n\<rparr> \<longrightarrow>
       (\<exists>rq3 b3 tag' rq4 b4. rb_UpdateJob am st3 fresh rq2 b2 = (None, rq3, b3) \<and>
          rb_Dequeue am json t' dn' fresh' st3 rq3 b3 = Some (Inr fresh', st3(fresh' := delivered t' tag' (st r)), rq4, b4)))"
proof -
  let ?tag = "Suc (bk_tag (view b))"
  let ?m = "job_message now (st r) d"
  note e = rb_Enqueue_ready [OF laws enq json(1)]
  have ready: "bk_ready (view b1) = [?m]" using e(1) empty by simp
  have body: "unmarshal_job json (pb_Body ?m) = Inr (st r)" using json(2) by (simp add: job_message_def)
  have names: "rb_queueName rq1 = rb_queueName rq" "rb_closed rq1 = rb_closed rq" using e(3) by simp_all
  have tag: "?tag = Suc (bk_tag (view b1))" "?tag < 2 ^ 64" using e(2) few by simp_all
  from rb_Dequeue_ready [OF laws e(4) names ready body tag, of t dn fresh st] obtain b2 rq2 where
    dq: "rb_Dequeue am json t dn fresh st rq1 b1 = Some (Inr fresh, st(fresh := delivered t ?tag (st r)), rq2, b2)"
    and rq2: "rq2 = rq1\<lparr>rb_jobs := (rb_jobs rq1)(j_ID (st r) \<mapsto> fresh)\<rparr>" and new: "bk_unacked (view b) ?tag = None"
    and b2: "view b2 = \<lparr>bk_ready = [], bk_unacked = (bk_unacked (view b))(?tag \<mapsto> ?m), bk_tag = ?tag\<rparr>"
    using e(2) by metis
  have op2: "\<not> rb_closed rq2" using rq2 names e(4) by simp
  have un: "bk_unacked (view b2) ?tag = Some ?m" by (simp add: b2)
  show ?thesis
  proof (rule exI [of _ ?tag], rule exI [of _ rq2], rule exI [of _ b2], intro conjI allI impI dq)
    fix st3 :: store assume "st3 fresh = (delivered t ?tag (st r))\<lparr>j_Status := StatusCompleted\<rparr>"
    from rb_complete_delivered [where ?st3.0 = st3 and r = fresh, OF laws op2 tag(2) un this]
    show "\<exists>rq3 b3. rb_UpdateJob am st3 fresh rq2 b2 = (None, rq3, b3) \<and> bk_ready (view b3) = [] \<and> bk_unacked (view b3) = bk_unacked (view b)"
      using new by (auto simp: b2 fun_upd_idem)
  next
    fix st3 :: store and n fresh' t' dn' assume "st3 fresh = (delivered t ?tag (st r))\<lparr>j_Status := StatusRetrying, j_Attempts := n\<rparr>"
    from rb_retry_delivered [where ?st3.0 = st3 and r = fresh, OF laws op2 tag(2) un this] obtain rq3 b3 where u: "rb_UpdateJob am st3 fresh rq2 b2 = (None, rq3, b3)"
      and n3: "rb_queueName rq3 = rb_queueName rq" "rb_closed rq3 = rb_closed rq" and r3: "bk_ready (view b3) = [?m]" and t3: "bk_tag (view b3) = ?tag"
      using rq2 names by (auto simp: b2)
    have "Suc ?tag < 2 ^ 64" using few by simp
    from rb_Dequeue_ready [OF laws e(4) n3 r3 body _ this, of t' dn' fresh' st3] t3 u
    show "\<exists>rq3 b3 tag' rq4 b4. rb_UpdateJob am st3 fresh rq2 b2 = (None, rq3, b3) \<and>
        rb_Dequeue am json t' dn' fresh' st3 rq3 b3 = Some (Inr fresh', st3(fresh' := delivered t' tag' (st r)), rq4, b4)" by metis
  qed
qed

section \<open>Witnesses\<close>

text \<open>A broker with one queue: the ready messages, the unacknowledged ones, the last delivery tag, and whether the connection is open.\<close>

type_synonym mini_broker = "Publishing list \<times> (nat \<times> Publishing) list \<times> nat \<times> bool"

definition mini_view :: "mini_broker \<Rightarrow> broker" where
  "mini_view = (\<lambda>(rs, us, n, op). \<lparr>bk_ready = rs, bk_unacked = (\<lambda>t. if t \<le> n then map_of us t else None), bk_tag = n\<rparr>)"

definition mini_amqp :: "mini_broker Amqp" where
  "mini_amqp = \<lparr>am_Dial = (\<lambda>url (rs, us, n, op). (None, (rs, us, 0, True))), am_Channel = (\<lambda>b. (None, b)),
     am_ExchangeDeclare = (\<lambda>x ty d a e w b. (None, b)),
     am_QueueDeclare = (\<lambda>q d a e w args b. (if d then None else Some ''PRECONDITION_FAILED'', b)),
     am_QueueBind = (\<lambda>q k x w b. (None, b)),
     am_Publish = (\<lambda>x k p (rs, us, n, op). (None, (rs @ [p], us, n, op))),
     am_Get = (\<lambda>q (rs, us, n, op). case rs of [] \<Rightarrow> (Inr None, (rs, us, n, op))
        | p # ps \<Rightarrow> (Inr (Some \<lparr>dl_Body = pb_Body p, dl_DeliveryTag = Suc n\<rparr>), (ps, (Suc n, p) # filter (\<lambda>u. fst u \<le> n) us, Suc n, op))),
     am_Ack = (\<lambda>t (rs, us, n, op). (None, (rs, filter (\<lambda>u. fst u \<noteq> t) us, n, op))),
     am_Nack = (\<lambda>t requeue (rs, us, n, op).
        (None, (if requeue then (case map_of us t of None \<Rightarrow> rs | Some p \<Rightarrow> p # rs) else rs, filter (\<lambda>u. fst u \<noteq> t) us, n, op))),
     am_QueueMessages = (\<lambda>q b. Inr (int (length (fst b)))), am_QueuePurge = (\<lambda>q (rs, us, n, op). (None, ([], us, n, op))),
     am_ChannelClose = (\<lambda>b. (None, b)),
     am_ConnClose = (\<lambda>(rs, us, n, op). (if op then None else Some ''channel/connection is not open'', (rs, us, n, False))),
     am_IsClosed = (\<lambda>(rs, us, n, op). \<not> op)\<rparr>"

lemma mini_close_laws: "close_laws mini_amqp"
  by (auto simp: close_laws_def mini_amqp_def split: if_splits)

lemma map_of_filter_key: "map_of (filter (\<lambda>u. P (fst u)) us) t = (if P t then map_of us t else None)"
  by (induction us) auto

lemma mini_broker_laws: "broker_laws mini_amqp rq mini_view"
proof -
  have "law_Publish mini_amqp rq mini_view" by (auto simp: law_Publish_def mini_amqp_def mini_view_def)
  moreover have "law_Get mini_amqp rq mini_view"
    by (auto simp: law_Get_def mini_amqp_def mini_view_def fun_eq_iff map_of_filter_key [where P = "\<lambda>k. k \<le> n" for n])
  moreover have "law_Ack mini_amqp mini_view"
    by (auto simp: law_Ack_def mini_amqp_def mini_view_def fun_eq_iff map_of_filter_key [where P = "\<lambda>k. k \<noteq> t" for t])
  moreover have "law_Nack mini_amqp mini_view"
    by (auto simp: law_Nack_def mini_amqp_def mini_view_def fun_eq_iff map_of_filter_key [where P = "\<lambda>k. k \<noteq> t" for t] split: if_splits)
  ultimately show ?thesis by (simp add: broker_laws_def)
qed

definition mini_queue :: RabbitMQ where
  "mini_queue = \<lparr>rb_conn = True, rb_channel = True, rb_queueName = ''jobs'', rb_exchangeName = ''jobs_exchange'', rb_routingKey = ''jobs'',
     rb_jobs = Map.empty, rb_closed = False\<rparr>"

theorem rabbit_failed_setup_closes_witness:
  "NewRabbitMQ mini_amqp \<lparr>rm_URL = ''amqp:'', rm_QueueName = ''q'', rm_ExchangeName = ''x'', rm_RoutingKey = ''k'', rm_Durable = False,
       rm_AutoDelete = False, rm_Exclusive = False, rm_NoWait = False, rm_MaxPriority = 0\<rparr> ([], [], 0, False) =
     Some (Inl (rwrap ''PRECONDITION_FAILED''), ([], [], 0, False)) \<and> am_IsClosed mini_amqp ([], [], 0, False)"
proof -
  let ?cfg = "\<lparr>rm_URL = ''amqp:'', rm_QueueName = ''q'', rm_ExchangeName = ''x'', rm_RoutingKey = ''k'', rm_Durable = False,
       rm_AutoDelete = False, rm_Exclusive = False, rm_NoWait = False, rm_MaxPriority = 0\<rparr>"
  have "NewRabbitMQ mini_amqp ?cfg ([], [], 0, False) = Some (Inl (rwrap ''PRECONDITION_FAILED''), ([], [], 0, False))"
    by (simp add: NewRabbitMQ_def TrimSpace_def is_space_def connect_def setup_step_def close_both_def handle_close_def Handle_def mini_amqp_def)
  then show ?thesis
    using rabbit_failed_setup_closes [OF mini_close_laws, of "([], [], 0, False)" ?cfg] by (simp add: mini_amqp_def)
qed

theorem rabbit_delivery_witness:
  "let st = (\<lambda>r. rq_demo_job ''a'' 1) in
   \<exists>tag rq2 b2. rb_Dequeue mini_amqp demo_codec 7 False 5 st (mini_queue\<lparr>rb_jobs := [''a'' \<mapsto> 1]\<rparr>)
      ([job_message 3 (rq_demo_job ''a'' 1) ''1Pa''], [], 0, True) = Some (Inr 5, st(5 := delivered 7 tag (rq_demo_job ''a'' 1)), rq2, b2)"
proof -
  let ?st = "\<lambda>r :: ref. rq_demo_job ''a'' 1" and ?rq1 = "mini_queue\<lparr>rb_jobs := [''a'' \<mapsto> 1]\<rparr>"
    and ?b1 = "([job_message 3 (rq_demo_job ''a'' 1) ''1Pa''], [], 0, True) :: mini_broker"
  have one: "digit_char (Suc 0) = CHR ''1''" by code_simp
  have "marshal_job demo_codec (?st 1) = Inr ''1Pa''" "unmarshal_job demo_codec ''1Pa'' = Inr (?st 1)"
    by (simp_all add: demo_codec_def rq_demo_job_def Job_zero_def one digit_val_def)
  moreover have "rb_Enqueue mini_amqp demo_codec 3 ?st 1 mini_queue ([], [], 0, True) = (None, ?rq1, ?b1)"
    using calculation by (simp add: rb_Enqueue_def mini_queue_def IsScheduled_def rq_demo_job_def Job_zero_def mini_amqp_def)
  moreover have "bk_ready (mini_view ([], [], 0, True)) = []" "bk_tag (mini_view ([], [], 0, True)) + 2 < 2 ^ 64"
    by (simp_all add: mini_view_def)
  ultimately show ?thesis
    using rabbit_delivery [OF mini_broker_laws, of "([], [], 0, True)" demo_codec ?st 1 "''1Pa''" 3 mini_queue ?rq1 ?b1 7 False 5]
    unfolding Let_def by blast
qed

end
