(* ===== verification/Calendar.thy ===== *)
theory Calendar
  imports Prelude "HOL-Library.Product_Lexorder"
begin

text \<open>
  The civil calendar of Go's \<open>time\<close> package in UTC (proleptic Gregorian): the fields of an instant
  (\<open>t.Year()\<close>, \<open>t.Month()\<close>, \<dots>), \<open>time.Date\<close> with its normalisation of out-of-range months, days
  and times of day, \<open>Weekday\<close> and \<open>Truncate\<close>. Days are numbered from January 1 of year 1, a Monday.
  The two directions are inverse to each other and strictly monotone.
\<close>

section \<open>Definitions\<close>

type_synonym civil = "int \<times> int \<times> int \<times> int \<times> int \<times> int"

definition leap :: "int \<Rightarrow> bool" where
  "leap y \<longleftrightarrow> y mod 4 = 0 \<and> (y mod 100 \<noteq> 0 \<or> y mod 400 = 0)"

definition days_in_month :: "int \<Rightarrow> int \<Rightarrow> int" where
  "days_in_month y m =
     (if m = 2 then (if leap y then 29 else 28) else if m \<in> {4, 6, 9, 11} then 30 else 31)"

definition days_before_year :: "int \<Rightarrow> int" where
  "days_before_year y = 365 * (y - 1) + (y - 1) div 4 - (y - 1) div 100 + (y - 1) div 400"

definition days_before_month :: "int \<Rightarrow> int \<Rightarrow> int" where
  "days_before_month y m = sum_list (map (days_in_month y) [1..m - 1])"

text \<open>The day number of \<open>time.Date(y, m, d, \<dots>)\<close>: months outside 1 to 12 carry into the year.\<close>

definition Date_day :: "int \<Rightarrow> int \<Rightarrow> int \<Rightarrow> int" where
  "Date_day y m d =
     (let y' = y + (m - 1) div 12; m' = (m - 1) mod 12 + 1
      in days_before_year y' + days_before_month y' m' + d - 1)"

definition Date :: "int \<Rightarrow> int \<Rightarrow> int \<Rightarrow> int \<Rightarrow> int \<Rightarrow> int \<Rightarrow> time" where
  "Date y mo d h mi s = (Date_day y mo d * 86400 + h * 3600 + mi * 60 + s) * 1000000000"

definition weekday :: "int \<Rightarrow> int" where
  "weekday n = (n + 1) mod 7"

definition Truncate :: "time \<Rightarrow> duration \<Rightarrow> time" where
  "Truncate t d = (if d \<le> 0 then t else t - t mod d)"

definition year_of_day :: "int \<Rightarrow> int" where
  "year_of_day n =
     (let y = n * 400 div 146097 + 1
      in if n < days_before_year y then y - 1 else if days_before_year (y + 1) \<le> n then y + 1 else y)"

function month_of_yday :: "int \<Rightarrow> int \<Rightarrow> int \<Rightarrow> int \<times> int" where
  "month_of_yday y m d =
     (if m < 12 \<and> days_in_month y m \<le> d then month_of_yday y (m + 1) (d - days_in_month y m) else (m, d + 1))"
  by pat_completeness auto
termination
  by (relation "measure (\<lambda>(y, m, d). nat (12 - m))") auto

declare month_of_yday.simps [simp del]

definition civil_of_day :: "int \<Rightarrow> int \<times> int \<times> int" where
  "civil_of_day n =
     (let y = year_of_day n; (m, d) = month_of_yday y 1 (n - days_before_year y) in (y, m, d))"

definition to_civil :: "time \<Rightarrow> civil" where
  "to_civil t =
     (let s = t div 1000000000; (y, m, d) = civil_of_day (s div 86400); r = s mod 86400
      in (y, m, d, r div 3600, r mod 3600 div 60, r mod 60))"

fun of_civil :: "civil \<Rightarrow> time" where
  "of_civil (y, mo, d, h, mi, s) = Date y mo d h mi s"

fun valid_date :: "int \<times> int \<times> int \<Rightarrow> bool" where
  "valid_date (y, m, d) \<longleftrightarrow> 1 \<le> m \<and> m \<le> 12 \<and> 1 \<le> d \<and> d \<le> days_in_month y m"

fun valid_civil :: "civil \<Rightarrow> bool" where
  "valid_civil (y, mo, d, h, mi, s) \<longleftrightarrow>
     valid_date (y, mo, d) \<and> 0 \<le> h \<and> h \<le> 23 \<and> 0 \<le> mi \<and> mi \<le> 59 \<and> 0 \<le> s \<and> s \<le> 59"

section \<open>Years and months\<close>

lemma days_in_month_bounds: "28 \<le> days_in_month y m" "days_in_month y m \<le> 31"
  by (auto simp: days_in_month_def)

lemma days_before_month_rec:
  "1 \<le> m \<Longrightarrow> days_before_month y (m + 1) = days_before_month y m + days_in_month y m"
  by (simp add: days_before_month_def upto_rec2)

lemma days_before_month_1 [simp]: "days_before_month y 1 = 0"
  by (simp add: days_before_month_def)

lemma days_before_month_13: "days_before_month y 13 = (if leap y then 366 else 365)"
  by (simp add: days_before_month_def days_in_month_def upto.simps)

lemma div_pred: "0 < k \<Longrightarrow> (y::int) div k - (y - 1) div k = (if y mod k = 0 then 1 else 0)"
proof -
  assume k: "0 < k"
  have e: "y = k * (y div k) + y mod k" by simp
  show ?thesis
  proof (cases "y mod k = 0")
    case True
    then have "y - 1 = (k - 1) + (y div k - 1) * k" using e by (simp add: algebra_simps)
    moreover have "((k - 1) + (y div k - 1) * k) div k = y div k - 1" using k by simp
    ultimately have "(y - 1) div k = y div k - 1" by metis
    then show ?thesis using True by simp
  next
    case False
    then have r: "0 < y mod k" using k by (simp add: pos_mod_sign less_le)
    have "(y - 1) div k = y div k"
      using r k e pos_mod_bound [OF k, of y]
      by (intro int_div_pos_eq [where r = "y mod k - 1"]) (auto simp: algebra_simps)
    then show ?thesis using False by simp
  qed
qed

lemma days_before_year_Suc: "days_before_year (y + 1) = days_before_year y + days_before_month y 13"
proof -
  have m: "y mod 400 mod 100 = y mod 100" "y mod 100 mod 4 = y mod 4" by (simp_all add: mod_mod_cancel)
  have "days_before_year (y + 1) = days_before_year y + 365 + (y div 4 - (y - 1) div 4)
      - (y div 100 - (y - 1) div 100) + (y div 400 - (y - 1) div 400)"
    by (simp add: days_before_year_def)
  also have "\<dots> = days_before_year y + 365 + (if y mod 4 = 0 then 1 else 0)
      - (if y mod 100 = 0 then 1 else 0) + (if y mod 400 = 0 then 1 else 0)"
    by (simp add: div_pred)
  also have "\<dots> = days_before_year y + days_before_month y 13"
    using m by (cases "y mod 4 = 0"; cases "y mod 100 = 0"; cases "y mod 400 = 0")
      (simp_all add: days_before_month_13 leap_def)
  finally show ?thesis .
qed

lemma days_before_month_mono:
  assumes "1 \<le> m" "m \<le> m'"
  shows "days_before_month y m \<le> days_before_month y m'"
  using assms(2)
proof (induction m' rule: int_ge_induct)
  case (step i)
  then show ?case using assms(1) days_before_month_rec [of i y] days_in_month_bounds(1) [of y i] by simp
qed simp

lemma days_before_year_mono:
  assumes "y \<le> y'"
  shows "days_before_year y \<le> days_before_year y'"
  using assms
proof (induction y' rule: int_ge_induct)
  case (step i)
  then show ?case using days_before_year_Suc [of i] by (auto simp: days_before_month_13 split: if_splits)
qed simp

lemma days_before_year_bounds:
  "146097 * k - 699 \<le> 400 * days_before_year (k + 1)" "400 * days_before_year (k + 1) \<le> 146097 * k + 396"
  unfolding days_before_year_def by simp_all

lemma year_of_day_bounds:
  "days_before_year (year_of_day n) \<le> n" "n < days_before_year (year_of_day n + 1)"
proof -
  define k where "k = n * 400 div 146097"
  have k: "146097 * k \<le> 400 * n" "400 * n < 146097 * (k + 1)"
    unfolding k_def by simp_all
  have "400 * days_before_year k \<le> 400 * n"
    using days_before_year_bounds(2) [of "k - 1"] k(1) by simp
  moreover have "400 * n < 400 * days_before_year (k + 3)"
    using days_before_year_bounds(1) [of "k + 2"] k(2) by (simp add: algebra_simps)
  ultimately show "days_before_year (year_of_day n) \<le> n" "n < days_before_year (year_of_day n + 1)"
    unfolding year_of_day_def k_def [symmetric] Let_def by (auto simp: algebra_simps)
qed

lemma month_of_yday_spec:
  assumes "1 \<le> m" "m \<le> 12" "0 \<le> d" "days_before_month y m + d < days_before_month y 13"
    "month_of_yday y m d = (m', d')"
  shows "valid_date (y, m', d') \<and> days_before_month y m' + d' - 1 = days_before_month y m + d"
  using assms
proof (induction y m d rule: month_of_yday.induct)
  case (1 y m d)
  show ?case
  proof (cases "m < 12 \<and> days_in_month y m \<le> d")
    case True
    with "1.prems" have "month_of_yday y (m + 1) (d - days_in_month y m) = (m', d')"
      by (simp add: month_of_yday.simps [of y m d])
    with 1 True days_before_month_rec [of m y] show ?thesis by simp
  next
    case False
    with "1.prems" have "m' = m" "d' = d + 1" by (simp_all add: month_of_yday.simps [of y m d])
    moreover have "d < days_in_month y m"
      using False "1.prems" days_before_month_rec [of 12 y] by (cases "m = 12") auto
    ultimately show ?thesis using "1.prems" by simp
  qed
qed

section \<open>Days\<close>

lemma Date_day_valid:
  assumes "1 \<le> m" "m \<le> 12"
  shows "Date_day y m d = days_before_year y + days_before_month y m + d - 1"
proof -
  have "(m - 1) div 12 = 0" "(m - 1) mod 12 = m - 1" using assms by auto
  then show ?thesis by (simp add: Date_day_def Let_def)
qed

lemma civil_of_day_spec:
  assumes "civil_of_day n = (y, m, d)"
  shows "valid_date (y, m, d)" "Date_day y m d = n"
proof -
  have y: "y = year_of_day n" and md: "month_of_yday y 1 (n - days_before_year y) = (m, d)"
    using assms by (auto simp: civil_of_day_def Let_def split: prod.splits)
  have b: "days_before_year y \<le> n" "n < days_before_year y + days_before_month y 13"
    using year_of_day_bounds [of n] days_before_year_Suc [of y] by (simp_all add: y)
  have "valid_date (y, m, d) \<and> days_before_month y m + d - 1 = days_before_month y 1 + (n - days_before_year y)"
    by (rule month_of_yday_spec [OF _ _ _ _ md]) (use b in simp_all)
  then show "valid_date (y, m, d)" "Date_day y m d = n" by (auto simp: Date_day_valid)
qed

lemma Date_day_bounds:
  assumes "valid_date (y, m, d)"
  shows "days_before_year y + days_before_month y m \<le> Date_day y m d"
    "Date_day y m d < days_before_year y + days_before_month y (m + 1)"
    "Date_day y m d < days_before_year (y + 1)"
proof -
  show 1: "days_before_year y + days_before_month y m \<le> Date_day y m d"
    "Date_day y m d < days_before_year y + days_before_month y (m + 1)"
    using assms days_before_month_rec [of m y] by (simp_all add: Date_day_valid)
  have "days_before_month y (m + 1) \<le> days_before_month y 13"
    using assms by (intro days_before_month_mono) auto
  with 1 show "Date_day y m d < days_before_year (y + 1)" by (simp add: days_before_year_Suc)
qed

lemma Date_day_strict_mono:
  assumes "valid_date (y, m, d)" "valid_date (y', m', d')" "(y, m, d) < (y', m', d')"
  shows "Date_day y m d < Date_day y' m' d'"
proof -
  consider "y < y'" | "y = y'" "m < m'" | "y = y'" "m = m'" "d < d'"
    using assms(3) by (metis less_prod_simp order_le_less)
  then show ?thesis
  proof cases
    case 1
    have "days_before_year (y + 1) \<le> days_before_year y'" using 1 by (intro days_before_year_mono) simp
    moreover have "0 \<le> days_before_month y' m'"
      using days_before_month_mono [of 1 m' y'] assms(2) by simp
    ultimately show ?thesis using Date_day_bounds(3) [OF assms(1)] Date_day_bounds(1) [OF assms(2)] by linarith
  next
    case 2
    have "days_before_month y (m + 1) \<le> days_before_month y m'"
      using 2 assms(1) by (intro days_before_month_mono) auto
    then show ?thesis using 2 Date_day_bounds(2) [OF assms(1)] Date_day_bounds(1) [OF assms(2)] by simp
  next
    case 3
    then show ?thesis using assms by (simp add: Date_day_valid)
  qed
qed

lemma civil_of_day_Date_day: "valid_date (y, m, d) \<Longrightarrow> civil_of_day (Date_day y m d) = (y, m, d)"
proof -
  assume v: "valid_date (y, m, d)"
  obtain y' m' d' where c: "civil_of_day (Date_day y m d) = (y', m', d')" by (metis prod_cases3)
  note s = civil_of_day_spec [OF c]
  have "\<not> (y, m, d) < (y', m', d')" "\<not> (y', m', d') < (y, m, d)"
    using Date_day_strict_mono [OF v s(1)] Date_day_strict_mono [OF s(1) v] s(2) by auto
  then show ?thesis unfolding c by (metis linorder_cases)
qed

text \<open>\<open>time.Date(y, m + 1, 0, \<dots>)\<close> is the last day of month \<open>m\<close>.\<close>

lemma last_day_of_month:
  assumes "1 \<le> m" "m \<le> 12"
  shows "civil_of_day (Date_day y (m + 1) 0) = (y, m, days_in_month y m)"
proof -
  have "Date_day y (m + 1) 0 = Date_day y m (days_in_month y m)"
  proof (cases "m = 12")
    case True
    then show ?thesis
      using days_before_year_Suc [of y] days_before_month_rec [of 12 y] by (simp add: Date_day_def Let_def)
  next
    case False
    with assms show ?thesis by (simp add: Date_day_valid days_before_month_rec)
  qed
  moreover have "1 \<le> days_in_month y m" using days_in_month_bounds(1) [of y m] by simp
  ultimately show ?thesis using assms by (simp add: civil_of_day_Date_day)
qed

section \<open>Instants\<close>

lemma time_of_day:
  fixes r :: int
  assumes "0 \<le> r" "r < 86400"
  shows "r div 3600 \<le> 23" "r mod 3600 div 60 \<le> 59" "r div 3600 * 3600 + r mod 3600 div 60 * 60 + r mod 60 = r"
proof -
  show "r div 3600 \<le> 23" using assms by linarith
  have "r mod 3600 < 3600" by simp
  then show "r mod 3600 div 60 \<le> 59" by linarith
  have "r mod 3600 mod 60 = r mod 60" by (simp add: mod_mod_cancel)
  then show "r div 3600 * 3600 + r mod 3600 div 60 * 60 + r mod 60 = r"
    using div_mult_mod_eq [of r 3600] div_mult_mod_eq [of "r mod 3600" 60] by linarith
qed

lemma to_civil_valid: "valid_civil (to_civil t)"
proof -
  obtain y m d where c: "civil_of_day (t div 1000000000 div 86400) = (y, m, d)" by (metis prod_cases3)
  have "valid_date (y, m, d)" by (rule civil_of_day_spec(1) [OF c])
  moreover define r where "r = t div 1000000000 mod 86400"
  moreover have "0 \<le> r" "r < 86400" unfolding r_def by simp_all
  ultimately show ?thesis
    using c time_of_day(1,2) [of r] unfolding to_civil_def Let_def r_def [symmetric]
    by (simp add: pos_imp_zdiv_nonneg_iff)
qed

lemma of_civil_to_civil: "of_civil (to_civil t) = t - t mod second"
proof -
  define s where "s = t div 1000000000"
  define r where "r = s mod 86400"
  obtain y m d where c: "civil_of_day (s div 86400) = (y, m, d)" by (metis prod_cases3)
  have r: "0 \<le> r" "r < 86400" unfolding r_def by simp_all
  have "s div 86400 * 86400 + r = s" unfolding r_def by (rule div_mult_mod_eq)
  then have "s div 86400 * 86400 + r div 3600 * 3600 + r mod 3600 div 60 * 60 + r mod 60 = s"
    using time_of_day(3) [OF r] by linarith
  moreover have "of_civil (to_civil t) =
      (s div 86400 * 86400 + r div 3600 * 3600 + r mod 3600 div 60 * 60 + r mod 60) * 1000000000"
    unfolding to_civil_def Let_def s_def [symmetric] r_def [symmetric] c
    by (simp only: prod.case of_civil.simps Date_def civil_of_day_spec(2) [OF c])
  moreover have "s * 1000000000 = t - t mod 1000000000" unfolding s_def by (simp add: minus_mod_eq_div_mult)
  ultimately show ?thesis by (simp only: duration_values)
qed

lemma of_civil_strict_mono:
  assumes "valid_civil c" "valid_civil c'" "c < c'"
  shows "of_civil c < of_civil c'"
proof -
  obtain y mo d h mi s where c: "c = (y, mo, d, h, mi, s)" by (metis prod_cases6)
  obtain y' mo' d' h' mi' s' where c': "c' = (y', mo', d', h', mi', s')" by (metis prod_cases6)
  have v: "valid_date (y, mo, d)" "valid_date (y', mo', d')" using assms(1,2) by (auto simp: c c')
  consider "(y, mo, d) < (y', mo', d')" | "(y, mo, d) = (y', mo', d')" "(h, mi, s) < (h', mi', s')"
    using assms(3) unfolding c c' by (metis less_prod_simp order_le_less)
  then show ?thesis
  proof cases
    case 1
    have "Date_day y mo d < Date_day y' mo' d'" by (rule Date_day_strict_mono [OF v 1])
    then have "Date_day y mo d * 86400 + 86400 \<le> Date_day y' mo' d' * 86400" by simp
    then show ?thesis using assms(1,2) by (simp add: c c' Date_def)
  next
    case 2
    then have "h * 3600 + mi * 60 + s < h' * 3600 + mi' * 60 + s'"
      using assms(1,2) by (auto simp: c c')
    then show ?thesis using 2(1) by (simp add: c c' Date_def)
  qed
qed

lemma of_civil_less_iff: "valid_civil c \<Longrightarrow> valid_civil c' \<Longrightarrow> of_civil c < of_civil c' \<longleftrightarrow> c < c'"
  by (metis linorder_cases of_civil_strict_mono order_less_asym)

lemma of_civil_le_iff: "valid_civil c \<Longrightarrow> valid_civil c' \<Longrightarrow> of_civil c \<le> of_civil c' \<longleftrightarrow> c \<le> c'"
  using of_civil_less_iff [of c' c] by (simp add: linorder_not_less [symmetric])

lemma to_civil_of_civil: "valid_civil c \<Longrightarrow> to_civil (of_civil c) = c"
proof -
  assume v: "valid_civil c"
  have "of_civil c mod second = 0" by (cases c) (simp add: Date_def)
  then have "of_civil (to_civil (of_civil c)) = of_civil c" by (simp add: of_civil_to_civil)
  then show ?thesis
    using of_civil_less_iff [OF v to_civil_valid [of "of_civil c"]]
      of_civil_less_iff [OF to_civil_valid [of "of_civil c"] v]
    by (metis linorder_cases order_less_irrefl)
qed

end
