(* ===== verification/Cron.thy ===== *)
theory Cron
  imports GoStrings Calendar
begin

text \<open>
  Cron expressions (\<open>src/queue/cron.go\<close>): the parser for five- and six-field specifications with
  presets, names, ranges, lists and steps, and the search for the next run. Errors are the values
  the code builds with \<open>apperror.NewError\<close> and wraps with \<open>fmt.Errorf\<close>. The iteration order of the
  name maps, which Go leaves open, is an argument of the definitions. Instants are in UTC.
\<close>

section \<open>Data\<close>

datatype cron_err = NewError string | Errorf string cron_err

record CronField =
  cf_Min :: int
  cf_Max :: int
  cf_Values :: "int list"

record CronExpression =
  ce_Second :: "CronField option"
  ce_Minute :: CronField
  ce_Hour :: CronField
  ce_Day :: CronField
  ce_Month :: CronField
  ce_DayOfWeek :: CronField

definition Presets :: "(string \<times> string) list" where
  "Presets =
    [(''@yearly'', ''0 0 0 1 1 *''),
     (''@annually'', ''0 0 0 1 1 *''),
     (''@monthly'', ''0 0 0 1 * *''),
     (''@weekly'', ''0 0 0 * * 0''),
     (''@daily'', ''0 0 0 * * *''),
     (''@midnight'', ''0 0 0 * * *''),
     (''@hourly'', ''0 0 * * * *'')]"

definition Months :: "(string \<times> int) list" where
  "Months =
    [(''JAN'', 1), (''FEB'', 2), (''MAR'', 3), (''APR'', 4), (''MAY'', 5), (''JUN'', 6),
     (''JUL'', 7), (''AUG'', 8), (''SEP'', 9), (''OCT'', 10), (''NOV'', 11), (''DEC'', 12)]"

definition Days :: "(string \<times> int) list" where
  "Days = [(''SUN'', 0), (''MON'', 1), (''TUE'', 2), (''WED'', 3), (''THU'', 4), (''FRI'', 5), (''SAT'', 6)]"

section \<open>Parsing one field\<close>

definition append_value :: "CronField \<Rightarrow> int list \<Rightarrow> CronField" where
  "append_value f vs = f\<lparr>cf_Values := cf_Values f @ vs\<rparr>"

definition step_measure :: "int \<Rightarrow> int \<Rightarrow> int \<Rightarrow> nat" where
  "step_measure i end step =
     (if step < 2 ^ 63 - 60 then nat (end + 1 - i)
      else if i > end then 0
      else if i + step > end then (if i + step < 2 ^ 63 then 1 else 2 * nat i + 5)
      else 2 * nat (i + step) + 6)"

lemma step_measure_decreases:
  assumes "i \<le> end" "0 < step" "step < 2 ^ 63" "end < 60" "- (2 ^ 63) \<le> i"
  shows "step_measure (wrap64 (i + step)) end step < step_measure i end step"
proof (cases "i + step < 2 ^ 63")
  case True
  then have "wrap64 (i + step) = i + step" using assms by (intro wrap64_id) (simp add: int64_range_def)
  then show ?thesis using assms True by (auto simp: step_measure_def)
next
  case False
  then have "wrap64 (i + step) = i + step - 2 ^ 64" using assms by (intro wrap64_over) simp_all
  then show ?thesis using assms False by (auto simp: step_measure_def)
qed

text \<open>
  \<open>for i := start; i <= end; i += step\<close> with 64-bit addition. The callers pass a positive step
  and an end of at most 59, for which the loop ends; the guard states just that.
\<close>

function step_loop :: "int \<Rightarrow> int \<Rightarrow> int \<Rightarrow> int list" where
  "step_loop i end step =
     (if i \<le> end \<and> 0 < step \<and> step < 2 ^ 63 \<and> end < 60 \<and> - (2 ^ 63) \<le> i
      then i # step_loop (wrap64 (i + step)) end step else [])"
  by pat_completeness auto

termination
  by (relation "measure (\<lambda>(i, end, step). step_measure i end step)") (simp_all add: step_measure_decreases)

declare step_loop.simps [simp del]

definition parseStepField :: "string \<Rightarrow> int \<Rightarrow> int \<Rightarrow> CronField \<Rightarrow> cron_err + CronField" where
  "parseStepField field low high cronField =
     (let parts = Split_char CHR ''/'' field in
      if length parts \<noteq> 2 then Inl (NewError ''invalid step format'')
      else case Atoi (parts ! 1) of
        None \<Rightarrow> Inl (NewError ''invalid step value'')
      | Some step \<Rightarrow>
          if step \<le> 0 then Inl (NewError ''invalid step value'')
          else if parts ! 0 = ''*'' then Inr (append_value cronField (step_loop low high step))
          else if CHR ''-'' \<in> set (parts ! 0) then
            (let rangeParts = Split_char CHR ''-'' (parts ! 0) in
             if length rangeParts \<noteq> 2 then Inl (NewError ''invalid range format'')
             else case Atoi (rangeParts ! 0) of
               None \<Rightarrow> Inl (NewError ''invalid range start'')
             | Some start \<Rightarrow>
                 if start < low \<or> start > high then Inl (NewError ''invalid range start'')
                 else case Atoi (rangeParts ! 1) of
                   None \<Rightarrow> Inl (NewError ''invalid range end'')
                 | Some end \<Rightarrow>
                     if end < low \<or> end > high \<or> end < start then Inl (NewError ''invalid range end'')
                     else Inr (append_value cronField (step_loop start end step)))
          else case Atoi (parts ! 0) of
            None \<Rightarrow> Inl (NewError ''invalid step start'')
          | Some start \<Rightarrow>
              if start < low \<or> start > high then Inl (NewError ''invalid step start'')
              else Inr (append_value cronField (step_loop start high step)))"

definition parseRangeField :: "string \<Rightarrow> int \<Rightarrow> int \<Rightarrow> CronField \<Rightarrow> cron_err + CronField" where
  "parseRangeField field low high cronField =
     (let parts = Split_char CHR ''-'' field in
      if length parts \<noteq> 2 then Inl (NewError ''invalid range format'')
      else case Atoi (parts ! 0) of
        None \<Rightarrow> Inl (NewError ''invalid range start'')
      | Some start \<Rightarrow>
          if start < low \<or> start > high then Inl (NewError ''invalid range start'')
          else case Atoi (parts ! 1) of
            None \<Rightarrow> Inl (NewError ''invalid range end'')
          | Some end \<Rightarrow>
              if end < low \<or> end > high \<or> end < start then Inl (NewError ''invalid range end'')
              else Inr (append_value cronField [start..end]))"

fun parse_list_parts :: "string list \<Rightarrow> int \<Rightarrow> int \<Rightarrow> CronField \<Rightarrow> cron_err + CronField" where
  "parse_list_parts [] low high cronField = Inr cronField"
| "parse_list_parts (part # parts) low high cronField =
     (case Atoi (TrimSpace part) of
        None \<Rightarrow> Inl (NewError ''invalid value in list'')
      | Some v \<Rightarrow>
          if v < low \<or> v > high then Inl (NewError ''invalid value in list'')
          else parse_list_parts parts low high (append_value cronField [v]))"

definition parseListField :: "string \<Rightarrow> int \<Rightarrow> int \<Rightarrow> CronField \<Rightarrow> cron_err + CronField" where
  "parseListField field low high cronField = parse_list_parts (Split_char CHR '','' field) low high cronField"

definition parseSingleField :: "string \<Rightarrow> int \<Rightarrow> int \<Rightarrow> CronField \<Rightarrow> cron_err + CronField" where
  "parseSingleField field low high cronField =
     (case Atoi field of
        None \<Rightarrow> Inl (NewError ''invalid single value'')
      | Some v \<Rightarrow>
          if v < low \<or> v > high then Inl (NewError ''invalid single value'')
          else Inr (append_value cronField [v]))"

definition parse_by_kind :: "string \<Rightarrow> int \<Rightarrow> int \<Rightarrow> CronField \<Rightarrow> cron_err + CronField" where
  "parse_by_kind field low high cronField =
     (if CHR ''/'' \<in> set field then parseStepField field low high cronField
      else if CHR ''-'' \<in> set field then parseRangeField field low high cronField
      else if CHR '','' \<in> set field then parseListField field low high cronField
      else parseSingleField field low high cronField)"

definition parseCronField :: "string \<Rightarrow> int \<Rightarrow> int \<Rightarrow> cron_err + CronField" where
  "parseCronField field low high =
     (let cronField = \<lparr>cf_Min = low, cf_Max = high, cf_Values = []\<rparr> in
      if field = ''*'' then Inr (append_value cronField [low..high])
      else parse_by_kind field low high cronField)"

text \<open>\<open>nameMap\<close> is the name table in the order \<open>range\<close> visits it; \<open>None\<close> is the nil map.\<close>

definition normalizeFieldNames :: "string \<Rightarrow> (string \<times> int) list option \<Rightarrow> string" where
  "normalizeFieldNames field nameMap =
     (case nameMap of
        None \<Rightarrow> field
      | Some names \<Rightarrow> fold (\<lambda>(name, v) result. ReplaceAll result name (Itoa v)) names field)"

definition parseCronFieldWithNames ::
    "string \<Rightarrow> int \<Rightarrow> int \<Rightarrow> (string \<times> int) list option \<Rightarrow> cron_err + CronField" where
  "parseCronFieldWithNames field low high nameMap =
     (let cronField = \<lparr>cf_Min = low, cf_Max = high, cf_Values = []\<rparr>;
          field = (if field = ''?'' then ''*'' else field) in
      if field = ''*'' then Inr (append_value cronField [low..high])
      else parse_by_kind (normalizeFieldNames field nameMap) low high cronField)"

section \<open>Parsing a specification\<close>

definition cron_sort :: "CronField \<Rightarrow> CronField" where
  "cron_sort f = f\<lparr>cf_Values := sort (cf_Values f)\<rparr>"

fun wrap_err :: "string \<Rightarrow> cron_err + 'a \<Rightarrow> cron_err + 'a" where
  "wrap_err msg (Inl e) = Inl (Errorf msg e)"
| "wrap_err msg (Inr x) = Inr x"

fun bind_err :: "'e + 'a \<Rightarrow> ('a \<Rightarrow> 'e + 'b) \<Rightarrow> 'e + 'b" where
  "bind_err (Inl e) k = Inl e"
| "bind_err (Inr x) k = k x"

definition parse_fields ::
    "(string \<times> int) list \<Rightarrow> (string \<times> int) list \<Rightarrow> string list \<Rightarrow> cron_err + CronExpression" where
  "parse_fields mons dys flds =
     (if length flds \<noteq> 5 \<and> length flds \<noteq> 6 then
        Inl (NewError ''cron expression must have exactly 5 fields (minute hour day month day-of-week) or 6 fields (second minute hour day month day-of-week)'')
      else let off = (if length flds = 6 then 1 else 0) in
        bind_err (if length flds = 6
                  then bind_err (wrap_err ''invalid second field: '' (parseCronField (flds ! 0) 0 59)) (\<lambda>f. Inr (Some f))
                  else Inr None) (\<lambda>sec.
        bind_err (wrap_err ''invalid minute field: '' (parseCronField (flds ! off) 0 59)) (\<lambda>mi.
        bind_err (wrap_err ''invalid hour field: '' (parseCronField (flds ! (off + 1)) 0 23)) (\<lambda>hr.
        bind_err (wrap_err ''invalid day field: '' (parseCronFieldWithNames (flds ! (off + 2)) 1 31 None)) (\<lambda>dy.
        bind_err (wrap_err ''invalid month field: '' (parseCronFieldWithNames (flds ! (off + 3)) 1 12 (Some mons))) (\<lambda>mo.
        bind_err (wrap_err ''invalid day-of-week field: '' (parseCronFieldWithNames (flds ! (off + 4)) 0 6 (Some dys))) (\<lambda>dw.
        Inr \<lparr>ce_Second = map_option cron_sort sec, ce_Minute = cron_sort mi, ce_Hour = cron_sort hr,
             ce_Day = cron_sort dy, ce_Month = cron_sort mo, ce_DayOfWeek = cron_sort dw\<rparr>)))))))"

lemma Presets_plain: "list_all (\<lambda>(s, p). map_of Presets p = None) Presets"
  by code_simp

lemma Presets_not_preset: "map_of Presets s = Some p \<Longrightarrow> map_of Presets p = None"
  using Presets_plain by (auto simp: list_all_iff dest: map_of_SomeD)

function ParseCronSpec ::
    "(string \<times> int) list \<Rightarrow> (string \<times> int) list \<Rightarrow> string \<Rightarrow> cron_err + CronExpression" where
  "ParseCronSpec mons dys cronSpec =
     (case map_of Presets cronSpec of
        Some predefined \<Rightarrow> ParseCronSpec mons dys predefined
      | None \<Rightarrow> parse_fields mons dys (Fields cronSpec))"
  by pat_completeness auto

termination
  by (relation "measure (\<lambda>(mons, dys, s). if map_of Presets s = None then 0 else 1)") (auto dest: Presets_not_preset)

declare ParseCronSpec.simps [simp del]

definition ValidateCronSpec :: "(string \<times> int) list \<Rightarrow> (string \<times> int) list \<Rightarrow> string \<Rightarrow> cron_err option" where
  "ValidateCronSpec mons dys spec = (case ParseCronSpec mons dys spec of Inl e \<Rightarrow> Some e | Inr _ \<Rightarrow> None)"

section \<open>The next run\<close>

definition fieldMatches :: "CronField \<Rightarrow> int \<Rightarrow> bool" where
  "fieldMatches f v \<longleftrightarrow> v \<in> set (cf_Values f)"

definition findNextValidValue :: "CronField \<Rightarrow> int \<Rightarrow> int option" where
  "findNextValidValue f v = find (\<lambda>x. x \<ge> v) (cf_Values f)"

definition findFirstValidValue :: "CronField \<Rightarrow> int" where
  "findFirstValidValue f = (case cf_Values f of [] \<Rightarrow> cf_Min f | v # _ \<Rightarrow> v)"

lemma findNextValidValue_ge: "findNextValidValue f v = Some w \<Longrightarrow> v \<le> w"
  by (auto simp: findNextValidValue_def find_Some_iff)

text \<open>
  The loop over the values of one field, as the month, hour, minute and second loops have it:
  \<open>body\<close> is the rest of the search below the value, \<open>None\<close> its falling through to the next value.
\<close>

function field_loop :: "CronField \<Rightarrow> int \<Rightarrow> (int \<Rightarrow> 'a option) \<Rightarrow> int \<Rightarrow> 'a option" where
  "field_loop f mx body x =
     (if x > mx then None
      else case (if fieldMatches f x then body x else None) of
        Some r \<Rightarrow> Some r
      | None \<Rightarrow> (case findNextValidValue f (x + 1) of
            None \<Rightarrow> None
          | Some n \<Rightarrow> field_loop f mx body n))"
  by pat_completeness auto
termination
  by (relation "measure (\<lambda>(f, mx, body, x). nat (mx + 1 - x))") (auto dest: findNextValidValue_ge)

declare field_loop.simps [simp del]

text \<open>The start of a loop: the time's own value on its own prefix, the first valid value elsewhere.\<close>

definition start_value :: "CronField \<Rightarrow> bool \<Rightarrow> int \<Rightarrow> int" where
  "start_value f same tv = (if same then tv else findFirstValidValue f)"

definition second_search :: "CronField \<Rightarrow> civil \<Rightarrow> int \<Rightarrow> int \<Rightarrow> int \<Rightarrow> int \<Rightarrow> int \<Rightarrow> civil option" where
  "second_search sec t year month day hr mnt =
     (let (ty, tmo, td, th, tmi, ts) = t;
          start = start_value sec (year = ty \<and> month = tmo \<and> day = td \<and> hr = th \<and> mnt = tmi) ts
      in case findNextValidValue sec start of
           None \<Rightarrow> None
         | Some nextSecond \<Rightarrow>
             field_loop sec 59 (\<lambda>sc. Some (year, month, day, hr, mnt, sc)) nextSecond)"

definition minute_search :: "CronExpression \<Rightarrow> civil \<Rightarrow> int \<Rightarrow> int \<Rightarrow> int \<Rightarrow> int \<Rightarrow> civil option" where
  "minute_search expr t year month day hr =
     (let (ty, tmo, td, th, tmi, ts) = t;
          start = start_value (ce_Minute expr) (year = ty \<and> month = tmo \<and> day = td \<and> hr = th) tmi
      in case findNextValidValue (ce_Minute expr) start of
           None \<Rightarrow> None
         | Some nextMinute \<Rightarrow>
             field_loop (ce_Minute expr) 59
               (\<lambda>mnt. case ce_Second expr of
                   Some sec \<Rightarrow> second_search sec t year month day hr mnt
                 | None \<Rightarrow> Some (year, month, day, hr, mnt, 0)) nextMinute)"

definition hour_search :: "CronExpression \<Rightarrow> civil \<Rightarrow> int \<Rightarrow> int \<Rightarrow> int \<Rightarrow> civil option" where
  "hour_search expr t year month day =
     (let (ty, tmo, td, th, tmi, ts) = t;
          start = start_value (ce_Hour expr) (year = ty \<and> month = tmo \<and> day = td) th
      in case findNextValidValue (ce_Hour expr) start of
           None \<Rightarrow> None
         | Some nextHour \<Rightarrow>
             field_loop (ce_Hour expr) 23 (minute_search expr t year month day) nextHour)"

definition dow_matches :: "CronExpression \<Rightarrow> int \<Rightarrow> int \<Rightarrow> int \<Rightarrow> bool" where
  "dow_matches expr year month day \<longleftrightarrow> fieldMatches (ce_DayOfWeek expr) (weekday (Date_day year month day))"

text \<open>The day loop: a day on the wrong weekday is followed by the next day, whether it matches or not.\<close>

function day_loop :: "CronExpression \<Rightarrow> civil \<Rightarrow> int \<Rightarrow> int \<Rightarrow> int \<Rightarrow> int \<Rightarrow> civil option" where
  "day_loop expr t year month daysInMonth day =
     (if day > daysInMonth then None
      else if fieldMatches (ce_Day expr) day \<and> \<not> dow_matches expr year month day then
        day_loop expr t year month daysInMonth (day + 1)
      else case (if fieldMatches (ce_Day expr) day then hour_search expr t year month day else None) of
        Some r \<Rightarrow> Some r
      | None \<Rightarrow> (case findNextValidValue (ce_Day expr) (day + 1) of
            None \<Rightarrow> None
          | Some n \<Rightarrow> if n > daysInMonth then None else day_loop expr t year month daysInMonth n))"
  by pat_completeness auto
termination
  by (relation "measure (\<lambda>(e, t, y, m, mx, d). nat (mx + 1 - d))") (auto dest: findNextValidValue_ge)

declare day_loop.simps [simp del]

definition day_search :: "CronExpression \<Rightarrow> civil \<Rightarrow> int \<Rightarrow> int \<Rightarrow> civil option" where
  "day_search expr t year month =
     (let (ty, tmo, td, th, tmi, ts) = t;
          start = start_value (ce_Day expr) (year = ty \<and> month = tmo) td;
          daysInMonth = snd (snd (civil_of_day (Date_day year (month + 1) 0)))
      in case findNextValidValue (ce_Day expr) start of
           None \<Rightarrow> None
         | Some nextDay \<Rightarrow>
             if nextDay > daysInMonth then None else day_loop expr t year month daysInMonth nextDay)"

definition month_search :: "CronExpression \<Rightarrow> civil \<Rightarrow> int \<Rightarrow> civil option" where
  "month_search expr t year =
     (let (ty, tmo, td, th, tmi, ts) = t;
          start = start_value (ce_Month expr) (year = ty) tmo
      in case findNextValidValue (ce_Month expr) start of
           None \<Rightarrow> None
         | Some nextMonth \<Rightarrow> field_loop (ce_Month expr) 12 (day_search expr t year) nextMonth)"

function year_loop :: "CronExpression \<Rightarrow> civil \<Rightarrow> int \<Rightarrow> int \<Rightarrow> civil option" where
  "year_loop expr t maxYear year =
     (if year \<le> maxYear
      then case month_search expr t year of Some r \<Rightarrow> Some r | None \<Rightarrow> year_loop expr t maxYear (year + 1)
      else None)"
  by pat_completeness auto
termination
  by (relation "measure (\<lambda>(e, t, mx, y). nat (mx + 1 - y))") auto

declare year_loop.simps [simp del]

definition search_start :: "CronExpression \<Rightarrow> time \<Rightarrow> time" where
  "search_start expr after =
     (case ce_Second expr of
        Some _ \<Rightarrow> Truncate after second + second
      | None \<Rightarrow> Truncate after minute + minute)"

definition calculateNextCronRun ::
    "(string \<times> int) list \<Rightarrow> (string \<times> int) list \<Rightarrow> string \<Rightarrow> time \<Rightarrow> cron_err + time" where
  "calculateNextCronRun mons dys cronSpec after =
     (case ParseCronSpec mons dys cronSpec of
        Inl err \<Rightarrow> Inl err
      | Inr expr \<Rightarrow>
          (let t = to_civil (search_start expr after)
           in case year_loop expr t (fst t + 4) (fst t) of
                Some c \<Rightarrow> Inr (of_civil c)
              | None \<Rightarrow> Inl (NewError ''could not find next run time within reasonable limits'')))"

section \<open>Well-formed fields\<close>

definition field_wf :: "int \<Rightarrow> int \<Rightarrow> CronField \<Rightarrow> bool" where
  "field_wf low high f \<longleftrightarrow> cf_Min f = low \<and> cf_Max f = high \<and> (\<forall>v \<in> set (cf_Values f). low \<le> v \<and> v \<le> high)"

definition cron_wf :: "CronExpression \<Rightarrow> bool" where
  "cron_wf e \<longleftrightarrow>
     (\<forall>f. ce_Second e = Some f \<longrightarrow> field_wf 0 59 f \<and> sorted (cf_Values f)) \<and>
     field_wf 0 59 (ce_Minute e) \<and> sorted (cf_Values (ce_Minute e)) \<and>
     field_wf 0 23 (ce_Hour e) \<and> sorted (cf_Values (ce_Hour e)) \<and>
     field_wf 1 31 (ce_Day e) \<and> sorted (cf_Values (ce_Day e)) \<and>
     field_wf 1 12 (ce_Month e) \<and> sorted (cf_Values (ce_Month e)) \<and>
     field_wf 0 6 (ce_DayOfWeek e) \<and> sorted (cf_Values (ce_DayOfWeek e))"

lemma step_loop_filter:
  assumes "0 < step" "step < 2 ^ 63 - 60" "end < 60" "0 \<le> i"
  shows "step_loop i end step = filter (\<lambda>v. step dvd v - i) [i..end]"
  using assms
proof (induction i "end" step rule: step_loop.induct)
  case (1 i "end" step)
  show ?case
  proof (cases "i \<le> end")
    case True
    have w: "wrap64 (i + step) = i + step" using "1.prems" True by (intro wrap64_id) (simp add: int64_range_def)
    have IH: "step_loop (i + step) end step = filter (\<lambda>v. step dvd v - (i + step)) [i + step..end]"
      using 1 True w by simp
    have split: "[i + 1..end] = [i + 1..i + step - 1] @ [i + step..end]" if "i + step \<le> end"
      using upto_split1 [of "i + 1" "i + step" "end"] that "1.prems" by simp
    have none: "filter (\<lambda>v. step dvd v - i) [i + 1..j] = []" if "j \<le> i + step - 1" for j
      using that by (auto simp: filter_empty_conv dest: zdvd_imp_le)
    have "filter (\<lambda>v. step dvd v - i) [i + 1..end] = filter (\<lambda>v. step dvd v - (i + step)) [i + step..end]"
    proof (cases "i + step \<le> end")
      case True
      have "step dvd v - i \<longleftrightarrow> step dvd v - (i + step)" for v
        using dvd_add_right_iff [of step step "v - (i + step)"] by simp
      then show ?thesis using none [of "i + step - 1"] by (simp add: split [OF True])
    qed (use none [of "end"] in simp)
    then show ?thesis using "1.prems" True w IH by (simp add: step_loop.simps [of i "end" step] upto_rec1)
  qed (simp add: step_loop.simps)
qed

lemma append_value_wf:
  "field_wf low high f \<Longrightarrow> (\<And>v. v \<in> set vs \<Longrightarrow> low \<le> v \<and> v \<le> high) \<Longrightarrow> field_wf low high (append_value f vs)"
  by (auto simp: field_wf_def append_value_def)

lemma step_loop_range:
  assumes "0 < step" "step < 2 ^ 63 - 60" "end < 60" "0 \<le> i" "v \<in> set (step_loop i end step)"
  shows "i \<le> v" "v \<le> end"
  using assms(5) by (auto simp: step_loop_filter [OF assms(1-4)])

lemma short_step:
  assumes "Atoi p = Some step" "length p \<le> 18"
  shows "step < 2 ^ 63 - 60"
proof -
  have "step < 10 ^ length p" by (rule Atoi_less [OF assms(1)])
  also have "\<dots> \<le> 10 ^ 18" using assms(2) by (rule power_increasing) simp
  finally show ?thesis by simp
qed

lemma parseStepField_wf:
  assumes "parseStepField s low high f = Inr g" "length s \<le> 18" "field_wf low high f" "0 \<le> low" "high < 60"
  shows "field_wf low high g"
proof -
  let ?ps = "Split_char CHR ''/'' s"
  obtain step where step: "Atoi (?ps ! 1) = Some step" "0 < step" and l: "length ?ps = 2"
    using assms(1) by (auto simp: parseStepField_def Let_def split: if_splits option.splits)
  have "?ps ! 1 \<in> set ?ps" using l by simp
  then have "length (?ps ! 1) \<le> 18" using assms(2) length_Split_char_part by (meson le_trans)
  with step have b: "step < 2 ^ 63 - 60" by (blast intro: short_step)
  obtain start e where g: "g = append_value f (step_loop start e step)" "low \<le> start" "e \<le> high"
    using assms(1) step l by (auto simp: parseStepField_def Let_def split: if_splits option.splits)
  show ?thesis unfolding g(1)
  proof (rule append_value_wf [OF assms(3)])
    fix v assume "v \<in> set (step_loop start e step)"
    then have "start \<le> v" "v \<le> e" using step_loop_range [OF step(2) b, of e start v] g assms(4,5) by auto
    then show "low \<le> v \<and> v \<le> high" using g by simp
  qed
qed

lemma parseRangeField_wf:
  "parseRangeField s low high f = Inr g \<Longrightarrow> field_wf low high f \<Longrightarrow> field_wf low high g"
  by (auto simp: parseRangeField_def Let_def intro!: append_value_wf split: if_splits option.splits)

lemma parse_list_parts_wf:
  "parse_list_parts ps low high f = Inr g \<Longrightarrow> field_wf low high f \<Longrightarrow> field_wf low high g"
proof (induction ps arbitrary: f)
  case (Cons p ps)
  then obtain v where "low \<le> v" "v \<le> high" "parse_list_parts ps low high (append_value f [v]) = Inr g"
    by (auto simp: linorder_not_less split: if_splits option.splits)
  moreover from this have "field_wf low high (append_value f [v])"
    using Cons.prems(2) by (intro append_value_wf) auto
  ultimately show ?case using Cons.IH by blast
qed simp

lemma parseSingleField_wf:
  "parseSingleField s low high f = Inr g \<Longrightarrow> field_wf low high f \<Longrightarrow> field_wf low high g"
  by (auto simp: parseSingleField_def intro!: append_value_wf split: if_splits option.splits)

lemma parse_by_kind_wf:
  assumes "parse_by_kind s low high f = Inr g" "length s \<le> 18" "field_wf low high f" "0 \<le> low" "high < 60"
  shows "field_wf low high g"
  using assms parseStepField_wf [OF _ assms(2-5)] parseRangeField_wf parse_list_parts_wf parseSingleField_wf
  by (auto simp: parse_by_kind_def parseListField_def split: if_splits)

lemma empty_field_wf: "field_wf low high \<lparr>cf_Min = low, cf_Max = high, cf_Values = []\<rparr>"
  by (simp add: field_wf_def)

lemma parseCronField_wf:
  assumes "parseCronField s low high = Inr g" "length s \<le> 18" "0 \<le> low" "high < 60"
  shows "field_wf low high g"
  using assms parse_by_kind_wf [OF _ assms(2) empty_field_wf assms(3,4)]
  by (auto simp: parseCronField_def Let_def intro!: append_value_wf empty_field_wf split: if_splits)

text \<open>The replacement of a name by its number never makes a field longer.\<close>

definition short_names :: "(string \<times> int) list \<Rightarrow> bool" where
  "short_names names \<longleftrightarrow> (\<forall>(n, v) \<in> set names. length (Itoa v) \<le> length n)"

lemma length_normalizeFieldNames:
  assumes "short_names names"
  shows "length (normalizeFieldNames s (Some names)) \<le> length s"
proof -
  have "length (fold (\<lambda>(name, v) result. ReplaceAll result name (Itoa v)) names s) \<le> length s"
    using assms
  proof (induction names arbitrary: s)
    case (Cons p names)
    obtain n v where p: "p = (n, v)" by (cases p)
    with Cons.prems have "length (ReplaceAll s n (Itoa v)) \<le> length s"
      by (intro length_ReplaceAll) (simp add: short_names_def)
    moreover have "short_names names" using Cons.prems by (simp add: short_names_def)
    note Cons.IH [OF this, of "ReplaceAll s n (Itoa v)"]
    ultimately show ?case by (simp add: p)
  qed simp
  then show ?thesis by (simp add: normalizeFieldNames_def)
qed

lemma parseCronFieldWithNames_wf:
  assumes "parseCronFieldWithNames s low high nm = Inr g" "length s \<le> 18" "0 \<le> low" "high < 60"
    "\<And>names. nm = Some names \<Longrightarrow> short_names names"
  shows "field_wf low high g"
proof -
  have "length (normalizeFieldNames s nm) \<le> 18"
    using assms(2) assms(5) length_normalizeFieldNames [of _ s]
    by (cases nm) (auto simp: normalizeFieldNames_def intro: le_trans)
  then show ?thesis
    using assms(1) parse_by_kind_wf [OF _ _ empty_field_wf assms(3,4)]
    by (auto simp: parseCronFieldWithNames_def Let_def intro!: append_value_wf empty_field_wf split: if_splits)
qed

lemma cron_sort_wf: "field_wf low high f \<Longrightarrow> field_wf low high (cron_sort f)" "sorted (cf_Values (cron_sort f))"
  by (simp_all add: field_wf_def cron_sort_def)

lemma bind_err_Inr: "bind_err r k = Inr b \<longleftrightarrow> (\<exists>a. r = Inr a \<and> k a = Inr b)"
  by (cases r) auto

lemma wrap_err_Inr: "wrap_err m r = Inr a \<longleftrightarrow> r = Inr a"
  by (cases r) auto

lemma parse_fields_wf:
  assumes "parse_fields mons dys flds = Inr e" "\<And>f. f \<in> set flds \<Longrightarrow> length f \<le> 18"
    "short_names mons" "short_names dys"
  shows "cron_wf e"
proof -
  have len: "length flds = 5 \<or> length flds = 6"
    using assms(1) by (auto simp: parse_fields_def split: if_splits)
  define off where "off = (if length flds = 6 then 1 else 0 :: nat)"
  have sh: "\<And>k. k < length flds \<Longrightarrow> length (flds ! k) \<le> 18" using assms(2) nth_mem by blast
  then have sh': "length (flds ! off) \<le> 18" "length (flds ! (off + 1)) \<le> 18" "length (flds ! (off + 2)) \<le> 18"
    "length (flds ! (off + 3)) \<le> 18" "length (flds ! (off + 4)) \<le> 18"
    using len by (auto simp: off_def)
  obtain sec mi hr dy mo dw where p:
    "length flds = 6 \<and> (\<exists>f. parseCronField (flds ! 0) 0 59 = Inr f \<and> sec = Some f) \<or> sec = None"
    "parseCronField (flds ! off) 0 59 = Inr mi" "parseCronField (flds ! (off + 1)) 0 23 = Inr hr"
    "parseCronFieldWithNames (flds ! (off + 2)) 1 31 None = Inr dy"
    "parseCronFieldWithNames (flds ! (off + 3)) 1 12 (Some mons) = Inr mo"
    "parseCronFieldWithNames (flds ! (off + 4)) 0 6 (Some dys) = Inr dw"
    "e = \<lparr>ce_Second = map_option cron_sort sec, ce_Minute = cron_sort mi, ce_Hour = cron_sort hr,
          ce_Day = cron_sort dy, ce_Month = cron_sort mo, ce_DayOfWeek = cron_sort dw\<rparr>"
    using assms(1) len
    by (auto simp: parse_fields_def Let_def bind_err_Inr wrap_err_Inr off_def [symmetric] split: if_splits)
      (metis option.simps(9))
  have "field_wf 0 59 mi" "field_wf 0 23 hr" "field_wf 1 31 dy" "field_wf 1 12 mo" "field_wf 0 6 dw"
    using p(2-6) sh' assms(3,4) by (auto elim!: parseCronField_wf parseCronFieldWithNames_wf)
  moreover have "\<And>f. sec = Some f \<Longrightarrow> field_wf 0 59 f"
    using p(1) sh [of 0] len by (auto elim!: parseCronField_wf)
  ultimately show ?thesis by (auto simp: cron_wf_def p(7) cron_sort_wf)
qed

lemma ParseCronSpec_preset: "map_of Presets s = Some p \<Longrightarrow> ParseCronSpec mons dys s = parse_fields mons dys (Fields p)"
  by (simp add: ParseCronSpec.simps [of mons dys s] ParseCronSpec.simps [of mons dys p] Presets_not_preset)

lemma Presets_short: "list_all (\<lambda>(s, p). list_all (\<lambda>f. length f \<le> 18) (Fields p)) Presets"
  by code_simp

lemma ParseCronSpec_wf:
  assumes "ParseCronSpec mons dys spec = Inr e" "\<And>f. f \<in> set (Fields spec) \<Longrightarrow> length f \<le> 18"
    "short_names mons" "short_names dys"
  shows "cron_wf e"
proof (cases "map_of Presets spec")
  case None
  then show ?thesis
    using assms parse_fields_wf [of mons dys "Fields spec" e] by (simp add: ParseCronSpec.simps [of mons dys spec])
next
  case (Some p)
  have "list_all (\<lambda>f. length f \<le> 18) (Fields p)"
    using Presets_short map_of_SomeD [OF Some] by (auto simp: list_all_iff)
  then show ?thesis
    using assms(1,3,4) parse_fields_wf [of mons dys "Fields p" e]
    by (auto simp: ParseCronSpec_preset [OF Some] list_all_iff)
qed

lemma short_names_tables: "mset mons = mset Months \<Longrightarrow> short_names mons" "mset dys = mset Days \<Longrightarrow> short_names dys"
proof -
  have *: "list_all (\<lambda>(n, v). length (Itoa v) \<le> length n) Months" "list_all (\<lambda>(n, v). length (Itoa v) \<le> length n) Days"
    by code_simp+
  show "mset mons = mset Months \<Longrightarrow> short_names mons" "mset dys = mset Days \<Longrightarrow> short_names dys"
    using * by (auto simp: short_names_def list_all_iff dest!: mset_eq_setD)
qed

section \<open>The search finds the least candidate\<close>

text \<open>\<open>least_opt A r\<close>: \<open>r\<close> is the least element of \<open>A\<close>, or \<open>None\<close> when \<open>A\<close> is empty.\<close>

definition least_opt :: "'a::linorder set \<Rightarrow> 'a option \<Rightarrow> bool" where
  "least_opt A r \<longleftrightarrow> (case r of None \<Rightarrow> A = {} | Some a \<Rightarrow> a \<in> A \<and> (\<forall>b \<in> A. a \<le> b))"

lemma least_opt_empty: "least_opt {} None"
  by (simp add: least_opt_def)

lemma least_opt_single: "least_opt {a} (Some a)"
  by (simp add: least_opt_def)

lemma least_optD:
  assumes "least_opt A (Some a)"
  shows "a \<in> A" "b \<in> A \<Longrightarrow> a \<le> b"
  using assms by (auto simp: least_opt_def)

lemma least_opt_None_iff: "least_opt A r \<Longrightarrow> r = None \<longleftrightarrow> A = {}"
  by (cases r) (auto simp del: split_paired_Ex dest: least_optD simp: least_opt_def)

lemma least_opt_or_else:
  assumes "least_opt A r" "least_opt B r'" "\<And>a b. a \<in> A \<Longrightarrow> b \<in> B \<Longrightarrow> a \<le> b"
  shows "least_opt (A \<union> B) (case r of None \<Rightarrow> r' | Some x \<Rightarrow> Some x)"
  using assms by (auto simp: least_opt_def split: option.splits)

lemma findNextValidValue_spec:
  assumes "sorted (cf_Values f)"
  shows "findNextValidValue f v = None \<Longrightarrow> fieldMatches f w \<Longrightarrow> w < v"
    and "findNextValidValue f v = Some n \<Longrightarrow> fieldMatches f n \<and> v \<le> n \<and> (\<forall>w. fieldMatches f w \<longrightarrow> v \<le> w \<longrightarrow> n \<le> w)"
proof -
  show "findNextValidValue f v = None \<Longrightarrow> fieldMatches f w \<Longrightarrow> w < v"
    by (auto simp: findNextValidValue_def find_None_iff fieldMatches_def linorder_not_le)
  assume n: "findNextValidValue f v = Some n"
  then obtain i where i: "i < length (cf_Values f)" "v \<le> cf_Values f ! i" "n = cf_Values f ! i"
    and before: "\<And>j. j < i \<Longrightarrow> \<not> v \<le> cf_Values f ! j"
    by (auto simp: findNextValidValue_def find_Some_iff)
  have "n \<le> w" if w: "fieldMatches f w" "v \<le> w" for w
  proof -
    obtain j where j: "j < length (cf_Values f)" "w = cf_Values f ! j"
      using w(1) by (auto simp: fieldMatches_def in_set_conv_nth)
    have "i \<le> j" using before [of j] w(2) j by (auto simp: linorder_not_less [symmetric])
    then show ?thesis using assms i j by (simp add: sorted_nth_mono)
  qed
  with i show "fieldMatches f n \<and> v \<le> n \<and> (\<forall>w. fieldMatches f w \<longrightarrow> v \<le> w \<longrightarrow> n \<le> w)"
    by (auto simp: fieldMatches_def)
qed

lemma findFirstValidValue_le: "sorted (cf_Values f) \<Longrightarrow> fieldMatches f v \<Longrightarrow> findFirstValidValue f \<le> v"
  by (cases "cf_Values f") (auto simp: findFirstValidValue_def fieldMatches_def)

lemma field_loop_past: "x > mx \<Longrightarrow> field_loop f mx body x = None"
  by (simp add: field_loop.simps [of f mx body x])

lemma field_loop_least:
  fixes S :: "int \<Rightarrow> 'a::linorder set"
  assumes sorted: "sorted (cf_Values f)"
    and body: "\<And>v. fieldMatches f v \<Longrightarrow> x \<le> v \<Longrightarrow> v \<le> mx \<Longrightarrow> least_opt (S v) (body v)"
    and mono: "\<And>v w a b. v < w \<Longrightarrow> a \<in> S v \<Longrightarrow> b \<in> S w \<Longrightarrow> a \<le> b"
  shows "least_opt (\<Union>v \<in> {v. fieldMatches f v \<and> x \<le> v \<and> v \<le> mx}. S v) (field_loop f mx body x)"
  using body
proof (induction "nat (mx + 1 - x)" arbitrary: x rule: less_induct)
  case less
  show ?case
  proof (cases "x > mx")
    case True
    then have e: "{v. fieldMatches f v \<and> x \<le> v \<and> v \<le> mx} = {}" by auto
    show ?thesis unfolding e using True by (simp add: field_loop.simps [of f mx body x] least_opt_empty)
  next
    case False
    let ?R = "\<Union>v \<in> {v. fieldMatches f v \<and> x + 1 \<le> v \<and> v \<le> mx}. S v"
    let ?X = "if fieldMatches f x then S x else {}"
    let ?rest = "case findNextValidValue f (x + 1) of None \<Rightarrow> None | Some n \<Rightarrow> field_loop f mx body n"
    have rest: "least_opt ?R ?rest"
    proof (cases "findNextValidValue f (x + 1)")
      case None
      have e: "{v. fieldMatches f v \<and> x + 1 \<le> v \<and> v \<le> mx} = {}"
        using findNextValidValue_spec(1) [OF sorted None] by fastforce
      show ?thesis unfolding e using None by (simp add: least_opt_empty)
    next
      case (Some n)
      note n = findNextValidValue_spec(2) [OF sorted Some]
      then have "{v. fieldMatches f v \<and> x + 1 \<le> v \<and> v \<le> mx} = {v. fieldMatches f v \<and> n \<le> v \<and> v \<le> mx}"
        by auto
      moreover have "least_opt (\<Union>v \<in> {v. fieldMatches f v \<and> n \<le> v \<and> v \<le> mx}. S v) (field_loop f mx body n)"
        using n less.prems False by (intro less.hyps) auto
      ultimately show ?thesis using Some by simp
    qed
    have "least_opt ?X (if fieldMatches f x then body x else None)"
      using less.prems [of x] False by (simp add: least_opt_empty)
    then have "least_opt (?X \<union> ?R) (case (if fieldMatches f x then body x else None) of None \<Rightarrow> ?rest | Some r \<Rightarrow> Some r)"
    proof (rule least_opt_or_else [OF _ rest])
      fix a b assume "a \<in> ?X" "b \<in> ?R"
      then obtain w where "x + 1 \<le> w" "a \<in> S x" "b \<in> S w" by (auto split: if_splits)
      then show "a \<le> b" by (intro mono [of x w]) simp_all
    qed
    moreover have "?X \<union> ?R = (\<Union>v \<in> {v. fieldMatches f v \<and> x \<le> v \<and> v \<le> mx}. S v)"
      using False by (auto simp: le_less split: if_splits)
    ultimately show ?thesis using False by (simp add: field_loop.simps [of f mx body x])
  qed
qed

text \<open>A level of the search: from its start value through its loop.\<close>

lemma level_least:
  fixes S :: "int \<Rightarrow> 'a::linorder set"
  assumes sorted: "sorted (cf_Values f)"
    and body: "\<And>v. fieldMatches f v \<Longrightarrow> v \<le> mx \<Longrightarrow> (same \<Longrightarrow> tv \<le> v) \<Longrightarrow> least_opt (S v) (body v)"
    and mono: "\<And>v w a b. v < w \<Longrightarrow> a \<in> S v \<Longrightarrow> b \<in> S w \<Longrightarrow> a \<le> b"
    and A: "A = (\<Union>v \<in> {v. fieldMatches f v \<and> v \<le> mx \<and> (same \<longrightarrow> tv \<le> v)}. S v)"
  shows "least_opt A (case findNextValidValue f (start_value f same tv) of
      None \<Rightarrow> None | Some n \<Rightarrow> field_loop f mx body n)"
proof -
  let ?s = "start_value f same tv"
  have s: "fieldMatches f v \<Longrightarrow> ?s \<le> v \<longleftrightarrow> (same \<longrightarrow> tv \<le> v)" for v
    using findFirstValidValue_le [OF sorted] by (auto simp: start_value_def)
  show ?thesis
  proof (cases "findNextValidValue f ?s")
    case None
    then have e: "{v. fieldMatches f v \<and> v \<le> mx \<and> (same \<longrightarrow> tv \<le> v)} = {}"
      using findNextValidValue_spec(1) [OF sorted None] s by fastforce
    show ?thesis unfolding A e using None by (simp add: least_opt_empty)
  next
    case (Some n)
    note n = findNextValidValue_spec(2) [OF sorted Some]
    have "least_opt (\<Union>v \<in> {v. fieldMatches f v \<and> n \<le> v \<and> v \<le> mx}. S v) (field_loop f mx body n)"
      using n s by (intro field_loop_least [OF sorted _ mono] body) (auto intro: order_trans)
    moreover have "{v. fieldMatches f v \<and> n \<le> v \<and> v \<le> mx} = {v. fieldMatches f v \<and> v \<le> mx \<and> (same \<longrightarrow> tv \<le> v)}"
      using n s by (auto intro: order_trans)
    ultimately show ?thesis using Some by (simp add: A)
  qed
qed

lemma field_loop_next:
  assumes "sorted (cf_Values f)"
  shows "field_loop f mx body x =
    (case findNextValidValue f x of None \<Rightarrow> None | Some n \<Rightarrow> field_loop f mx body n)"
proof (cases "fieldMatches f x")
  case True
  then have "findNextValidValue f x = Some x"
    using findNextValidValue_spec [OF assms, of x] by (cases "findNextValidValue f x") (auto intro: antisym)
  then show ?thesis by simp
next
  case False
  then have "v \<ge> x \<longleftrightarrow> v \<ge> x + 1" if "v \<in> set (cf_Values f)" for v using that by (auto simp: fieldMatches_def le_less)
  then have "findNextValidValue f x = findNextValidValue f (x + 1)"
    unfolding findNextValidValue_def by (intro find_cong) auto
  moreover have "field_loop f mx body n = None" if "findNextValidValue f (x + 1) = Some n" "x > mx" for n
    using findNextValidValue_ge [OF that(1)] that(2) by (simp add: field_loop.simps [of f mx body n])
  ultimately show ?thesis using False
    by (auto simp: field_loop.simps [of f mx body x] split: option.split)
qed

lemma day_loop_field_loop:
  assumes "sorted (cf_Values (ce_Day expr))"
  shows "day_loop expr t year month mx day =
    field_loop (ce_Day expr) mx (\<lambda>d. if dow_matches expr year month d then hour_search expr t year month d else None) day"
proof (induction "nat (mx + 1 - day)" arbitrary: day rule: less_induct)
  case less
  let ?f = "ce_Day expr"
  let ?body = "\<lambda>d. if dow_matches expr year month d then hour_search expr t year month d else None"
  show ?case
  proof (cases "day > mx")
    case True
    then show ?thesis by (simp add: day_loop.simps [of _ _ _ _ _ day] field_loop.simps [of _ _ _ day])
  next
    case False
    show ?thesis
    proof (cases "fieldMatches ?f day \<and> \<not> dow_matches expr year month day")
      case True
      have "day_loop expr t year month mx day = field_loop ?f mx ?body (day + 1)"
        using less.hyps [of "day + 1"] False True by (simp add: day_loop.simps [of _ _ _ _ _ day])
      also have "\<dots> = field_loop ?f mx ?body day"
        using False True by (subst field_loop_next [OF assms]) (simp add: field_loop.simps [of _ _ _ day])
      finally show ?thesis .
    next
      case dow: False
      have "(case findNextValidValue ?f (day + 1) of None \<Rightarrow> None
          | Some n \<Rightarrow> if n > mx then None else day_loop expr t year month mx n) =
        (case findNextValidValue ?f (day + 1) of None \<Rightarrow> None | Some n \<Rightarrow> field_loop ?f mx ?body n)"
        using less.hyps False
        by (auto simp: field_loop_past dest: findNextValidValue_ge split: option.split)
      then show ?thesis
        using dow False by (auto simp: day_loop.simps [of _ _ _ _ _ day] field_loop.simps [of _ _ _ day] split: option.split)
    qed
  qed
qed

section \<open>The candidates\<close>

fun cron_matches :: "CronExpression \<Rightarrow> civil \<Rightarrow> bool" where
  "cron_matches e (y, mo, d, h, mi, s) \<longleftrightarrow>
     fieldMatches (ce_Month e) mo \<and> fieldMatches (ce_Day e) d \<and> dow_matches e y mo d \<and>
     fieldMatches (ce_Hour e) h \<and> fieldMatches (ce_Minute e) mi \<and>
     (case ce_Second e of None \<Rightarrow> s = 0 | Some f \<Rightarrow> fieldMatches f s)"

definition candidates :: "CronExpression \<Rightarrow> civil \<Rightarrow> civil set" where
  "candidates e t = {c. valid_civil c \<and> cron_matches e c \<and> t \<le> c}"

lemma candidates_minute:
  assumes "(y, mo, d, h, mi, s) \<in> candidates e (ty, tmo, td, th, tmi, ts)"
  shows "fieldMatches (ce_Minute e) mi \<and> mi \<le> 59 \<and> (y = ty \<and> mo = tmo \<and> d = td \<and> h = th \<longrightarrow> tmi \<le> mi)"
  using assms by (simp add: candidates_def) linarith

lemma candidates_hour:
  assumes "(y, mo, d, h, mi, s) \<in> candidates e (ty, tmo, td, th, tmi, ts)"
  shows "fieldMatches (ce_Hour e) h \<and> h \<le> 23 \<and> (y = ty \<and> mo = tmo \<and> d = td \<longrightarrow> th \<le> h)"
  using assms by (simp add: candidates_def) linarith

lemma candidates_day:
  assumes "(y, mo, d, h, mi, s) \<in> candidates e (ty, tmo, td, th, tmi, ts)"
  shows "fieldMatches (ce_Day e) d \<and> d \<le> days_in_month y mo \<and> (y = ty \<and> mo = tmo \<longrightarrow> td \<le> d)"
  using assms by (simp add: candidates_def) linarith

lemma candidates_month:
  assumes "(y, mo, d, h, mi, s) \<in> candidates e (ty, tmo, td, th, tmi, ts)"
  shows "fieldMatches (ce_Month e) mo \<and> mo \<le> 12 \<and> (y = ty \<longrightarrow> tmo \<le> mo)"
  using assms by (simp add: candidates_def) linarith

text \<open>The search below a prefix, from the seconds up; \<open>t\<close> is the first instant allowed.\<close>

lemma second_search_least:
  assumes wf: "cron_wf e" "ce_Second e = Some f" and t: "t = (ty, tmo, td, th, tmi, ts)"
    and pre: "(ty, tmo, td, th, tmi) \<le> (y, mo, d, h, mi)"
    and m: "valid_civil (y, mo, d, h, mi, 0)" "fieldMatches (ce_Month e) mo" "fieldMatches (ce_Day e) d"
      "dow_matches e y mo d" "fieldMatches (ce_Hour e) h" "fieldMatches (ce_Minute e) mi"
  shows "least_opt {c \<in> candidates e t. \<exists>s. c = (y, mo, d, h, mi, s)} (second_search f t y mo d h mi)"
proof -
  have sorted: "sorted (cf_Values f)" and r: "\<And>v. fieldMatches f v \<Longrightarrow> 0 \<le> v \<and> v \<le> 59"
    using wf by (auto simp: cron_wf_def field_wf_def fieldMatches_def)
  show ?thesis
    unfolding second_search_def t Let_def prod.case
    by (rule level_least [OF sorted, where S = "\<lambda>s. {(y, mo, d, h, mi, s)}"])
      (use pre m r wf(2) in \<open>auto simp: candidates_def least_opt_single\<close>)
qed

lemma minute_search_least:
  assumes wf: "cron_wf e" and t: "t = (ty, tmo, td, th, tmi, ts)" "ce_Second e = None \<Longrightarrow> ts = 0"
    and pre: "(ty, tmo, td, th) \<le> (y, mo, d, h)"
    and m: "valid_civil (y, mo, d, h, 0, 0)" "fieldMatches (ce_Month e) mo" "fieldMatches (ce_Day e) d"
      "dow_matches e y mo d" "fieldMatches (ce_Hour e) h"
  shows "least_opt {c \<in> candidates e t. \<exists>mi s. c = (y, mo, d, h, mi, s)} (minute_search e t y mo d h)"
proof -
  let ?S = "\<lambda>mi. {c \<in> candidates e t. \<exists>s. c = (y, mo, d, h, mi, s)}"
  have sorted: "sorted (cf_Values (ce_Minute e))" and r: "\<And>v. fieldMatches (ce_Minute e) v \<Longrightarrow> 0 \<le> v \<and> v \<le> 59"
    using wf by (auto simp: cron_wf_def field_wf_def fieldMatches_def)
  have eq: "minute_search e t y mo d h =
      (case findNextValidValue (ce_Minute e) (start_value (ce_Minute e) (y = ty \<and> mo = tmo \<and> d = td \<and> h = th) tmi) of
         None \<Rightarrow> None
       | Some n \<Rightarrow> field_loop (ce_Minute e) 59 (\<lambda>mi. case ce_Second e of None \<Rightarrow> Some (y, mo, d, h, mi, 0)
           | Some sec \<Rightarrow> second_search sec t y mo d h mi) n)"
    unfolding minute_search_def t(1) Let_def prod.case by (rule refl)
  show ?thesis
    unfolding eq
  proof (rule level_least [OF sorted, where S = ?S])
    fix v assume v: "fieldMatches (ce_Minute e) v" "v \<le> 59" "y = ty \<and> mo = tmo \<and> d = td \<and> h = th \<Longrightarrow> tmi \<le> v"
    show "least_opt (?S v) (case ce_Second e of None \<Rightarrow> Some (y, mo, d, h, v, 0) | Some sec \<Rightarrow> second_search sec t y mo d h v)"
    proof (cases "ce_Second e")
      case None
      have "?S v = {(y, mo, d, h, v, 0)}" using None t pre m v r by (auto simp: candidates_def)
      then show ?thesis using None by (simp add: least_opt_single)
    next
      case (Some f)
      have "(ty, tmo, td, th, tmi) \<le> (y, mo, d, h, v)"
        using pre v(3) by (cases "y = ty \<and> mo = tmo \<and> d = td \<and> h = th") (auto simp: le_less)
      from second_search_least [OF wf Some t(1) this] show ?thesis using Some m v r by simp
    qed
  qed (auto simp: t(1) dest: candidates_minute)
qed

lemma hour_search_least:
  assumes wf: "cron_wf e" and t: "t = (ty, tmo, td, th, tmi, ts)" "ce_Second e = None \<Longrightarrow> ts = 0"
    and pre: "(ty, tmo, td) \<le> (y, mo, d)"
    and m: "valid_date (y, mo, d)" "fieldMatches (ce_Month e) mo" "fieldMatches (ce_Day e) d" "dow_matches e y mo d"
  shows "least_opt {c \<in> candidates e t. \<exists>h mi s. c = (y, mo, d, h, mi, s)} (hour_search e t y mo d)"
proof -
  let ?S = "\<lambda>h. {c \<in> candidates e t. \<exists>mi s. c = (y, mo, d, h, mi, s)}"
  have sorted: "sorted (cf_Values (ce_Hour e))" and r: "\<And>v. fieldMatches (ce_Hour e) v \<Longrightarrow> 0 \<le> v \<and> v \<le> 23"
    using wf by (auto simp: cron_wf_def field_wf_def fieldMatches_def)
  have eq: "hour_search e t y mo d =
      (case findNextValidValue (ce_Hour e) (start_value (ce_Hour e) (y = ty \<and> mo = tmo \<and> d = td) th) of
         None \<Rightarrow> None | Some n \<Rightarrow> field_loop (ce_Hour e) 23 (minute_search e t y mo d) n)"
    unfolding hour_search_def t(1) Let_def prod.case by (rule refl)
  show ?thesis
    unfolding eq
  proof (rule level_least [OF sorted, where S = ?S])
    fix v assume v: "fieldMatches (ce_Hour e) v" "v \<le> 23" "y = ty \<and> mo = tmo \<and> d = td \<Longrightarrow> th \<le> v"
    have "(ty, tmo, td, th) \<le> (y, mo, d, v)"
      using pre v(3) by (cases "y = ty \<and> mo = tmo \<and> d = td") (auto simp: le_less)
    from minute_search_least [OF wf t this] show "least_opt (?S v) (minute_search e t y mo d v)"
      using m v r by simp
  qed (auto simp: t(1) dest: candidates_hour)
qed

lemma day_search_least:
  assumes wf: "cron_wf e" and t: "t = (ty, tmo, td, th, tmi, ts)" "ce_Second e = None \<Longrightarrow> ts = 0"
    and pre: "(ty, tmo) \<le> (y, mo)" and m: "fieldMatches (ce_Month e) mo"
  shows "least_opt {c \<in> candidates e t. \<exists>d h mi s. c = (y, mo, d, h, mi, s)} (day_search e t y mo)"
proof -
  let ?f = "ce_Day e" and ?mx = "days_in_month y mo"
  let ?S = "\<lambda>d. {c \<in> candidates e t. \<exists>h mi s. c = (y, mo, d, h, mi, s)}"
  let ?body = "\<lambda>d. if dow_matches e y mo d then hour_search e t y mo d else None"
  have sorted: "sorted (cf_Values ?f)" and r: "\<And>v. fieldMatches ?f v \<Longrightarrow> 1 \<le> v"
    and mo: "1 \<le> mo" "mo \<le> 12"
    using wf m by (auto simp: cron_wf_def field_wf_def fieldMatches_def)
  have eq: "day_search e t y mo =
      (case findNextValidValue ?f (start_value ?f (y = ty \<and> mo = tmo) td) of None \<Rightarrow> None
       | Some n \<Rightarrow> field_loop ?f ?mx ?body n)"
    unfolding day_search_def t(1) Let_def prod.case last_day_of_month [OF mo] snd_conv day_loop_field_loop [OF sorted]
    by (auto simp: field_loop_past split: option.split)
  show ?thesis
    unfolding eq
  proof (rule level_least [OF sorted, where S = ?S])
    fix v assume v: "fieldMatches ?f v" "v \<le> ?mx" "y = ty \<and> mo = tmo \<Longrightarrow> td \<le> v"
    show "least_opt (?S v) (?body v)"
    proof (cases "dow_matches e y mo v")
      case True
      have "(ty, tmo, td) \<le> (y, mo, v)"
        using pre v(3) by (cases "y = ty \<and> mo = tmo") (auto simp: le_less)
      from hour_search_least [OF wf t this] show ?thesis using True m v r mo by simp
    next
      case False
      then have "?S v = {}" by (auto simp: candidates_def)
      then show ?thesis using False by (simp add: least_opt_def)
    qed
  qed (auto simp: t(1) dest: candidates_day)
qed

lemma month_search_least:
  assumes wf: "cron_wf e" and t: "t = (ty, tmo, td, th, tmi, ts)" "ce_Second e = None \<Longrightarrow> ts = 0"
    and pre: "ty \<le> y"
  shows "least_opt {c \<in> candidates e t. fst c = y} (month_search e t y)"
proof -
  let ?S = "\<lambda>mo. {c \<in> candidates e t. \<exists>d h mi s. c = (y, mo, d, h, mi, s)}"
  have sorted: "sorted (cf_Values (ce_Month e))"
    using wf by (auto simp: cron_wf_def)
  have eq: "month_search e t y =
      (case findNextValidValue (ce_Month e) (start_value (ce_Month e) (y = ty) tmo) of
         None \<Rightarrow> None | Some n \<Rightarrow> field_loop (ce_Month e) 12 (day_search e t y) n)"
    unfolding month_search_def t(1) Let_def prod.case by (rule refl)
  show ?thesis
    unfolding eq
  proof (rule level_least [OF sorted, where S = ?S])
    fix v assume v: "fieldMatches (ce_Month e) v" "v \<le> 12" "y = ty \<Longrightarrow> tmo \<le> v"
    have "(ty, tmo) \<le> (y, v)" using pre v(3) by (cases "y = ty") (auto simp: le_less)
    from day_search_least [OF wf t this v(1)] show "least_opt (?S v) (day_search e t y v)" .
  qed (auto simp: t(1) dest: candidates_month)
qed

lemma year_loop_least:
  assumes wf: "cron_wf e" and t: "t = (ty, tmo, td, th, tmi, ts)" "ce_Second e = None \<Longrightarrow> ts = 0"
    and pre: "ty \<le> y"
  shows "least_opt {c \<in> candidates e t. y \<le> fst c \<and> fst c \<le> mx} (year_loop e t mx y)"
  using pre
proof (induction "nat (mx + 1 - y)" arbitrary: y rule: less_induct)
  case less
  show ?case
  proof (cases "y \<le> mx")
    case True
    have "least_opt ({c \<in> candidates e t. fst c = y} \<union> {c \<in> candidates e t. y + 1 \<le> fst c \<and> fst c \<le> mx})
        (case month_search e t y of None \<Rightarrow> year_loop e t mx (y + 1) | Some r \<Rightarrow> Some r)"
    proof (rule least_opt_or_else)
      show "least_opt {c \<in> candidates e t. fst c = y} (month_search e t y)"
        by (rule month_search_least [OF wf t less.prems])
      show "least_opt {c \<in> candidates e t. y + 1 \<le> fst c \<and> fst c \<le> mx} (year_loop e t mx (y + 1))"
        using less True by simp
    qed (auto simp: less_eq_prod_def)
    moreover have "{c \<in> candidates e t. fst c = y} \<union> {c \<in> candidates e t. y + 1 \<le> fst c \<and> fst c \<le> mx} =
        {c \<in> candidates e t. y \<le> fst c \<and> fst c \<le> mx}"
      using True by auto
    ultimately show ?thesis using True by (simp add: year_loop.simps [of e t mx y])
  next
    case False
    then have e: "{c \<in> candidates e t. y \<le> fst c \<and> fst c \<le> mx} = {}" by auto
    show ?thesis unfolding e using False by (simp add: year_loop.simps [of e t mx y] least_opt_empty)
  qed
qed

section \<open>The next run of a specification\<close>

lemma Truncate_next_le_iff:
  assumes "0 < d" "r mod d = 0"
  shows "Truncate a d + d \<le> r \<longleftrightarrow> a < r"
proof -
  have b: "0 \<le> a mod d" "a mod d < d" using assms(1) by simp_all
  have "d dvd r - (a - a mod d)" using assms(2) by (simp add: dvd_diff mod_0_imp_dvd minus_mod_eq_mult_div)
  then obtain k where k: "r - (a - a mod d) = d * k" by blast
  have "0 < k \<longleftrightarrow> a < r"
  proof
    assume "0 < k"
    then have "d * 1 \<le> d * k" using assms(1) by (intro mult_left_mono) simp_all
    then show "a < r" using k b by linarith
  next
    assume "a < r"
    then have "0 < d * k" using k b by linarith
    then show "0 < k" using assms(1) by (simp add: zero_less_mult_iff)
  qed
  moreover have "0 < k \<longleftrightarrow> d \<le> d * k" using assms(1) by (auto simp: mult_le_cancel_left1)
  moreover have "Truncate a d + d \<le> r \<longleftrightarrow> d \<le> d * k" unfolding k [symmetric] using assms(1) by (auto simp: Truncate_def)
  ultimately show ?thesis by simp
qed

lemma whole_minute_second:
  assumes "t mod minute = 0"
  shows "\<exists>y mo d h mi. to_civil t = (y, mo, d, h, mi, 0)"
proof -
  obtain k where "t = 60000000000 * k" using assms by (auto simp: mod_eq_0_iff_dvd dvd_def)
  then have "t div 1000000000 = 60 * k" by simp
  then have "t div 1000000000 mod 86400 mod 60 = 0" by (simp add: mod_mod_cancel)
  then show ?thesis by (simp add: to_civil_def Let_def split: prod.split)
qed

lemma of_civil_whole: "of_civil c mod second = 0" "of_civil (y, mo, d, h, mi, 0) mod minute = 0"
proof -
  show "of_civil c mod second = 0" by (cases c) (simp add: Date_def)
  have "Date y mo d h mi 0 = 60000000000 * (Date_day y mo d * 1440 + h * 60 + mi)" by (simp add: Date_def)
  then show "of_civil (y, mo, d, h, mi, 0) mod minute = 0" by simp
qed

lemma search_start_whole: "search_start e a mod second = 0" "ce_Second e = None \<Longrightarrow> search_start e a mod minute = 0"
proof -
  have "a - a mod 60000000000 + 60000000000 = 1000000000 * (60 * (a div 60000000000) + 60)"
    by (simp add: minus_mod_eq_mult_div)
  then have "1000000000 dvd a - a mod 60000000000 + 60000000000" by (metis dvd_triv_left)
  then show "search_start e a mod second = 0"
    by (auto simp: search_start_def Truncate_def mod_eq_0_iff_dvd dvd_minus_mod split: option.split)
  show "ce_Second e = None \<Longrightarrow> search_start e a mod minute = 0"
    by (simp add: search_start_def Truncate_def mod_eq_0_iff_dvd dvd_minus_mod)
qed

text \<open>The instants a run may have: whole seconds after \<open>a\<close> whose civil time matches.\<close>

definition run_at :: "CronExpression \<Rightarrow> time \<Rightarrow> time \<Rightarrow> bool" where
  "run_at e a r \<longleftrightarrow> a < r \<and> r mod second = 0 \<and> cron_matches e (to_civil r)"

lemma candidates_run_at: "c \<in> candidates e (to_civil (search_start e a)) \<longleftrightarrow> valid_civil c \<and> run_at e a (of_civil c)"
proof (cases "valid_civil c \<and> cron_matches e c")
  case True
  have "to_civil (search_start e a) \<le> c \<longleftrightarrow> search_start e a \<le> of_civil c"
    using of_civil_le_iff [OF to_civil_valid, of c "search_start e a"] True
    by (simp add: of_civil_to_civil search_start_whole(1) [simplified])
  also have "\<dots> \<longleftrightarrow> a < of_civil c"
  proof (cases "ce_Second e")
    case None
    obtain y mo d h mi s where c: "c = (y, mo, d, h, mi, s)" by (metis prod_cases6)
    with True None have "s = 0" by simp
    then have "of_civil c mod minute = 0" unfolding c by (simp only: of_civil_whole(2))
    then show ?thesis using Truncate_next_le_iff [of minute "of_civil c" a] None by (simp add: search_start_def)
  next
    case (Some f)
    then show ?thesis
      using Truncate_next_le_iff [of second "of_civil c" a] of_civil_whole(1) [of c] by (simp add: search_start_def)
  qed
  finally show ?thesis
    using True of_civil_whole(1) [of c] by (simp add: candidates_def run_at_def to_civil_of_civil)
next
  case False
  then show ?thesis by (auto simp: candidates_def run_at_def to_civil_of_civil)
qed

lemma next_run_least:
  assumes "cron_wf e" "t = to_civil (search_start e a)"
  shows "least_opt {c \<in> candidates e t. fst c \<le> fst t + 4} (year_loop e t (fst t + 4) (fst t))"
proof -
  obtain ty tmo td th tmi ts where t: "t = (ty, tmo, td, th, tmi, ts)" by (metis prod_cases6)
  have z: "ts = 0" if "ce_Second e = None"
    using whole_minute_second [OF search_start_whole(2) [OF that, of a]] t assms(2) by auto
  have "{c \<in> candidates e t. ty \<le> fst c \<and> fst c \<le> ty + 4} = {c \<in> candidates e t. fst c \<le> ty + 4}"
    by (auto simp: candidates_def t less_eq_prod_def)
  then show ?thesis using year_loop_least [OF assms(1) t z, of ty "ty + 4"] t by simp
qed

lemma next_run_spec:
  assumes "ParseCronSpec mons dys spec = Inr e" "mset mons = mset Months" "mset dys = mset Days"
    and "\<forall>f \<in> set (Fields spec). length f \<le> 18"
    and "calculateNextCronRun mons dys spec after = Inr r"
  shows "run_at e after r \<and> (\<forall>r'. run_at e after r' \<longrightarrow> r \<le> r')"
proof -
  let ?t = "to_civil (search_start e after)"
  have wf: "cron_wf e" using assms(1-4) by (auto intro: ParseCronSpec_wf short_names_tables)
  obtain c where c: "year_loop e ?t (fst ?t + 4) (fst ?t) = Some c" "r = of_civil c"
    using assms(1,5) by (auto simp: calculateNextCronRun_def Let_def split: option.splits)
  have l: "c \<in> candidates e ?t" "fst c \<le> fst ?t + 4"
    and least: "\<And>b. b \<in> candidates e ?t \<Longrightarrow> fst b \<le> fst ?t + 4 \<Longrightarrow> c \<le> b"
    using least_optD [OF next_run_least [OF wf refl, of after, unfolded c(1)]] by auto
  have v: "valid_civil c" "run_at e after r" using l(1) c(2) by (simp_all add: candidates_run_at)
  moreover have "r \<le> r'" if r': "run_at e after r'" for r'
  proof -
    let ?b = "to_civil r'"
    have b: "of_civil ?b = r'" using r' by (simp add: of_civil_to_civil run_at_def)
    then have "?b \<in> candidates e ?t" using r' by (simp add: candidates_run_at to_civil_valid)
    then have "c \<le> ?b" using least [of ?b] l(2) by (cases "fst ?b \<le> fst ?t + 4") (auto simp: less_eq_prod_def)
    then show ?thesis using of_civil_le_iff [OF v(1) to_civil_valid, of r'] b c(2) by simp
  qed
  ultimately show ?thesis by blast
qed

lemma next_run_error_iff:
  assumes "ParseCronSpec mons dys spec = Inr e" "mset mons = mset Months" "mset dys = mset Days"
    and "\<forall>f \<in> set (Fields spec). length f \<le> 18"
  shows "(\<exists>err. calculateNextCronRun mons dys spec after = Inl err) \<longleftrightarrow>
    (\<forall>r. run_at e after r \<longrightarrow> fst (to_civil (search_start e after)) + 4 < fst (to_civil r))"
proof -
  let ?t = "to_civil (search_start e after)"
  have wf: "cron_wf e" using assms by (auto intro: ParseCronSpec_wf short_names_tables)
  have "(\<exists>err. calculateNextCronRun mons dys spec after = Inl err) \<longleftrightarrow>
      year_loop e ?t (fst ?t + 4) (fst ?t) = None"
    using assms(1) by (auto simp: calculateNextCronRun_def Let_def split: option.split)
  also have "\<dots> \<longleftrightarrow> {c \<in> candidates e ?t. fst c \<le> fst ?t + 4} = {}"
    by (rule least_opt_None_iff [OF next_run_least [OF wf refl]])
  also have "\<dots> \<longleftrightarrow> (\<forall>r. run_at e after r \<longrightarrow> fst ?t + 4 < fst (to_civil r))"
  proof (intro iffI allI impI)
    fix r assume none: "{c \<in> candidates e ?t. fst c \<le> fst ?t + 4} = {}" and r: "run_at e after r"
    then have "of_civil (to_civil r) = r" by (simp add: of_civil_to_civil run_at_def)
    then have "to_civil r \<in> candidates e ?t" using r by (simp add: candidates_run_at to_civil_valid)
    then show "fst ?t + 4 < fst (to_civil r)" using none by fastforce
  next
    assume far: "\<forall>r. run_at e after r \<longrightarrow> fst ?t + 4 < fst (to_civil r)"
    have "fst ?t + 4 < fst c" if "c \<in> candidates e ?t" for c
      using that far [rule_format, of "of_civil c"] by (simp add: candidates_run_at to_civil_of_civil)
    then show "{c \<in> candidates e ?t. fst c \<le> fst ?t + 4} = {}" by fastforce
  qed
  finally show ?thesis .
qed

section \<open>Properties\<close>

text \<open>
  C3: The next run of a valid specification is the earliest one: whatever order the name tables are
  visited in, when \<open>calculateNextCronRun\<close> returns a time, that time is a whole second strictly after
  \<open>after\<close>, it matches every field of the parsed expression (month, day, weekday, hour, minute,
  second), and no matching instant lies between. The fields of the specification have at most 18
  characters, which keeps step values away from the 64-bit overflow.
\<close>
theorem cron_next_run_earliest:
  assumes "ParseCronSpec mons dys spec = Inr e" "mset mons = mset Months" "mset dys = mset Days"
    and "\<forall>f \<in> set (Fields spec). length f \<le> 18"
    and "calculateNextCronRun mons dys spec after = Inr r"
  shows "run_at e after r \<and> (\<forall>r'. run_at e after r' \<longrightarrow> r \<le> r')"
  using next_run_spec [OF assms] .

text \<open>
  C6: The search fails exactly when there is nothing to find within its horizon: for a valid
  specification \<open>calculateNextCronRun\<close> returns an error if and only if no matching instant after
  \<open>after\<close> falls in the year of the search start or the four years that follow. In particular it
  always terminates.
\<close>
theorem cron_next_run_complete:
  assumes "ParseCronSpec mons dys spec = Inr e" "mset mons = mset Months" "mset dys = mset Days"
    and "\<forall>f \<in> set (Fields spec). length f \<le> 18"
  shows "(\<exists>err. calculateNextCronRun mons dys spec after = Inl err) \<longleftrightarrow>
    (\<forall>r. run_at e after r \<longrightarrow> fst (to_civil (search_start e after)) + 4 < fst (to_civil r))"
  using next_run_error_iff [OF assms] .

definition demo_spec :: string where
  "demo_spec = ''*/15 9-17 ? JAN,JUL MON-FRI''"

definition demo_expr :: CronExpression where
  "demo_expr = (case ParseCronSpec Months Days demo_spec of Inr e \<Rightarrow> e | Inl _ \<Rightarrow> undefined)"

lemma demo_parse: "ParseCronSpec Months Days demo_spec = Inr demo_expr"
  by code_simp

lemma demo_short: "\<forall>f \<in> set (Fields demo_spec). length f \<le> 18"
  by code_simp

lemma demo_next: "calculateNextCronRun Months Days demo_spec (of_civil (2025, 11, 28, 8, 0, 0)) = Inr (of_civil (2026, 1, 1, 9, 0, 0))"
  by code_simp

lemma demo_runs: "run_at demo_expr (of_civil (2025, 11, 28, 8, 0, 0)) (of_civil (2026, 1, 1, 9, 15, 0))"
  by code_simp

theorem cron_next_run_earliest_witness:
  "run_at demo_expr (of_civil (2025, 11, 28, 8, 0, 0)) (of_civil (2026, 1, 1, 9, 0, 0)) \<and>
   of_civil (2026, 1, 1, 9, 0, 0) \<le> of_civil (2026, 1, 1, 9, 15, 0)"
  using cron_next_run_earliest [OF demo_parse refl refl demo_short demo_next] demo_runs by blast

definition leap_spec :: string where
  "leap_spec = ''0 0 29 FEB MON''"

definition leap_expr :: CronExpression where
  "leap_expr = (case ParseCronSpec Months Days leap_spec of Inr e \<Rightarrow> e | Inl _ \<Rightarrow> undefined)"

lemma leap_parse: "ParseCronSpec Months Days leap_spec = Inr leap_expr"
  by code_simp

lemma leap_short: "\<forall>f \<in> set (Fields leap_spec). length f \<le> 18"
  by code_simp

lemma leap_next: "calculateNextCronRun Months Days leap_spec (of_civil (2025, 11, 28, 8, 0, 0)) =
    Inl (NewError ''could not find next run time within reasonable limits'')"
  by code_simp

lemma leap_years: "fst (to_civil (search_start leap_expr (of_civil (2025, 11, 28, 8, 0, 0)))) = 2025"
    "fst (to_civil (of_civil (2028, 2, 29, 0, 0, 0))) = 2028"
  by code_simp+

theorem cron_next_run_complete_witness:
  "\<not> run_at leap_expr (of_civil (2025, 11, 28, 8, 0, 0)) (of_civil (2028, 2, 29, 0, 0, 0))"
  using cron_next_run_complete [OF leap_parse refl refl leap_short, of "of_civil (2025, 11, 28, 8, 0, 0)"] leap_next
    leap_years
  by fastforce

text \<open>
  Validation and scheduling disagree on rare dates: \<open>ValidateCronSpec\<close> accepts February 29 on a
  Monday and the specification has a run in 2044, but from the end of 2025 the search gives up with
  an error because it looks only four years ahead.
\<close>
theorem cron_horizon_too_short:
  "ValidateCronSpec Months Days leap_spec = None \<and>
   calculateNextCronRun Months Days leap_spec (of_civil (2025, 11, 28, 8, 0, 0)) =
     Inl (NewError ''could not find next run time within reasonable limits'') \<and>
   run_at leap_expr (of_civil (2025, 11, 28, 8, 0, 0)) (of_civil (2044, 2, 29, 0, 0, 0))"
proof (intro conjI)
  show "ValidateCronSpec Months Days leap_spec = None" by (simp add: ValidateCronSpec_def leap_parse)
  show "run_at leap_expr (of_civil (2025, 11, 28, 8, 0, 0)) (of_civil (2044, 2, 29, 0, 0, 0))" by code_simp
qed (rule leap_next)

text \<open>
  A step near the largest \<open>int\<close> makes the counter of the step loop wrap around: the minute field
  \<open>1/9223372036854775807\<close> is accepted and holds two negative minutes.
\<close>
lemma cron_step_overflow:
  "\<exists>e. ParseCronSpec Months Days ''1/9223372036854775807 * * * *'' = Inr e \<and>
     cf_Values (ce_Minute e) = [- 9223372036854775808, - 1, 1]"
proof -
  define r where "r = ParseCronSpec Months Days ''1/9223372036854775807 * * * *''"
  have "case r of Inr e \<Rightarrow> cf_Values (ce_Minute e) = [- 9223372036854775808, - 1, 1] | Inl _ \<Rightarrow> False"
    unfolding r_def by code_simp
  then show ?thesis by (auto simp: r_def split: sum.splits)
qed

text \<open>
  C23: What a parsed specification holds: in a specification whose fields have at most 18 characters each, every
  field that \<open>ParseCronSpec\<close> accepts carries its bounds, its values lie between them and are sorted, which
  the search relies on. For longer fields this fails (\<open>cron_step_overflow\<close>).
\<close>
theorem cron_parse_in_range:
  assumes "ParseCronSpec mons dys spec = Inr e" "mset mons = mset Months" "mset dys = mset Days"
    and "\<forall>f \<in> set (Fields spec). length f \<le> 18"
  shows "cron_wf e"
  using assms by (auto intro: ParseCronSpec_wf short_names_tables)

theorem cron_parse_in_range_witness: "cron_wf demo_expr"
  by (rule cron_parse_in_range [OF demo_parse refl refl demo_short])

lemma digit_chars_not:
  assumes "\<not> is_digit c" "0 \<le> n"
  shows "c \<notin> set (Itoa n)"
  using assms itoa_nat_digits [of c "nat n"] by (auto simp: Itoa_def)

lemma not_digits: "\<not> is_digit CHR ''/''" "\<not> is_digit CHR ''-''" "\<not> is_digit CHR ''*''"
  by (simp_all add: is_digit_def digit_val_def)

text \<open>
  C39: The range-with-step notation means what it says: for bounds within the field's limits and a step below
  10 to the 18 what is written as \<open>a-b/s\<close> parses to exactly the values \<open>a\<close>, \<open>a + s\<close>, \<open>a + 2s\<close>, \<dots> up to \<open>b\<close>.
\<close>
theorem cron_range_step_values:
  assumes "0 \<le> low" "low \<le> a" "a \<le> b" "b \<le> high" "high < 60" "0 < s" "s < 10 ^ 18"
  shows "parseCronField (Itoa a @ ''-'' @ Itoa b @ ''/'' @ Itoa s) low high =
    Inr \<lparr>cf_Min = low, cf_Max = high, cf_Values = filter (\<lambda>v. s dvd v - a) [a..b]\<rparr>"
proof -
  let ?r = "Itoa a @ ''-'' @ Itoa b"
  have nd: "CHR ''/'' \<notin> set ?r" "CHR ''/'' \<notin> set (Itoa s)" "CHR ''-'' \<notin> set (Itoa a)" "CHR ''-'' \<notin> set (Itoa b)"
    "CHR ''*'' \<notin> set (Itoa a)"
    using assms not_digits by (auto simp: digit_chars_not)
  have s1: "Split_char CHR ''/'' (?r @ ''/'' @ Itoa s) = [?r, Itoa s]"
    using Split_char_append [OF nd(1), of "Itoa s"] Split_char_single [OF nd(2)] by simp
  have s2: "Split_char CHR ''-'' ?r = [Itoa a, Itoa b]"
    using Split_char_append [OF nd(3), of "Itoa b"] Split_char_single [OF nd(4)] by simp
  have i: "Atoi (Itoa a) = Some a" "Atoi (Itoa b) = Some b" "Atoi (Itoa s) = Some s"
    using assms by (simp_all add: Atoi_Itoa int64_range_def)
  have star: "?r @ ''/'' @ Itoa s \<noteq> ''*''" "?r \<noteq> ''*''"
    by (auto simp: append_eq_Cons_conv)
  have "parseStepField (?r @ ''/'' @ Itoa s) low high \<lparr>cf_Min = low, cf_Max = high, cf_Values = []\<rparr> =
      Inr (append_value \<lparr>cf_Min = low, cf_Max = high, cf_Values = []\<rparr> (step_loop a b s))"
    using assms star(2) by (simp add: parseStepField_def Let_def s1 [simplified] s2 [simplified] i)
  moreover have "step_loop a b s = filter (\<lambda>v. s dvd v - a) [a..b]"
    using assms by (intro step_loop_filter) simp_all
  ultimately show ?thesis
    using star(1) by (simp add: parseCronField_def parse_by_kind_def append_value_def)
qed

theorem cron_range_step_values_witness:
  "parseCronField ''5-40/10'' 0 59 = Inr \<lparr>cf_Min = 0, cf_Max = 59, cf_Values = [5, 15, 25, 35]\<rparr>"
proof -
  have "Itoa 5 @ ''-'' @ Itoa 40 @ ''/'' @ Itoa 10 = ''5-40/10''" by code_simp
  moreover have "filter (\<lambda>v. 10 dvd v - 5) [5..40] = [5, 15, 25, 35 :: int]" by code_simp
  ultimately show ?thesis using cron_range_step_values [of 0 5 40 59 10] by simp
qed

end
