(* ===== verification/TaskScheduler.thy ===== *)
theory TaskScheduler
  imports Cron
begin

text \<open>
  The task scheduler (\<open>src/queue/task.go\<close>): registration of cron and interval tasks, the periodic
  check, the execution of one task with its retries, and the administration of tasks. Tasks are
  shared by pointer with the goroutines that run them, so they live in a store. What a task function
  returns and when contexts end is the environment of a run. Each operation reads the clock once;
  \<open>mons\<close> and \<open>dys\<close> are the orders in which the cron parser visits its name tables.
\<close>

section \<open>State\<close>

datatype TaskType = TaskTypeCron | TaskTypeInterval | TaskType_other int

fun TaskType_String :: "TaskType \<Rightarrow> string" where
  "TaskType_String TaskTypeCron = ''cron''"
| "TaskType_String TaskTypeInterval = ''interval''"
| "TaskType_String (TaskType_other n) = ''unknown''"

type_synonym tref = nat

record Task =
  t_ID :: string
  t_Name :: string
  t_Type :: TaskType
  t_CronSpec :: string
  t_Interval :: duration
  t_NextRun :: time
  t_LastRun :: time
  t_RunCount :: int
  t_ErrorCount :: int
  t_LastError :: string
  t_IsRunning :: bool
  t_MaxRetries :: int
  t_RetryDelay :: duration
  t_Timeout :: duration
  t_Enabled :: bool
  t_CreatedAt :: time
  t_UpdatedAt :: time

record TaskScheduler =
  ts_tasks :: "string \<rightharpoonup> tref"
  ts_store :: "tref \<Rightarrow> Task"
  ts_running :: bool
  ts_shutdown :: bool
  ts_checkInterval :: duration
  ts_defaultTimeout :: duration
  ts_defaultRetries :: int
  ts_retryDelay :: duration

record TaskOptions =
  to_MaxRetries :: int
  to_RetryDelay :: duration
  to_Timeout :: duration
  to_Enabled :: "bool option"

definition TaskOptions_zero :: TaskOptions where
  "TaskOptions_zero = \<lparr>to_MaxRetries = 0, to_RetryDelay = 0, to_Timeout = 0, to_Enabled = None\<rparr>"

datatype terr = TErr string | TCron string cron_err

definition NewTaskScheduler :: "(tref \<Rightarrow> Task) \<Rightarrow> TaskScheduler" where
  "NewTaskScheduler st = \<lparr>ts_tasks = Map.empty, ts_store = st, ts_running = False, ts_shutdown = False,
     ts_checkInterval = second * 10, ts_defaultTimeout = minute * 5, ts_defaultRetries = 3, ts_retryDelay = second * 5\<rparr>"

definition ts_WithCheckInterval :: "duration \<Rightarrow> TaskScheduler \<Rightarrow> TaskScheduler" where
  "ts_WithCheckInterval d s = (if d > 0 then s\<lparr>ts_checkInterval := d\<rparr> else s)"

definition ts_WithDefaultTimeout :: "duration \<Rightarrow> TaskScheduler \<Rightarrow> TaskScheduler" where
  "ts_WithDefaultTimeout d s = (if d > 0 then s\<lparr>ts_defaultTimeout := d\<rparr> else s)"

definition ts_WithDefaultRetries :: "int \<Rightarrow> TaskScheduler \<Rightarrow> TaskScheduler" where
  "ts_WithDefaultRetries n s = (if n \<ge> 0 then s\<lparr>ts_defaultRetries := n\<rparr> else s)"

definition ts_WithRetryDelay :: "duration \<Rightarrow> TaskScheduler \<Rightarrow> TaskScheduler" where
  "ts_WithRetryDelay d s = (if d > 0 then s\<lparr>ts_retryDelay := d\<rparr> else s)"

section \<open>Registration\<close>

text \<open>The task both registrations build; \<open>uid\<close> is the generated identifier, \<open>r\<close> the new task's address.\<close>

definition new_task :: "time \<Rightarrow> string \<Rightarrow> string \<Rightarrow> TaskType \<Rightarrow> string \<Rightarrow> duration \<Rightarrow> time \<Rightarrow> TaskOptions \<Rightarrow> TaskScheduler \<Rightarrow> Task" where
  "new_task now uid name type spec interval nextRun options s =
     \<lparr>t_ID = uid, t_Name = name, t_Type = type, t_CronSpec = spec, t_Interval = interval, t_NextRun = nextRun,
      t_LastRun = 0, t_RunCount = 0, t_ErrorCount = 0, t_LastError = [], t_IsRunning = False,
      t_MaxRetries = (if to_MaxRetries options > 0 then to_MaxRetries options else ts_defaultRetries s),
      t_RetryDelay = (if to_RetryDelay options > 0 then to_RetryDelay options else ts_retryDelay s),
      t_Timeout = (if to_Timeout options > 0 then to_Timeout options else ts_defaultTimeout s),
      t_Enabled = (case to_Enabled options of Some b \<Rightarrow> b | None \<Rightarrow> True),
      t_CreatedAt = now, t_UpdatedAt = now\<rparr>"

definition add_task :: "tref \<Rightarrow> string \<Rightarrow> Task \<Rightarrow> TaskScheduler \<Rightarrow> TaskScheduler" where
  "add_task r name t s = s\<lparr>ts_tasks := (ts_tasks s)(name \<mapsto> r), ts_store := (ts_store s)(r := t)\<rparr>"

definition already_exists :: "string \<Rightarrow> terr" where
  "already_exists name = TErr (''task with name '' @ [CHR 0x27] @ name @ [CHR 0x27] @ '' already exists'')"

definition RegisterCronTaskWithOptions ::
    "(string \<times> int) list \<Rightarrow> (string \<times> int) list \<Rightarrow> time \<Rightarrow> string \<Rightarrow> tref \<Rightarrow> string \<Rightarrow> string \<Rightarrow> bool \<Rightarrow> TaskOptions \<Rightarrow>
     TaskScheduler \<Rightarrow> terr option \<times> TaskScheduler" where
  "RegisterCronTaskWithOptions mons dys now uid r name cronSpec fn_nil options s =
     (if name = [] then (Some (TErr ''task name cannot be empty''), s)
      else if cronSpec = [] then (Some (TErr ''cron specification cannot be empty''), s)
      else if fn_nil then (Some (TErr ''task function cannot be nil''), s)
      else case ValidateCronSpec mons dys cronSpec of
        Some err \<Rightarrow> (Some (TCron ''invalid cron specification: '' err), s)
      | None \<Rightarrow>
          if ts_tasks s name \<noteq> None then (Some (already_exists name), s)
          else case calculateNextCronRun mons dys cronSpec now of
            Inl err \<Rightarrow> (Some (TCron ''failed to calculate next run time: '' err), s)
          | Inr nextRun \<Rightarrow>
              (None, add_task r name (new_task now uid name TaskTypeCron cronSpec 0 nextRun options s) s))"

definition RegisterIntervalTaskWithOptions ::
    "time \<Rightarrow> string \<Rightarrow> tref \<Rightarrow> string \<Rightarrow> duration \<Rightarrow> bool \<Rightarrow> TaskOptions \<Rightarrow> TaskScheduler \<Rightarrow> terr option \<times> TaskScheduler" where
  "RegisterIntervalTaskWithOptions now uid r name interval fn_nil options s =
     (if name = [] then (Some (TErr ''task name cannot be empty''), s)
      else if interval \<le> 0 then (Some (TErr ''interval must be positive''), s)
      else if fn_nil then (Some (TErr ''task function cannot be nil''), s)
      else if ts_tasks s name \<noteq> None then (Some (already_exists name), s)
      else (None, add_task r name (new_task now uid name TaskTypeInterval [] interval now options s) s))"

definition RegisterCronTask ::
    "(string \<times> int) list \<Rightarrow> (string \<times> int) list \<Rightarrow> time \<Rightarrow> string \<Rightarrow> tref \<Rightarrow> string \<Rightarrow> string \<Rightarrow> bool \<Rightarrow>
     TaskScheduler \<Rightarrow> terr option \<times> TaskScheduler" where
  "RegisterCronTask mons dys now uid r name cronSpec fn_nil s =
     RegisterCronTaskWithOptions mons dys now uid r name cronSpec fn_nil TaskOptions_zero s"

definition RegisterIntervalTask ::
    "time \<Rightarrow> string \<Rightarrow> tref \<Rightarrow> string \<Rightarrow> duration \<Rightarrow> bool \<Rightarrow> TaskScheduler \<Rightarrow> terr option \<times> TaskScheduler" where
  "RegisterIntervalTask now uid r name interval fn_nil s =
     RegisterIntervalTaskWithOptions now uid r name interval fn_nil TaskOptions_zero s"

section \<open>Life cycle and administration\<close>

definition ts_Start :: "TaskScheduler \<Rightarrow> terr option \<times> TaskScheduler" where
  "ts_Start s = (if ts_running s then (Some (TErr ''task scheduler is already running''), s) else (None, s\<lparr>ts_running := True\<rparr>))"

text \<open>\<open>None\<close>: the shutdown channel is closed a second time, which panics.\<close>

definition ts_Stop :: "TaskScheduler \<Rightarrow> TaskScheduler option" where
  "ts_Stop s =
     (if \<not> ts_running s then Some s
      else if ts_shutdown s then None
      else Some (s\<lparr>ts_running := False, ts_shutdown := True\<rparr>))"

definition not_found :: "string \<Rightarrow> terr" where
  "not_found name = TErr (''task '' @ [CHR 0x27] @ name @ [CHR 0x27] @ '' not found'')"

definition GetTask :: "string \<Rightarrow> TaskScheduler \<Rightarrow> terr + Task" where
  "GetTask name s = (case ts_tasks s name of None \<Rightarrow> Inl (not_found name) | Some r \<Rightarrow> Inr (ts_store s r))"

definition GetTasks :: "TaskScheduler \<Rightarrow> string \<rightharpoonup> Task" where
  "GetTasks s name = map_option (ts_store s) (ts_tasks s name)"

definition upd_task :: "tref \<Rightarrow> (Task \<Rightarrow> Task) \<Rightarrow> TaskScheduler \<Rightarrow> TaskScheduler" where
  "upd_task r f s = s\<lparr>ts_store := (ts_store s)(r := f (ts_store s r))\<rparr>"

definition EnableTask :: "time \<Rightarrow> string \<Rightarrow> TaskScheduler \<Rightarrow> terr option \<times> TaskScheduler" where
  "EnableTask now name s =
     (case ts_tasks s name of
        None \<Rightarrow> (Some (not_found name), s)
      | Some r \<Rightarrow> (None, upd_task r (\<lambda>t. t\<lparr>t_Enabled := True, t_UpdatedAt := now\<rparr>) s))"

definition DisableTask :: "time \<Rightarrow> string \<Rightarrow> TaskScheduler \<Rightarrow> terr option \<times> TaskScheduler" where
  "DisableTask now name s =
     (case ts_tasks s name of
        None \<Rightarrow> (Some (not_found name), s)
      | Some r \<Rightarrow> (None, upd_task r (\<lambda>t. t\<lparr>t_Enabled := False, t_UpdatedAt := now\<rparr>) s))"

definition RemoveTask :: "string \<Rightarrow> TaskScheduler \<Rightarrow> terr option \<times> TaskScheduler" where
  "RemoveTask name s =
     (case ts_tasks s name of
        None \<Rightarrow> (Some (not_found name), s)
      | Some r \<Rightarrow>
          if t_IsRunning (ts_store s r)
          then (Some (TErr (''cannot remove running task '' @ [CHR 0x27] @ name @ [CHR 0x27])), s)
          else (None, s\<lparr>ts_tasks := (ts_tasks s)(name := None)\<rparr>))"

section \<open>Running tasks\<close>

text \<open>\<open>names\<close> is the order in which \<open>range\<close> visits the map; the result is the tasks to start.\<close>

definition checkAndRunTasks :: "time \<Rightarrow> string list \<Rightarrow> TaskScheduler \<Rightarrow> tref list" where
  "checkAndRunTasks now names s =
     filter (\<lambda>r. let t = ts_store s r in t_Enabled t \<and> \<not> t_IsRunning t \<and> t_NextRun t < now)
       (List.map_filter (ts_tasks s) names)"

definition updateNextRun :: "(string \<times> int) list \<Rightarrow> (string \<times> int) list \<Rightarrow> time \<Rightarrow> Task \<Rightarrow> Task" where
  "updateNextRun mons dys now t =
     (case t_Type t of
        TaskTypeCron \<Rightarrow>
          (case calculateNextCronRun mons dys (t_CronSpec t) now of Inl _ \<Rightarrow> t | Inr n \<Rightarrow> t\<lparr>t_NextRun := n\<rparr>)
      | TaskTypeInterval \<Rightarrow> t\<lparr>t_NextRun := now + t_Interval t\<rparr>
      | TaskType_other _ \<Rightarrow> t)"

text \<open>
  The environment of attempt \<open>k\<close>: whether the scheduler's context is done before it, what the task
  function returns, and whether the task's own context ends during the delay after a failure.
\<close>

record attempt =
  at_ctxDone :: bool
  at_result :: "string option"
  at_expired :: bool

datatype verdict = Succeeded | Exhausted "string option" | Aborted

function run_attempts :: "(nat \<Rightarrow> attempt) \<Rightarrow> int \<Rightarrow> nat \<Rightarrow> string option \<Rightarrow> verdict \<times> nat" where
  "run_attempts env maxRetries k lastError =
     (if int k \<le> maxRetries then
        if at_ctxDone (env k) then (Aborted, k)
        else case at_result (env k) of
          None \<Rightarrow> (Succeeded, Suc k)
        | Some e \<Rightarrow>
            if int k < maxRetries \<and> at_expired (env k) then (Aborted, Suc k)
            else run_attempts env maxRetries (Suc k) (Some e)
      else (Exhausted lastError, k))"
  by pat_completeness auto
termination
  by (relation "measure (\<lambda>(env, n, k, e). nat (n + 1 - int k))") auto

declare run_attempts.simps [simp del]

text \<open>
  \<open>runTask\<close>: the run is marked, the attempts are made, and the outcome is recorded under the lock.
  \<open>None\<close> is the panic of \<open>lastError.Error()\<close> on a nil error. \<open>now\<close> is the time at the end of the run.
\<close>

definition begin_task :: "time \<Rightarrow> tref \<Rightarrow> TaskScheduler \<Rightarrow> TaskScheduler" where
  "begin_task now r s = upd_task r (\<lambda>t. t\<lparr>t_IsRunning := True, t_UpdatedAt := now\<rparr>) s"

definition end_task ::
    "(string \<times> int) list \<Rightarrow> (string \<times> int) list \<Rightarrow> time \<Rightarrow> tref \<Rightarrow> verdict \<Rightarrow> TaskScheduler \<Rightarrow> TaskScheduler option" where
  "end_task mons dys now r v s =
     (case v of
        Aborted \<Rightarrow> Some s
      | Succeeded \<Rightarrow>
          Some (upd_task r (\<lambda>t. updateNextRun mons dys now (t\<lparr>t_IsRunning := False, t_LastRun := now,
            t_RunCount := t_RunCount t + 1, t_LastError := [], t_UpdatedAt := now\<rparr>)) s)
      | Exhausted None \<Rightarrow> None
      | Exhausted (Some e) \<Rightarrow>
          Some (upd_task r (\<lambda>t. updateNextRun mons dys now (t\<lparr>t_IsRunning := False, t_LastRun := now,
            t_ErrorCount := t_ErrorCount t + 1, t_LastError := e, t_UpdatedAt := now\<rparr>)) s))"

definition runTask ::
    "(string \<times> int) list \<Rightarrow> (string \<times> int) list \<Rightarrow> (nat \<Rightarrow> attempt) \<Rightarrow> time \<Rightarrow> time \<Rightarrow> tref \<Rightarrow> TaskScheduler \<Rightarrow>
     TaskScheduler option" where
  "runTask mons dys env start now r s =
     (let s1 = begin_task start r s
      in end_task mons dys now r (fst (run_attempts env (t_MaxRetries (ts_store s1 r)) 0 None)) s1)"

section \<open>Attempts\<close>

lemma run_attempts_spec:
  assumes "run_attempts env n k e = (v, c)" "int k \<le> n + 1" "0 < k \<longrightarrow> e \<noteq> None" "0 \<le> n"
  shows "int c \<le> n + 1 \<and> k \<le> c \<and>
    (case v of Succeeded \<Rightarrow> k < c \<and> at_result (env (c - 1)) = None \<and> (\<forall>i. k \<le> i \<and> i < c - 1 \<longrightarrow> at_result (env i) \<noteq> None)
     | Exhausted le \<Rightarrow> le \<noteq> None \<and> int c = n + 1 \<and> (\<forall>i. k \<le> i \<and> i < c \<longrightarrow> at_result (env i) \<noteq> None)
     | Aborted \<Rightarrow> (\<exists>i. k \<le> i \<and> int i \<le> n \<and> (at_ctxDone (env i) \<or> at_expired (env i))))"
  using assms
proof (induction env n k e rule: run_attempts.induct)
  case (1 env n k e)
  show ?case
  proof (cases "int k \<le> n \<and> \<not> at_ctxDone (env k) \<and> at_result (env k) \<noteq> None \<and> \<not> (int k < n \<and> at_expired (env k))")
    case True
    then obtain e' where e': "at_result (env k) = Some e'" by auto
    with True "1.prems"(1) have rec: "run_attempts env n (Suc k) (Some e') = (v, c)"
      by (auto simp: run_attempts.simps [of env n k e])
    have IH: "int c \<le> n + 1 \<and> Suc k \<le> c \<and>
      (case v of Succeeded \<Rightarrow> Suc k < c \<and> at_result (env (c - 1)) = None \<and> (\<forall>i. Suc k \<le> i \<and> i < c - 1 \<longrightarrow> at_result (env i) \<noteq> None)
       | Exhausted le \<Rightarrow> le \<noteq> None \<and> int c = n + 1 \<and> (\<forall>i. Suc k \<le> i \<and> i < c \<longrightarrow> at_result (env i) \<noteq> None)
       | Aborted \<Rightarrow> (\<exists>i. Suc k \<le> i \<and> int i \<le> n \<and> (at_ctxDone (env i) \<or> at_expired (env i))))"
      using True by (intro "1.IH" [OF _ _ e' _ rec]) (use "1.prems" in auto)
    have low: "k \<le> i \<Longrightarrow> i = k \<or> Suc k \<le> i" for i by auto
    show ?thesis using IH e' by (cases v) (auto dest!: low intro: Suc_leD)
  next
    case False
    then show ?thesis using "1.prems" by (auto simp: run_attempts.simps [of env n k e] intro: exI [of _ k] exI [of _ 0] split: if_splits option.splits)
  qed
qed

section \<open>Invariant\<close>

definition task_wf :: "(string \<times> int) list \<Rightarrow> (string \<times> int) list \<Rightarrow> string \<Rightarrow> Task \<Rightarrow> bool" where
  "task_wf mons dys name t \<longleftrightarrow> t_Name t = name \<and> name \<noteq> [] \<and> 0 \<le> t_MaxRetries t \<and> 0 < t_RetryDelay t \<and> 0 < t_Timeout t \<and>
     0 \<le> t_RunCount t \<and> 0 \<le> t_ErrorCount t \<and>
     (t_Type t = TaskTypeInterval \<and> 0 < t_Interval t \<or>
      t_Type t = TaskTypeCron \<and> ValidateCronSpec mons dys (t_CronSpec t) = None)"

definition ts_inv :: "(string \<times> int) list \<Rightarrow> (string \<times> int) list \<Rightarrow> TaskScheduler \<Rightarrow> bool" where
  "ts_inv mons dys s \<longleftrightarrow> 0 \<le> ts_defaultRetries s \<and> 0 < ts_retryDelay s \<and> 0 < ts_defaultTimeout s \<and> 0 < ts_checkInterval s \<and>
     (\<forall>name r. ts_tasks s name = Some r \<longrightarrow> task_wf mons dys name (ts_store s r))"

text \<open>A new task gets an address that no registered task has; a run ends in any environment.\<close>

inductive ts_step :: "(string \<times> int) list \<Rightarrow> (string \<times> int) list \<Rightarrow> TaskScheduler \<Rightarrow> TaskScheduler \<Rightarrow> bool"
  for mons dys where
  register_cron: "r \<notin> ran (ts_tasks s) \<Longrightarrow>
    ts_step mons dys s (snd (RegisterCronTaskWithOptions mons dys now uid r name spec fn_nil options s))"
| register_interval: "r \<notin> ran (ts_tasks s) \<Longrightarrow>
    ts_step mons dys s (snd (RegisterIntervalTaskWithOptions now uid r name interval fn_nil options s))"
| begin_run: "r \<in> set (checkAndRunTasks now names s) \<Longrightarrow> ts_step mons dys s (begin_task now' r s)"
| end_run: "r \<in> ran (ts_tasks s) \<Longrightarrow> t_IsRunning (ts_store s r) \<Longrightarrow>
    end_task mons dys now r (fst (run_attempts env (t_MaxRetries (ts_store s r)) 0 None)) s = Some s' \<Longrightarrow> ts_step mons dys s s'"
| enable: "ts_step mons dys s (snd (EnableTask now name s))"
| disable: "ts_step mons dys s (snd (DisableTask now name s))"
| remove: "ts_step mons dys s (snd (RemoveTask name s))"
| start: "ts_step mons dys s (snd (ts_Start s))"
| stop: "ts_Stop s = Some s' \<Longrightarrow> ts_step mons dys s s'"
| options: "ts_step mons dys s (ts_WithRetryDelay d (ts_WithDefaultRetries n (ts_WithDefaultTimeout d' (ts_WithCheckInterval d'' s))))"

inductive ts_reachable :: "(string \<times> int) list \<Rightarrow> (string \<times> int) list \<Rightarrow> TaskScheduler \<Rightarrow> bool"
  for mons dys where
  init: "ts_reachable mons dys (NewTaskScheduler st)"
| step: "ts_reachable mons dys s \<Longrightarrow> ts_step mons dys s s' \<Longrightarrow> ts_reachable mons dys s'"

lemma ts_inv_upd_task:
  assumes "ts_inv mons dys s" "\<And>name t. task_wf mons dys name t \<Longrightarrow> task_wf mons dys name (f t)"
  shows "ts_inv mons dys (upd_task r f s)"
  using assms by (auto simp: ts_inv_def upd_task_def)

lemma ts_inv_add_task:
  assumes "ts_inv mons dys s" "task_wf mons dys name t" "r \<notin> ran (ts_tasks s)"
  shows "ts_inv mons dys (add_task r name t s)"
  using assms by (auto simp: ts_inv_def add_task_def ran_def)

lemma new_task_wf:
  assumes "ts_inv mons dys s" "name \<noteq> []"
    "type = TaskTypeInterval \<and> 0 < interval \<or> type = TaskTypeCron \<and> ValidateCronSpec mons dys spec = None"
  shows "task_wf mons dys name (new_task now uid name type spec interval n options s)"
  using assms by (auto simp: task_wf_def new_task_def ts_inv_def)

lemma updateNextRun_wf: "task_wf mons dys name t \<Longrightarrow> task_wf mons dys name (updateNextRun mons dys now t)"
  by (auto simp: task_wf_def updateNextRun_def split: TaskType.split sum.split)

lemma ts_inv_end_task:
  assumes "ts_inv mons dys s" "end_task mons dys now r v s = Some s'"
  shows "ts_inv mons dys s'"
  using assms unfolding end_task_def
  by (auto split: verdict.splits option.splits intro!: ts_inv_upd_task updateNextRun_wf) (auto simp: task_wf_def)

lemma ts_inv_step: "ts_step mons dys s s' \<Longrightarrow> ts_inv mons dys s \<Longrightarrow> ts_inv mons dys s'"
proof (induction rule: ts_step.induct)
  case (register_cron r s now uid name spec fn_nil options)
  then show ?case
    by (auto simp: RegisterCronTaskWithOptions_def intro!: ts_inv_add_task new_task_wf split: option.split sum.split)
next
  case (register_interval r s now uid name interval fn_nil options)
  then show ?case by (auto simp: RegisterIntervalTaskWithOptions_def intro!: ts_inv_add_task new_task_wf)
next
  case (begin_run r now names s now')
  then show ?case unfolding begin_task_def by (intro ts_inv_upd_task) (auto simp: task_wf_def)
next
  case (end_run r s now env s')
  then show ?case by (blast intro: ts_inv_end_task)
next
  case (enable s now name)
  then show ?case by (auto simp: EnableTask_def task_wf_def intro!: ts_inv_upd_task split: option.split)
next
  case (disable s now name)
  then show ?case by (auto simp: DisableTask_def task_wf_def intro!: ts_inv_upd_task split: option.split)
next
  case (remove s name)
  then show ?case by (auto simp: RemoveTask_def ts_inv_def split: option.split)
next
  case (start s)
  then show ?case by (simp add: ts_Start_def ts_inv_def)
next
  case (stop s s')
  then show ?case by (auto simp: ts_Stop_def ts_inv_def split: if_splits)
next
  case (options s d n d' d'')
  then show ?case
    by (simp add: ts_inv_def ts_WithRetryDelay_def ts_WithDefaultRetries_def ts_WithDefaultTimeout_def ts_WithCheckInterval_def)
qed

lemma ts_inv_reachable: "ts_reachable mons dys s \<Longrightarrow> ts_inv mons dys s"
proof (induction rule: ts_reachable.induct)
  case (init st)
  then show ?case by (simp add: ts_inv_def NewTaskScheduler_def)
qed (rule ts_inv_step)

section \<open>Properties\<close>

text \<open>
  C17: Every task the scheduler holds is sound and can be run safely: in every reachable state a
  registered task is filed under its own non-empty name, has a positive timeout and retry delay, a
  non-negative retry count and either a positive interval or a cron specification that validates;
  and, whatever its function does and whenever contexts end, finishing a run of it never panics.
\<close>
theorem task_scheduler_sound:
  assumes "ts_reachable mons dys s" "ts_tasks s name = Some r"
  shows "task_wf mons dys name (ts_store s r) \<and>
    (\<exists>s'. end_task mons dys now r (fst (run_attempts env (t_MaxRetries (ts_store s r)) 0 None)) s = Some s')"
proof
  show wf: "task_wf mons dys name (ts_store s r)"
    using ts_inv_reachable [OF assms(1)] assms(2) by (simp add: ts_inv_def)
  obtain v c where "run_attempts env (t_MaxRetries (ts_store s r)) 0 None = (v, c)" by fastforce
  with run_attempts_spec [OF this] wf
  show "\<exists>s'. end_task mons dys now r (fst (run_attempts env (t_MaxRetries (ts_store s r)) 0 None)) s = Some s'"
    by (auto simp: end_task_def task_wf_def split: verdict.splits option.splits)
qed

definition demo_sched :: TaskScheduler where
  "demo_sched = snd (RegisterIntervalTask 10 ''id'' 4 ''poll'' 60 False (NewTaskScheduler (\<lambda>_. undefined)))"

lemma demo_sched_reachable: "ts_reachable Months Days demo_sched"
  unfolding demo_sched_def RegisterIntervalTask_def
  by (rule ts_reachable.step [OF ts_reachable.init ts_step.register_interval]) (simp add: NewTaskScheduler_def)

lemma demo_sched_eval: "ts_tasks demo_sched ''poll'' = Some 4" "t_Interval (ts_store demo_sched 4) = 60"
  "t_Type (ts_store demo_sched 4) = TaskTypeInterval" "t_MaxRetries (ts_store demo_sched 4) = 3"
  by (simp_all add: demo_sched_def RegisterIntervalTask_def RegisterIntervalTaskWithOptions_def NewTaskScheduler_def
      add_task_def new_task_def TaskOptions_zero_def)

theorem task_scheduler_sound_witness: "task_wf Months Days ''poll'' (ts_store demo_sched 4)"
  using task_scheduler_sound [OF demo_sched_reachable demo_sched_eval(1)] by blast

text \<open>
  C27: The attempts of one run: the task function is called at most \<open>MaxRetries + 1\<close> times; the run
  succeeds exactly with the first call that returns no error; it is exhausted only after all
  \<open>MaxRetries + 1\<close> calls have failed, and then there is an error to record; and it is aborted only
  when a context ended.
\<close>
theorem task_attempts_correct:
  assumes "0 \<le> maxRetries" "run_attempts env maxRetries 0 None = (v, calls)"
  shows "int calls \<le> maxRetries + 1 \<and>
    (case v of
       Succeeded \<Rightarrow> 0 < calls \<and> at_result (env (calls - 1)) = None \<and> (\<forall>i < calls - 1. at_result (env i) \<noteq> None)
     | Exhausted e \<Rightarrow> e \<noteq> None \<and> int calls = maxRetries + 1 \<and> (\<forall>i < calls. at_result (env i) \<noteq> None)
     | Aborted \<Rightarrow> (\<exists>i. int i \<le> maxRetries \<and> (at_ctxDone (env i) \<or> at_expired (env i))))"
  using run_attempts_spec [OF assms(2)] assms(1) by (auto split: verdict.splits)

definition demo_env :: "nat \<Rightarrow> attempt" where
  "demo_env k = \<lparr>at_ctxDone = False, at_result = (if k < 2 then Some ''down'' else None), at_expired = False\<rparr>"

lemma demo_env_run: "run_attempts demo_env 3 0 None = (Succeeded, 3)"
  by code_simp

theorem task_attempts_correct_witness: "at_result (demo_env 2) = None"
  using task_attempts_correct [OF _ demo_env_run] by simp

text \<open>
  C20: A finished run frees the task and reschedules it: after a run that succeeded or used up its attempts the
  task is no longer marked as running, and exactly one of its two counters went up by one. The next run of
  an interval task is the interval later than now; that of a cron task, if an instant after now that matches
  its specification falls in the year in which the search starts or the four years that follow, is the
  earliest such instant. If there is none, the next run is left as it was, so that the task is due again at once.
  The fields of a cron task's specification have at most 18 characters.
\<close>
theorem task_run_reschedules:
  assumes "task_wf mons dys name (ts_store s r)" "mset mons = mset Months" "mset dys = mset Days"
    "\<forall>f \<in> set (Fields (t_CronSpec (ts_store s r))). length f \<le> 18"
    "fst (run_attempts env (t_MaxRetries (ts_store s r)) 0 None) = v" "v \<noteq> Aborted"
  shows "\<exists>s' t'. runTask mons dys env start now r s = Some s' \<and> t' = ts_store s' r \<and> \<not> t_IsRunning t' \<and> t_LastRun t' = now \<and>
    t_RunCount t' + t_ErrorCount t' = t_RunCount (ts_store s r) + t_ErrorCount (ts_store s r) + 1 \<and>
    (t_Type t' = TaskTypeInterval \<longrightarrow> t_NextRun t' = now + t_Interval t' \<and> now < t_NextRun t') \<and>
    (t_Type t' = TaskTypeCron \<longrightarrow> (\<exists>e. ParseCronSpec mons dys (t_CronSpec t') = Inr e \<and>
       (if \<exists>n. run_at e now n \<and> fst (to_civil n) \<le> fst (to_civil (search_start e now)) + 4
        then run_at e now (t_NextRun t') \<and> (\<forall>n. run_at e now n \<longrightarrow> t_NextRun t' \<le> n)
        else t_NextRun t' = t_NextRun (ts_store s r))))"
proof -
  let ?t = "ts_store s r"
  obtain v' c where "run_attempts env (t_MaxRetries ?t) 0 None = (v', c)" by fastforce
  with assms(1,5) run_attempts_spec [OF this] have le: "v \<noteq> Exhausted None"
    by (auto simp: task_wf_def)
  define f :: "Task \<Rightarrow> Task" where "f = (\<lambda>t. case v of
      Succeeded \<Rightarrow> t\<lparr>t_IsRunning := False, t_LastRun := now, t_RunCount := t_RunCount t + 1, t_LastError := [], t_UpdatedAt := now\<rparr>
    | Exhausted (Some e) \<Rightarrow> t\<lparr>t_IsRunning := False, t_LastRun := now, t_ErrorCount := t_ErrorCount t + 1, t_LastError := e, t_UpdatedAt := now\<rparr>
    | _ \<Rightarrow> t)"
  define u where "u = f (?t\<lparr>t_IsRunning := True, t_UpdatedAt := start\<rparr>)"
  obtain s' where s': "runTask mons dys env start now r s = Some s'" "ts_store s' r = updateNextRun mons dys now u"
    using assms(5,6) le
    by (cases v; force simp: runTask_def begin_task_def end_task_def upd_task_def u_def f_def Let_def split: option.splits)
  have u: "\<not> t_IsRunning u" "t_LastRun u = now" "t_RunCount u + t_ErrorCount u = t_RunCount ?t + t_ErrorCount ?t + 1"
    "t_Type u = t_Type ?t" "t_Interval u = t_Interval ?t" "t_CronSpec u = t_CronSpec ?t" "t_NextRun u = t_NextRun ?t"
    using assms(6) le unfolding u_def f_def by (cases v; auto split: option.splits)+
  let ?t' = "updateNextRun mons dys now u"
  have t': "\<not> t_IsRunning ?t'" "t_LastRun ?t' = now" "t_RunCount ?t' + t_ErrorCount ?t' = t_RunCount ?t + t_ErrorCount ?t + 1"
    "t_Type ?t' = t_Type ?t" "t_Interval ?t' = t_Interval ?t" "t_CronSpec ?t' = t_CronSpec ?t"
    "t_Type ?t = TaskTypeInterval \<Longrightarrow> t_NextRun ?t' = now + t_Interval ?t"
    "t_Type ?t = TaskTypeCron \<Longrightarrow>
       t_NextRun ?t' = (case calculateNextCronRun mons dys (t_CronSpec ?t) now of Inl e \<Rightarrow> t_NextRun ?t | Inr n \<Rightarrow> n)"
    using u by (auto simp: updateNextRun_def split: TaskType.splits sum.splits)
  have int: "t_Type ?t = TaskTypeInterval \<Longrightarrow> 0 < t_Interval ?t" using assms(1) by (auto simp: task_wf_def)
  have cron: "\<exists>e. ParseCronSpec mons dys (t_CronSpec ?t) = Inr e \<and>
       (if \<exists>n. run_at e now n \<and> fst (to_civil n) \<le> fst (to_civil (search_start e now)) + 4
        then run_at e now (t_NextRun ?t') \<and> (\<forall>n. run_at e now n \<longrightarrow> t_NextRun ?t' \<le> n)
        else t_NextRun ?t' = t_NextRun ?t)" if c: "t_Type ?t = TaskTypeCron"
  proof -
    have "ValidateCronSpec mons dys (t_CronSpec ?t) = None" using assms(1) c by (simp add: task_wf_def)
    then obtain e where e: "ParseCronSpec mons dys (t_CronSpec ?t) = Inr e" by (auto simp: ValidateCronSpec_def split: sum.splits)
    show ?thesis using next_run_error_iff [OF e assms(2-4), of now] next_run_spec [OF e assms(2-4), of now] t'(8) [OF c] e
      by (cases "calculateNextCronRun mons dys (t_CronSpec ?t) now") (auto simp: linorder_not_le [symmetric])
  qed
  show ?thesis
    using s' t' int cron by (intro exI [of _ s'] exI [of _ ?t']) simp
qed

theorem task_run_reschedules_witness:
  "\<exists>s' t'. runTask Months Days demo_env 100 200 4 demo_sched = Some s' \<and> t' = ts_store s' 4 \<and> \<not> t_IsRunning t' \<and> t_LastRun t' = 200"
proof -
  have wf: "task_wf Months Days ''poll'' (ts_store demo_sched 4)"
    using ts_inv_reachable [OF demo_sched_reachable] demo_sched_eval(1) by (simp add: ts_inv_def)
  have "t_CronSpec (ts_store demo_sched 4) = []"
    by (simp add: demo_sched_def RegisterIntervalTask_def RegisterIntervalTaskWithOptions_def NewTaskScheduler_def add_task_def new_task_def)
  then have "\<forall>f \<in> set (Fields (t_CronSpec (ts_store demo_sched 4))). length f \<le> 18" by (simp add: Fields_def)
  from task_run_reschedules [OF wf refl refl this, of demo_env Succeeded 100 200] show ?thesis
    by (auto simp: demo_sched_eval demo_env_run)
qed

text \<open>
  An aborted run leaves the task stuck: when the task's own timeout (or the scheduler's context)
  ends during a retry, \<open>runTask\<close> returns without clearing \<open>IsRunning\<close>; from then on no check at any
  time starts the task again and \<open>RemoveTask\<close> refuses it.
\<close>
theorem task_aborted_stuck:
  assumes "ts_tasks s name = Some r" "fst (run_attempts env (t_MaxRetries (ts_store s r)) 0 None) = Aborted"
  shows "\<exists>s'. runTask mons dys env start now r s = Some s' \<and> t_IsRunning (ts_store s' r) \<and>
    r \<notin> set (checkAndRunTasks later names s') \<and>
    RemoveTask name s' = (Some (TErr (''cannot remove running task '' @ [CHR 0x27] @ name @ [CHR 0x27])), s')"
  using assms
  by (auto simp: runTask_def end_task_def begin_task_def upd_task_def checkAndRunTasks_def RemoveTask_def Let_def)

definition timeout_env :: "nat \<Rightarrow> attempt" where
  "timeout_env k = \<lparr>at_ctxDone = False, at_result = Some ''down'', at_expired = True\<rparr>"

theorem task_aborted_stuck_witness:
  "\<exists>s'. runTask Months Days timeout_env 100 200 4 demo_sched = Some s' \<and> 4 \<notin> set (checkAndRunTasks 1000000 [''poll''] s')"
proof -
  have "fst (run_attempts timeout_env (t_MaxRetries (ts_store demo_sched 4)) 0 None) = Aborted"
    unfolding demo_sched_eval by code_simp
  from task_aborted_stuck [OF demo_sched_eval(1) this, of Months Days 100 200 1000000 "[''poll'']"] show ?thesis by blast
qed

end
