(* ===== verification/Http.thy ===== *)
theory Http
  imports GoStrings "HOL-Library.Word"
begin

text \<open>
  What the web package uses of \<open>net/http\<close> and \<open>net\<close>: headers, requests, \<open>http.Error\<close>,
  \<open>http.Redirect\<close>, addresses and networks; and the buffering \<open>ResponseWriter\<close> of
  \<open>src/web/response.go\<close>. The writer's \<open>bytes.Buffer\<close> is modelled with its backing array, because the
  history keeps slices of it. Parsing of addresses is an argument of the definitions that use it.
\<close>

section \<open>Headers\<close>

type_synonym header = "string \<rightharpoonup> string list"

text \<open>The characters of a header field name (RFC 7230 token).\<close>

definition is_token_char :: "char \<Rightarrow> bool" where
  "is_token_char c = (let n = of_char c :: nat in
     (48 \<le> n \<and> n \<le> 57) \<or> (65 \<le> n \<and> n \<le> 90) \<or> (97 \<le> n \<and> n \<le> 122) \<or> c \<in> set ''!#$%&*+-.^_`|~'' \<or> n = 39)"

fun canon_aux :: "bool \<Rightarrow> string \<Rightarrow> string" where
  "canon_aux up [] = []"
| "canon_aux up (c # cs) = (if up then to_upper_char c else to_lower_char c) # canon_aux (c = CHR ''-'') cs"

definition CanonicalHeaderKey :: "string \<Rightarrow> string" where
  "CanonicalHeaderKey k = (if list_all is_token_char k then canon_aux True k else k)"

definition hd_Get :: "string \<Rightarrow> header \<Rightarrow> string" where
  "hd_Get k h = (case h (CanonicalHeaderKey k) of Some (v # _) \<Rightarrow> v | _ \<Rightarrow> [])"

definition hd_Set :: "string \<Rightarrow> string \<Rightarrow> header \<Rightarrow> header" where
  "hd_Set k v h = h(CanonicalHeaderKey k \<mapsto> [v])"

definition hd_values :: "string \<Rightarrow> header \<Rightarrow> string list" where
  "hd_values k h = (case h k of Some vs \<Rightarrow> vs | None \<Rightarrow> [])"

definition hd_Add :: "string \<Rightarrow> string \<Rightarrow> header \<Rightarrow> header" where
  "hd_Add k v h = h(CanonicalHeaderKey k \<mapsto> hd_values (CanonicalHeaderKey k) h @ [v])"

definition hd_Del :: "string \<Rightarrow> header \<Rightarrow> header" where
  "hd_Del k h = h(CanonicalHeaderKey k := None)"

section \<open>Requests and the connection's writer\<close>

record Request =
  rq_Method :: string
  rq_Path :: string
  rq_Host :: string
  rq_TLS :: bool
  rq_RequestURI :: string
  rq_RemoteAddr :: string
  rq_Header :: header

text \<open>
  The server's own writer: the first \<open>WriteHeader\<close> decides the status, a \<open>Write\<close> without one sends
  200. \<open>w_broken\<close> is a connection on which writing fails.
\<close>

record RawWriter =
  w_header :: header
  w_status :: "int option"
  w_body :: bytes
  w_broken :: bool

definition raw_WriteHeader :: "int \<Rightarrow> RawWriter \<Rightarrow> RawWriter" where
  "raw_WriteHeader s w = (if w_status w = None then w\<lparr>w_status := Some s\<rparr> else w)"

definition raw_Write :: "bytes \<Rightarrow> RawWriter \<Rightarrow> bool \<times> RawWriter" where
  "raw_Write b w =
     (let w = raw_WriteHeader 200 w in if w_broken w then (False, w) else (True, w\<lparr>w_body := w_body w @ b\<rparr>))"

text \<open>The header part of \<open>http.Error\<close>.\<close>

definition error_header :: "header \<Rightarrow> header" where
  "error_header h =
     hd_Set ''X-Content-Type-Options'' ''nosniff'' (hd_Set ''Content-Type'' ''text/plain; charset=utf-8''
       (hd_Del ''Content-Length'' h))"

definition raw_Error :: "string \<Rightarrow> int \<Rightarrow> RawWriter \<Rightarrow> RawWriter" where
  "raw_Error msg code w =
     snd (raw_Write (msg @ [CHR 0x0A]) (raw_WriteHeader code (w\<lparr>w_header := error_header (w_header w)\<rparr>)))"

section \<open>The buffering response writer\<close>

text \<open>
  \<open>rw_mem\<close> holds the arrays the buffer has had, \<open>rw_arr\<close> the current one and \<open>rw_len\<close> how much of it
  is used; the history is a list of slices (array, length).
\<close>

record ResponseWriter =
  rw_status :: int
  rw_mem :: "nat \<Rightarrow> bytes"
  rw_arr :: nat
  rw_len :: nat
  rw_history :: "(nat \<times> nat) list"
  rw_header :: header
  rw_hijacked :: bool

definition newResponseWriter :: ResponseWriter where
  "newResponseWriter = \<lparr>rw_status = 200, rw_mem = (\<lambda>_. []), rw_arr = 0, rw_len = 0, rw_history = [],
     rw_header = Map.empty, rw_hijacked = False\<rparr>"

definition rw_body :: "ResponseWriter \<Rightarrow> bytes" where
  "rw_body rw = take (rw_len rw) (rw_mem rw (rw_arr rw))"

definition on_header :: "(header \<Rightarrow> header) \<Rightarrow> ResponseWriter \<Rightarrow> ResponseWriter" where
  "on_header f rw = rw\<lparr>rw_header := f (rw_header rw)\<rparr>"

definition rw_WriteHeader :: "int \<Rightarrow> ResponseWriter \<Rightarrow> ResponseWriter" where
  "rw_WriteHeader s rw = rw\<lparr>rw_status := s\<rparr>"

text \<open>
  \<open>bytes.Buffer\<close> starts with an array of 64 bytes for small writes and doubles it when it is too
  small (the allocator may round up further, which only delays the next allocation).
\<close>

definition grow_cap :: "nat \<Rightarrow> nat \<Rightarrow> nat" where
  "grow_cap cap need = (if cap = 0 \<and> need \<le> 64 then 64 else max need (2 * cap))"

definition rw_Write :: "bytes \<Rightarrow> ResponseWriter \<Rightarrow> ResponseWriter" where
  "rw_Write b rw =
     (let a = rw_mem rw (rw_arr rw); need = rw_len rw + length b in
      if need \<le> length a
      then rw\<lparr>rw_mem := (rw_mem rw)(rw_arr rw := take (rw_len rw) a @ b @ drop need a), rw_len := need\<rparr>
      else
        (let fresh = take (rw_len rw) a @ b @ replicate (grow_cap (length a) need - need) CHR 0x00
         in rw\<lparr>rw_mem := (rw_mem rw)(Suc (rw_arr rw) := fresh), rw_arr := Suc (rw_arr rw), rw_len := need\<rparr>))"

definition History :: "ResponseWriter \<Rightarrow> bytes list" where
  "History rw = map (\<lambda>(a, n). take n (rw_mem rw a)) (rw_history rw)"

definition rw_clear :: "ResponseWriter \<Rightarrow> ResponseWriter" where
  "rw_clear rw = rw\<lparr>rw_history := rw_history rw @ [(rw_arr rw, rw_len rw)], rw_len := 0, rw_header := Map.empty\<rparr>"

datatype hijack_result = HijackUnsupported | HijackFailed | Hijacked

text \<open>\<open>outcome\<close> is what the underlying writer's \<open>Hijack\<close> does.\<close>

definition Hijack :: "hijack_result \<Rightarrow> ResponseWriter \<Rightarrow> ResponseWriter" where
  "Hijack outcome rw = (if outcome = Hijacked then rw_clear (rw\<lparr>rw_hijacked := True\<rparr>) else rw)"

text \<open>Adding every value of \<open>h\<close> to \<open>h0\<close>; the keys of \<open>h\<close> are canonical already, as \<open>Set\<close> and \<open>Add\<close> make them.\<close>

definition hd_AddAll :: "header \<Rightarrow> header \<Rightarrow> header" where
  "hd_AddAll h h0 k = (if hd_values k h = [] then h0 k else Some (hd_values k h0 @ hd_values k h))"

definition rw_flush :: "ResponseWriter \<Rightarrow> RawWriter \<Rightarrow> RawWriter" where
  "rw_flush rw w =
     (if rw_hijacked rw then w
      else
        (let w1 = raw_WriteHeader (rw_status rw) (w\<lparr>w_header := hd_AddAll (rw_header rw) (w_header w)\<rparr>);
             (ok, w2) = raw_Write (rw_body rw) w1
         in if ok then w2 else raw_Error ''Internal Server Error'' 500 w2))"

definition http_Error :: "string \<Rightarrow> int \<Rightarrow> ResponseWriter \<Rightarrow> ResponseWriter" where
  "http_Error msg code rw = rw_Write (msg @ [CHR 0x0A]) (rw_WriteHeader code (on_header error_header rw))"

definition html_escape :: "string \<Rightarrow> string" where
  "html_escape s = concat (map (\<lambda>c.
     if c = CHR ''&'' then ''&amp;'' else if c = CHR ''<'' then ''&lt;'' else if c = CHR ''>'' then ''&gt;''
     else if c = CHR 0x22 then ''&#34;'' else if c = CHR 0x27 then ''&#39;'' else [c]) s)"

text \<open>\<open>http.Redirect\<close> to an absolute URL with status 301.\<close>

definition http_MovedPermanently :: "Request \<Rightarrow> string \<Rightarrow> ResponseWriter \<Rightarrow> ResponseWriter" where
  "http_MovedPermanently rq url rw =
     (let hadCT = rw_header rw ''Content-Type'' \<noteq> None;
          page = \<not> hadCT \<and> (rq_Method rq = ''GET'' \<or> rq_Method rq = ''HEAD'');
          rw1 = on_header (hd_Set ''Location'' url) rw;
          rw2 = (if page then on_header (hd_Set ''Content-Type'' ''text/html; charset=utf-8'') rw1 else rw1);
          rw3 = rw_WriteHeader 301 rw2
      in if \<not> hadCT \<and> rq_Method rq = ''GET''
         then rw_Write (''<a href='' @ [CHR 0x22] @ html_escape url @ [CHR 0x22] @ ''>Moved Permanently</a>.'' @ [CHR 0x0A, CHR 0x0A]) rw3
         else rw3)"

section \<open>Lemmas on the writer\<close>

definition rw_ok :: "ResponseWriter \<Rightarrow> bool" where
  "rw_ok rw \<longleftrightarrow> rw_len rw \<le> length (rw_mem rw (rw_arr rw))"

lemma rw_ok_new: "rw_ok newResponseWriter"
  by (simp add: rw_ok_def newResponseWriter_def)

lemma rw_Write_body:
  assumes "rw_ok rw"
  shows "rw_ok (rw_Write b rw)" "rw_body (rw_Write b rw) = rw_body rw @ b"
  using assms by (auto simp: rw_ok_def rw_body_def rw_Write_def Let_def grow_cap_def)

lemma rw_sel [simp]:
  "rw_status (rw_Write b rw) = rw_status rw" "rw_header (rw_Write b rw) = rw_header rw"
  "rw_hijacked (rw_Write b rw) = rw_hijacked rw" "rw_history (rw_Write b rw) = rw_history rw"
  "rw_status (on_header f rw) = rw_status rw" "rw_header (on_header f rw) = f (rw_header rw)"
  "rw_body (on_header f rw) = rw_body rw" "rw_ok (on_header f rw) = rw_ok rw" "rw_hijacked (on_header f rw) = rw_hijacked rw"
  "rw_status (rw_WriteHeader s rw) = s" "rw_header (rw_WriteHeader s rw) = rw_header rw"
  "rw_body (rw_WriteHeader s rw) = rw_body rw" "rw_ok (rw_WriteHeader s rw) = rw_ok rw"
  "rw_hijacked (rw_WriteHeader s rw) = rw_hijacked rw"
  by (simp_all add: rw_Write_def Let_def on_header_def rw_WriteHeader_def rw_body_def rw_ok_def)

lemma rw_clear_sel [simp]:
  "rw_body (rw_clear rw) = []" "rw_ok (rw_clear rw)" "rw_status (rw_clear rw) = rw_status rw"
  "rw_header (rw_clear rw) = Map.empty" "rw_hijacked (rw_clear rw) = rw_hijacked rw"
  by (simp_all add: rw_clear_def rw_body_def rw_ok_def)

lemma http_Error_sel [simp]:
  "rw_status (http_Error msg code rw) = code" "rw_hijacked (http_Error msg code rw) = rw_hijacked rw"
  "rw_header (http_Error msg code rw) = error_header (rw_header rw)"
  by (simp_all add: http_Error_def)

lemma http_Error_body: "rw_ok rw \<Longrightarrow> rw_ok (http_Error msg code rw) \<and> rw_body (http_Error msg code rw) = rw_body rw @ msg @ [CHR 0x0A]"
  by (simp add: http_Error_def rw_Write_body)

section \<open>Addresses\<close>

text \<open>Addresses after \<open>To4\<close>: an IPv4-mapped address is an IPv4 address. A network is a prefix and its length.\<close>

datatype IP = V4 "32 word" | V6 "128 word"
datatype IPNet = Net4 "32 word" nat | Net6 "128 word" nat

fun Contains :: "IPNet \<Rightarrow> IP \<Rightarrow> bool" where
  "Contains (Net4 a k) (V4 x) = (drop_bit (32 - k) a = drop_bit (32 - k) x)"
| "Contains (Net6 a k) (V6 x) = (drop_bit (128 - k) a = drop_bit (128 - k) x)"
| "Contains _ _ = False"

text \<open>The functions of package \<open>net\<close> that read and print addresses.\<close>

record NetLib =
  nl_ParseIP :: "string \<Rightarrow> IP option"
  nl_ParseCIDR :: "string \<Rightarrow> IPNet option"
  nl_IP_String :: "IP \<Rightarrow> string"
  nl_IPNet_String :: "IPNet \<Rightarrow> string"
  nl_SplitHostPort :: "string \<Rightarrow> (string \<times> string) option"

end
