(* ===== verification/Router.thy ===== *)
theory Router
  imports Http "HOL-Library.Sublist" "HOL-Library.Multiset"
begin

text \<open>
  The router of the web package (\<open>src/web/router.go\<close>) and its middleware (\<open>src/web/middlewares.go\<close>).
  A handler acts on a request, on the shared state of the router's guards (address lists, rate
  limiters) with the application's own state, and on the buffering response writer. \<open>http.ServeMux\<close>
  and the rate limiter of \<open>golang.org/x/time/rate\<close> are arguments; maps whose iteration order Go
  leaves open are association lists in some order.
\<close>

section \<open>State\<close>

text \<open>\<open>rate.Limit\<close>: events per second, or no limit.\<close>

datatype Limit = Inf | Lim rat

record 'l RateLib =
  rl_NewLimiter :: "Limit \<Rightarrow> int \<Rightarrow> 'l"
  rl_Allow :: "time \<Rightarrow> 'l \<Rightarrow> bool \<times> 'l"
  rl_Every :: "time \<Rightarrow> Limit"

record 'l limitStore =
  ls_limit :: Limit
  ls_burst :: int
  ls_state :: "string \<rightharpoonup> 'l"

type_synonym iplist = "(string \<times> IPNet) list"

text \<open>
  What requests share: the guards of the router, the settings its handlers read when a request comes in
  (whether there is a honeypot callback, with the lists it was called with, and the server's cache
  control), and the state of the application.
\<close>

record ('l, 's) World =
  wd_whitelist :: iplist
  wd_blacklist :: iplist
  wd_limits :: "string \<rightharpoonup> 'l limitStore"
  wd_honeypotCallback :: bool
  wd_callbacks :: "iplist list"
  wd_cacheControl :: string
  wd_app :: 's

type_synonym ('l, 's) handler =
  "Request \<Rightarrow> ('l, 's) World \<times> ResponseWriter \<Rightarrow> ('l, 's) World \<times> ResponseWriter"

type_synonym ('l, 's) http_mw = "('l, 's) handler \<Rightarrow> ('l, 's) handler"

record ('l, 's) Router =
  rt_canonicalDomain :: string
  rt_sorted :: "('l, 's) http_mw list list"
  rt_middlewares :: "(int \<times> ('l, 's) http_mw list) list"
  rt_onStatus :: "string \<rightharpoonup> (int \<rightharpoonup> ('l, 's) handler)"
  rt_onStatusPatterns :: "string list"
  rt_limitedPatterns :: "string list"
  rt_routes :: "(string \<times> ('l, 's) handler) list"

text \<open>\<open>http.ServeMux\<close>: how it dispatches, and for which patterns registration panics.\<close>

record ('l, 's) MuxLib =
  mx_serve :: "(string \<times> ('l, 's) handler) list \<Rightarrow> ('l, 's) handler"
  mx_conflict :: "string list \<Rightarrow> string \<Rightarrow> bool"

definition NewRouter :: "('l, 's) Router" where
  "NewRouter = \<lparr>rt_canonicalDomain = [], rt_sorted = [], rt_middlewares = [], rt_onStatus = Map.empty,
     rt_onStatusPatterns = [], rt_limitedPatterns = [], rt_routes = []\<rparr>"

section \<open>Registration\<close>

definition rt_sort :: "('l, 's) Router \<Rightarrow> ('l, 's) Router" where
  "rt_sort r =
     (let orders = rev (sort (map fst (rt_middlewares r)))
      in r\<lparr>rt_sorted := map (\<lambda>ord. case map_of (rt_middlewares r) ord of Some ms \<Rightarrow> ms | None \<Rightarrow> []) orders\<rparr>)"

definition rt_Use :: "int \<Rightarrow> ('l, 's) http_mw \<Rightarrow> ('l, 's) Router \<Rightarrow> ('l, 's) Router" where
  "rt_Use ord mw r =
     (let ms = (case map_of (rt_middlewares r) ord of Some ms \<Rightarrow> ms | None \<Rightarrow> [])
      in rt_sort (r\<lparr>rt_middlewares := AList.update ord (ms @ [mw]) (rt_middlewares r)\<rparr>))"

text \<open>\<open>None\<close>: \<open>ServeMux.Handle\<close> panics on a pattern it has already or cannot parse.\<close>

definition rt_Handle :: "('l, 's) MuxLib \<Rightarrow> string \<Rightarrow> ('l, 's) handler \<Rightarrow> ('l, 's) Router \<Rightarrow> ('l, 's) Router option" where
  "rt_Handle mx pattern h r =
     (if mx_conflict mx (map fst (rt_routes r)) pattern then None
      else Some (r\<lparr>rt_routes := AList.update pattern h (rt_routes r)\<rparr>))"

definition insert_pattern :: "string \<Rightarrow> string list \<Rightarrow> string list" where
  "insert_pattern p ps = (if p \<in> set ps then ps else ps @ [p])"

definition OnStatus :: "string \<Rightarrow> int \<Rightarrow> ('l, 's) handler \<Rightarrow> ('l, 's) Router \<Rightarrow> ('l, 's) Router" where
  "OnStatus pattern status fn r =
     (let m = (case rt_onStatus r pattern of Some m \<Rightarrow> m | None \<Rightarrow> Map.empty)
      in r\<lparr>rt_onStatus := (rt_onStatus r)(pattern \<mapsto> m(status \<mapsto> fn)),
           rt_onStatusPatterns := insert_pattern pattern (rt_onStatusPatterns r)\<rparr>)"

definition rt_UnregisterHandler ::
    "string list \<Rightarrow> ('l, 's) World \<Rightarrow> ('l, 's) Router \<Rightarrow> ('l, 's) World \<times> ('l, 's) Router" where
  "rt_UnregisterHandler patterns w r =
     (if \<exists>p \<in> set patterns. map_of (rt_routes r) p = None then (w, r)
      else (w\<lparr>wd_limits := (\<lambda>p. if p \<in> set patterns then None else wd_limits w p)\<rparr>,
            r\<lparr>rt_routes := filter (\<lambda>(p, h). p \<notin> set patterns) (rt_routes r),
              rt_limitedPatterns := filter (\<lambda>p. p \<notin> set patterns) (rt_limitedPatterns r)\<rparr>))"

definition rt_UnregisterAllHandler :: "('l, 's) World \<Rightarrow> ('l, 's) Router \<Rightarrow> ('l, 's) World \<times> ('l, 's) Router" where
  "rt_UnregisterAllHandler w r = (w\<lparr>wd_limits := Map.empty\<rparr>, r\<lparr>rt_routes := [], rt_limitedPatterns := []\<rparr>)"

definition rt_GetRegisteredRoutes :: "('l, 's) Router \<Rightarrow> string list" where
  "rt_GetRegisteredRoutes r = map fst (rt_routes r)"

fun limit_positive :: "Limit \<Rightarrow> bool" where
  "limit_positive Inf = True"
| "limit_positive (Lim q) = (0 < q)"

datatype web_err = BadLimit Limit int | AlreadyLimited string | BadCIDR string

definition registerRateLimit ::
    "string \<Rightarrow> Limit \<Rightarrow> int \<Rightarrow> ('l, 's) World \<Rightarrow> ('l, 's) Router \<Rightarrow> web_err option \<times> ('l, 's) World \<times> ('l, 's) Router" where
  "registerRateLimit pattern limit burst w r =
     (if \<not> limit_positive limit \<or> burst \<le> 0 then (Some (BadLimit limit burst), w, r)
      else if wd_limits w pattern \<noteq> None then (Some (AlreadyLimited pattern), w, r)
      else (None,
            w\<lparr>wd_limits := (wd_limits w)(pattern \<mapsto> \<lparr>ls_limit = limit, ls_burst = burst, ls_state = Map.empty\<rparr>)\<rparr>,
            r\<lparr>rt_limitedPatterns := insert_pattern pattern (rt_limitedPatterns r)\<rparr>))"

section \<open>Addresses\<close>

definition clientIP :: "NetLib \<Rightarrow> Request \<Rightarrow> string" where
  "clientIP nl rq =
     (let xff = hd_Get ''X-Forwarded-For'' (rq_Header rq); xRealIP = hd_Get ''X-Real-IP'' (rq_Header rq) in
      if xff \<noteq> [] then TrimSpace (hd (Split_char CHR '','' xff))
      else if xRealIP \<noteq> [] then TrimSpace xRealIP
      else if rq_RemoteAddr rq \<noteq> [] then
        (case nl_SplitHostPort nl (rq_RemoteAddr rq) of None \<Rightarrow> rq_RemoteAddr rq | Some (host, port) \<Rightarrow> host)
      else [])"

definition ipInList :: "IP \<Rightarrow> iplist \<Rightarrow> bool" where
  "ipInList ip l = list_ex (\<lambda>(k, n). Contains n ip) l"

fun is_v4 :: "IP \<Rightarrow> bool" where
  "is_v4 (V4 _) = True"
| "is_v4 (V6 _) = False"

fun parseIPList :: "NetLib \<Rightarrow> string list \<Rightarrow> web_err + IPNet list" where
  "parseIPList nl [] = Inr []"
| "parseIPList nl (entry # entries) =
     (let entry' = (if CHR ''/'' \<notin> set entry then
                      (case nl_ParseIP nl entry of
                         Some ip \<Rightarrow> entry @ (if is_v4 ip then ''/32'' else ''/128'')
                       | None \<Rightarrow> entry)
                    else entry) in
      case nl_ParseCIDR nl entry' of
        None \<Rightarrow> Inl (BadCIDR entry')
      | Some n \<Rightarrow> (case parseIPList nl entries of Inl e \<Rightarrow> Inl e | Inr ns \<Rightarrow> Inr (n # ns)))"

definition ip_map :: "NetLib \<Rightarrow> IPNet list \<Rightarrow> iplist" where
  "ip_map nl ns = fold (\<lambda>n m. AList.update (nl_IPNet_String nl n) n m) ns []"

definition setWhitelist :: "NetLib \<Rightarrow> string list \<Rightarrow> ('l, 's) World \<Rightarrow> web_err option \<times> ('l, 's) World" where
  "setWhitelist nl entries w =
     (case parseIPList nl entries of Inl e \<Rightarrow> (Some e, w) | Inr ns \<Rightarrow> (None, w\<lparr>wd_whitelist := ip_map nl ns\<rparr>))"

definition setBlacklist :: "NetLib \<Rightarrow> string list \<Rightarrow> ('l, 's) World \<Rightarrow> web_err option \<times> ('l, 's) World" where
  "setBlacklist nl entries w =
     (case parseIPList nl entries of Inl e \<Rightarrow> (Some e, w) | Inr ns \<Rightarrow> (None, w\<lparr>wd_blacklist := ip_map nl ns\<rparr>))"

section \<open>Serving\<close>

definition rt_block ::
    "NetLib \<Rightarrow> Request \<Rightarrow> ('l, 's) World \<times> ResponseWriter \<Rightarrow> bool \<times> ('l, 's) World \<times> ResponseWriter" where
  "rt_block nl rq s =
     (let (w, rw) = s in
      case nl_ParseIP nl (clientIP nl rq) of
        None \<Rightarrow> (True, w, http_Error ''Invalid IP address'' 400 rw)
      | Some ip \<Rightarrow>
          if \<not> ipInList ip (wd_whitelist w) \<and> ipInList ip (wd_blacklist w)
          then (True, w, http_Error ''Forbidden'' 403 rw)
          else (False, w, rw))"

definition pattern_matches :: "string \<Rightarrow> string \<Rightarrow> bool" where
  "pattern_matches path pattern \<longleftrightarrow>
     pattern = path \<or> (HasSuffix pattern ''/'' \<and> HasPrefix path pattern) \<or> pattern = ''/''"

fun match_loop :: "string \<Rightarrow> string \<Rightarrow> string list \<Rightarrow> string" where
  "match_loop path matched [] = matched"
| "match_loop path matched (p # ps) =
     match_loop path (if pattern_matches path p \<and> length p > length matched then p else matched) ps"

definition matchPattern :: "string \<Rightarrow> string list \<Rightarrow> string" where
  "matchPattern path patterns = match_loop path [] patterns"

definition limiter :: "'l RateLib \<Rightarrow> string \<Rightarrow> 'l limitStore \<Rightarrow> 'l \<times> 'l limitStore" where
  "limiter rl ip ls =
     (case ls_state ls ip of
        Some l \<Rightarrow> (l, ls)
      | None \<Rightarrow> (let l = rl_NewLimiter rl (ls_limit ls) (ls_burst ls) in (l, ls\<lparr>ls_state := (ls_state ls)(ip \<mapsto> l)\<rparr>)))"

text \<open>
  Between calls a limited pattern has a limit store. \<open>patterns\<close> is the copy that \<open>ServeHTTP\<close> took at its
  start: when \<open>UnregisterHandler\<close> removes the store in between, the code dereferences nil and the server
  recovers the panic of that request; the model, which serves a request in one step, leaves the
  request alone there.
\<close>

definition rateLimit ::
    "'l RateLib \<Rightarrow> NetLib \<Rightarrow> time \<Rightarrow> string list \<Rightarrow> Request \<Rightarrow> ('l, 's) World \<times> ResponseWriter \<Rightarrow> ('l, 's) World \<times> ResponseWriter" where
  "rateLimit rl nl now patterns rq s =
     (let (w, rw) = s; matched = matchPattern (rq_Path rq) patterns in
      if matched = [] then (w, rw)
      else let ip = clientIP nl rq in
        if ip = [] then (w, http_Error ''Internal Server Error'' 500 rw)
        else case wd_limits w matched of
          None \<Rightarrow> (w, rw)
        | Some ls \<Rightarrow>
            (let (l, ls1) = limiter rl ip ls; (ok, l1) = rl_Allow rl now l;
                 w1 = w\<lparr>wd_limits := (wd_limits w)(matched \<mapsto> ls1\<lparr>ls_state := (ls_state ls1)(ip \<mapsto> l1)\<rparr>)\<rparr>
             in if \<not> ok then (w1, http_Error ''Too Many Requests'' 429 rw) else (w1, rw)))"

definition canonicalRedirect ::
    "('l, 's) Router \<Rightarrow> Request \<Rightarrow> ('l, 's) World \<times> ResponseWriter \<Rightarrow> ('l, 's) World \<times> ResponseWriter" where
  "canonicalRedirect r rq s =
     (let (w, rw) = s in
      if rt_canonicalDomain r = [] then (w, rw)
      else
        (let addr = Split_char CHR '':'' (rq_Host rq); domain = addr ! 0;
             port = (if length addr > 1 then CHR '':'' # addr ! 1 else []) in
         if domain \<noteq> rt_canonicalDomain r then
           (w, http_MovedPermanently rq
                 ((if rq_TLS rq then ''https'' else ''http'') @ ''://'' @ rt_canonicalDomain r @ port @ rq_RequestURI rq) rw)
         else (w, rw)))"

definition rt_wrap :: "('l, 's) Router \<Rightarrow> ('l, 's) handler \<Rightarrow> ('l, 's) handler" where
  "rt_wrap r h = fold (\<lambda>group h. foldr (\<lambda>m h. m h) group h) (rt_sorted r) h"

definition handleStatusHooks ::
    "('l, 's) Router \<Rightarrow> Request \<Rightarrow> ('l, 's) World \<times> ResponseWriter \<Rightarrow> ('l, 's) World \<times> ResponseWriter" where
  "handleStatusHooks r rq s =
     (let (w, rw) = s; matched = matchPattern (rq_Path rq) (rt_onStatusPatterns r) in
      if matched = [] then (w, rw)
      else case rt_onStatus r matched of
        None \<Rightarrow> (w, rw)
      | Some m \<Rightarrow> (case m (rw_status rw) of None \<Rightarrow> (w, rw) | Some fn \<Rightarrow> fn rq (w, rw_clear rw)))"

definition serve_open ::
    "'l RateLib \<Rightarrow> NetLib \<Rightarrow> ('l, 's) MuxLib \<Rightarrow> time \<Rightarrow> ('l, 's) Router \<Rightarrow> Request \<Rightarrow>
     ('l, 's) World \<times> ResponseWriter \<Rightarrow> ('l, 's) World \<times> ResponseWriter" where
  "serve_open rl nl mx now r rq s =
     rt_wrap r (mx_serve mx (rt_routes r)) rq (rateLimit rl nl now (rt_limitedPatterns r) rq (canonicalRedirect r rq s))"

definition ServeHTTP ::
    "'l RateLib \<Rightarrow> NetLib \<Rightarrow> ('l, 's) MuxLib \<Rightarrow> time \<Rightarrow> ('l, 's) Router \<Rightarrow> Request \<Rightarrow>
     ('l, 's) World \<times> RawWriter \<Rightarrow> ('l, 's) World \<times> RawWriter" where
  "ServeHTTP rl nl mx now r rq s =
     (let (w, raw) = s; (blocked, s1) = rt_block nl rq (w, newResponseWriter);
          s2 = (if blocked then s1 else serve_open rl nl mx now r rq s1);
          (w3, rw3) = handleStatusHooks r rq s2
      in (w3, rw_flush rw3 raw))"

definition honeypot :: "NetLib \<Rightarrow> ('l, 's) handler" where
  "honeypot nl rq s =
     (let (w, rw) = s in
      case nl_ParseIP nl (clientIP nl rq) of
        None \<Rightarrow> (w, http_Error ''Invalid IP address'' 400 rw)
      | Some ip \<Rightarrow>
          if ipInList ip (wd_whitelist w) then (w, rw)
          else case nl_ParseCIDR nl (nl_IP_String nl ip @ (if is_v4 ip then ''/32'' else ''/128'')) of
            None \<Rightarrow> (w, rw)
          | Some n \<Rightarrow>
              (let bl = AList.update (nl_IPNet_String nl n) n (wd_blacklist w);
                   w1 = w\<lparr>wd_blacklist := bl\<rparr>
               in (if wd_honeypotCallback w1 then w1\<lparr>wd_callbacks := wd_callbacks w1 @ [bl]\<rparr> else w1, rw)))"

section \<open>Middleware\<close>

definition set_headers :: "(string \<times> string) list \<Rightarrow> header \<Rightarrow> header" where
  "set_headers kvs h = fold (\<lambda>(k, v) h. hd_Set k v h) kvs h"

definition securityHeaders :: "string \<Rightarrow> (string \<times> string) list" where
  "securityHeaders gitCommit =
    [(''ETag'', gitCommit),
     (''Cache-Control'', ''public, must-revalidate, max-age=86400, stale-while-revalidate=3600, stale-if-error=86400''),
     (''Strict-Transport-Security'', ''max-age=31536000; includeSubDomains; preload''),
     (''X-Content-Type-Options'', ''nosniff''),
     (''X-Frame-Options'', ''DENY''),
     (''X-XSS-Protection'', ''1; mode=block''),
     (''Referrer-Policy'', ''no-referrer-when-downgrade'')]"

definition corsHeaders :: "(string \<times> string) list" where
  "corsHeaders =
    [(''Access-Control-Allow-Origin'', ''*''),
     (''Access-Control-Allow-Methods'', ''GET, POST, PUT, DELETE, OPTIONS''),
     (''Access-Control-Allow-Headers'', ''Content-Type, Authorization, X-Real-IP'')]"

text \<open>\<open>debug\<close> is \<open>flag.Debug\<close>.\<close>

definition securityHeaderMiddleware :: "string \<Rightarrow> bool \<Rightarrow> ('l, 's) http_mw" where
  "securityHeaderMiddleware gitCommit debug next rq s =
     (let (w, rw) = s; cacheControl = wd_cacheControl w; inm = hd_Get ''If-None-Match'' (rq_Header rq) in
      if inm \<noteq> [] \<and> (inm = gitCommit \<or> inm = [CHR 0x22] @ gitCommit @ [CHR 0x22]) then (w, rw_WriteHeader 304 rw)
      else
        (let kvs = filter (\<lambda>(k, v). \<not> (k = ''Cache-Control'' \<and> cacheControl \<noteq> [])) (securityHeaders gitCommit);
             h1 = set_headers kvs;
             h2 = (if cacheControl \<noteq> [] then hd_Set ''Cache-Control'' cacheControl else id);
             h3 = (if debug then hd_Set ''Cache-Control'' ''no-store, no-cache, must-revalidate, max-age=0'' else id)
         in next rq (w, on_header (h3 \<circ> h2 \<circ> h1) rw)))"

definition corsHeaderMiddleware :: "('l, 's) http_mw" where
  "corsHeaderMiddleware next rq s = (let (w, rw) = s in next rq (w, on_header (set_headers corsHeaders) rw))"

definition varyHeaderMiddleware :: "string list \<Rightarrow> ('l, 's) http_mw" where
  "varyHeaderMiddleware headers next rq s =
     (let (w, rw) = next rq s; existing = hd_Get ''Vary'' (rw_header rw) in
      if headers = [] then (w, rw)
      else
        (let allHeaders = (if existing \<noteq> [] then [existing] else []) @ headers
         in (w, on_header (\<lambda>h. fold (\<lambda>v h. hd_Add ''Vary'' v h) (tl allHeaders) (hd_Set ''Vary'' (hd allHeaders) h)) rw)))"

text \<open>
  \<open>logMiddleware\<close> changes nothing but the log; its entry's level, in zerolog's numbers, follows the status: error,
  warning or debug. Handlers of the model work on the \<open>ResponseWriter\<close> that \<open>ServeHTTP\<close> made. Inside a middleware
  that hands a writer of its own to the next handler (as one of equal order added before it, or of lower
  order, may), the code buffers into a new \<open>ResponseWriter\<close> that nothing flushes; such middlewares
  are not expressible here.
\<close>

definition logMiddleware :: "('l, 's) http_mw" where
  "logMiddleware next rq s = next rq s"

definition request_loglevel :: "int \<Rightarrow> int" where
  "request_loglevel status = (let l = 0; l = (if status \<ge> 400 then 2 else l) in if status \<ge> 500 then 3 else l)"

section \<open>Pattern matching\<close>

text \<open>
  The reference: of the prefixes of the path, longest first, the first one that is registered and is
  the path itself or ends in a slash. It depends on the set of patterns only.
\<close>

definition longest_route :: "string \<Rightarrow> string set \<Rightarrow> string" where
  "longest_route path S =
     (case find (\<lambda>p. p \<in> S \<and> (p = path \<or> HasSuffix p ''/'')) (rev (prefixes path)) of Some p \<Rightarrow> p | None \<Rightarrow> [])"

lemma pattern_matches_prefix:
  assumes "HasPrefix path ''/''"
  shows "pattern_matches path p \<longleftrightarrow> prefix p path \<and> (p = path \<or> HasSuffix p ''/'')"
  using assms by (auto simp: pattern_matches_def HasPrefix_iff HasSuffix_iff prefix_def)

text \<open>What the loop returns: the longest of its start value and the matching patterns, if they are all prefixes of one path.\<close>

lemma match_loop_longest:
  "match_loop path m ps \<in> insert m {p \<in> set ps. pattern_matches path p}
   \<and> length m \<le> length (match_loop path m ps)
   \<and> (\<forall>p \<in> set ps. pattern_matches path p \<longrightarrow> length p \<le> length (match_loop path m ps))"
proof (induction ps arbitrary: m)
  case (Cons p ps)
  show ?case using Cons.IH [of p] Cons.IH [of m] by (auto intro: order_trans)
qed simp

lemma find_rev_prefixes:
  assumes "P p" "prefix p path" and longest: "\<And>q. prefix q path \<Longrightarrow> P q \<Longrightarrow> length q \<le> length p"
  shows "find P (rev (prefixes path)) = Some p"
  using assms(2) longest
proof (induction path rule: rev_induct)
  case Nil
  then show ?case using assms(1) by simp
next
  case (snoc c path)
  show ?case
  proof (cases "p = path @ [c]")
    case True
    then show ?thesis using assms(1) by (simp add: prefixes_snoc)
  next
    case False
    then have p: "prefix p path" using snoc.prems(1) by simp
    then have "\<not> P (path @ [c])" using snoc.prems(2) [of "path @ [c]"] prefix_length_le [OF p] by auto
    moreover have "find P (rev (prefixes path)) = Some p" using p snoc.prems(2) by (intro snoc.IH) auto
    ultimately show ?thesis by (simp add: prefixes_snoc)
  qed
qed

lemma find_rev_prefixes_None: "(\<And>q. prefix q path \<Longrightarrow> \<not> P q) \<Longrightarrow> find P (rev (prefixes path)) = None"
  by (simp add: find_None_iff in_set_prefixes)

text \<open>
  C21: For a path that starts with a slash, \<open>matchPattern\<close> is longest-prefix routing: in whatever order
  Go iterates over the set of patterns, it returns the longest registered pattern that is the path or
  a prefix of it ending in a slash, and the empty string if there is none.
\<close>

theorem match_pattern_is_longest_route:
  assumes "HasPrefix path ''/''"
  shows "matchPattern path ps = longest_route path (set ps)"
proof -
  let ?m = "matchPattern path ps" and ?P = "\<lambda>p. p \<in> set ps \<and> (p = path \<or> HasSuffix p ''/'')"
  have m: "?m \<in> insert [] {p \<in> set ps. pattern_matches path p}"
    and longest: "\<And>p. p \<in> set ps \<Longrightarrow> pattern_matches path p \<Longrightarrow> length p \<le> length ?m"
    using match_loop_longest [of path "[]" ps] by (auto simp: matchPattern_def)
  note eq = pattern_matches_prefix [OF assms]
  show ?thesis
  proof (cases "\<exists>p. prefix p path \<and> ?P p")
    case False
    then have "?m = []" using m by (auto simp: eq)
    moreover have "find ?P (rev (prefixes path)) = None" using False by (intro find_rev_prefixes_None) blast
    ultimately show ?thesis by (simp add: longest_route_def)
  next
    case True
    then obtain p where p: "prefix p path" "?P p" by blast
    have "p \<noteq> []" using p(2) assms by (auto simp: HasSuffix_iff HasPrefix_iff)
    moreover have "length p \<le> length ?m" using longest p by (auto simp: eq)
    ultimately have "?m \<noteq> []" by auto
    then have "prefix ?m path \<and> ?P ?m" using m by (auto simp: eq)
    then have "find ?P (rev (prefixes path)) = Some ?m"
      using longest by (intro find_rev_prefixes) (auto simp: eq)
    then show ?thesis by (simp add: longest_route_def)
  qed
qed

theorem match_pattern_is_longest_route_witness:
  "matchPattern ''/api/v1/users'' [''/'', ''/api/v1/'', ''/api/''] = longest_route ''/api/v1/users'' (set [''/'', ''/api/v1/'', ''/api/''])
   \<and> longest_route ''/api/v1/users'' {''/'', ''/api/v1/'', ''/api/''} = ''/api/v1/''"
proof -
  have "HasPrefix ''/api/v1/users'' ''/''" by code_simp
  from match_pattern_is_longest_route [OF this] have "matchPattern ''/api/v1/users'' [''/'', ''/api/v1/'', ''/api/''] = longest_route ''/api/v1/users'' (set [''/'', ''/api/v1/'', ''/api/''])" .
  moreover have "matchPattern ''/api/v1/users'' [''/'', ''/api/v1/'', ''/api/''] = ''/api/v1/''" by code_simp
  ultimately show ?thesis by simp
qed

section \<open>The order of the middleware\<close>

lemma mset_concat_groups:
  "distinct ks \<Longrightarrow> mset (concat (map (\<lambda>k. filter (\<lambda>x. f x = k) xs) ks)) = filter_mset (\<lambda>x. f x \<in> set ks) (mset xs)"
proof (induction ks)
  case (Cons k ks)
  have "filter_mset (\<lambda>x. f x = k \<or> f x \<in> set ks) (mset xs)
        = filter_mset (\<lambda>x. f x = k) (mset xs) + filter_mset (\<lambda>x. f x \<in> set ks) (mset xs)"
    using Cons.prems by (intro multiset_eqI) auto
  then show ?case using Cons by (simp add: mset_filter)
qed simp

lemma sorted_concat_groups:
  "sorted ks \<Longrightarrow> sorted (map f (concat (map (\<lambda>k. filter (\<lambda>x. f x = k) xs) ks)))"
proof (induction ks)
  case (Cons k ks)
  have "sorted (map f (filter (\<lambda>x. f x = k) xs))" by (induction xs) auto
  then show ?case using Cons by (auto simp: sorted_append)
qed simp

lemma filter_concat_groups:
  "distinct ks \<Longrightarrow> k \<in> set ks \<Longrightarrow> filter (\<lambda>x. f x = k) (concat (map (\<lambda>k. filter (\<lambda>x. f x = k) xs) ks)) = filter (\<lambda>x. f x = k) xs"
proof (induction ks)
  case (Cons j ks)
  have none: "j \<noteq> k \<Longrightarrow> filter (\<lambda>x. f x = k) (filter (\<lambda>x. f x = j) xs) = []" by (simp add: filter_empty_conv)
  have rest: "k \<notin> set ks \<Longrightarrow> filter (\<lambda>x. f x = k) (concat (map (\<lambda>k. filter (\<lambda>x. f x = k) xs) ks)) = []"
    by (auto simp: filter_empty_conv)
  show ?case using Cons none rest by (cases "j = k") auto
qed simp

text \<open>A stable sort by a key is the concatenation of the groups of equal key, in the order of the keys.\<close>

lemma sort_key_groups:
  fixes f :: "'a \<Rightarrow> 'k::linorder"
  assumes "distinct ks" "set ks = f ` set xs" "sorted ks"
  shows "sort_key f xs = concat (map (\<lambda>k. filter (\<lambda>x. f x = k) xs) ks)"
proof (rule properties_for_sort_key)
  show "mset (concat (map (\<lambda>k. filter (\<lambda>x. f x = k) xs) ks)) = mset xs"
    using assms by (simp add: mset_concat_groups filter_mset_eq_conv)
  show "sorted (map f (concat (map (\<lambda>k. filter (\<lambda>x. f x = k) xs) ks)))" using assms(3) by (rule sorted_concat_groups)
  fix x assume "x \<in> set (concat (map (\<lambda>k. filter (\<lambda>x. f x = k) xs) ks))"
  then have "f x \<in> set ks" by auto
  from filter_concat_groups [OF assms(1) this, of f xs]
  show "filter (\<lambda>y. f x = f y) (concat (map (\<lambda>k. filter (\<lambda>x. f x = k) xs) ks)) = filter (\<lambda>y. f x = f y) xs"
    by (simp add: eq_commute)
qed

text \<open>A router that was built by a list of calls to \<open>Use\<close>.\<close>

definition uses_of :: "(int \<times> ('l, 's) http_mw) list \<Rightarrow> int \<Rightarrow> ('l, 's) http_mw list" where
  "uses_of uses k = map snd (filter (\<lambda>u. fst u = k) uses)"

definition used_by :: "(int \<times> ('l, 's) http_mw) list \<Rightarrow> ('l, 's) Router \<Rightarrow> bool" where
  "used_by uses r \<longleftrightarrow>
     distinct (map fst (rt_middlewares r)) \<and> fst ` set (rt_middlewares r) = fst ` set uses
     \<and> (\<forall>k \<in> fst ` set uses. map_of (rt_middlewares r) k = Some (uses_of uses k))
     \<and> rt_sorted r = map (uses_of uses) (rev (sort (map fst (rt_middlewares r))))"

lemma uses_of_absent: "k \<notin> fst ` set uses \<Longrightarrow> uses_of uses k = []"
  by (auto simp: uses_of_def filter_empty_conv)

lemma used_by_current:
  assumes "used_by uses r"
  shows "(case map_of (rt_middlewares r) k of Some ms \<Rightarrow> ms | None \<Rightarrow> []) = uses_of uses k"
proof (cases "k \<in> fst ` set uses")
  case False
  then have "map_of (rt_middlewares r) k = None" using assms by (simp add: used_by_def map_of_eq_None_iff)
  then show ?thesis using False by (simp add: uses_of_absent)
qed (use assms in \<open>auto simp: used_by_def\<close>)

lemma used_by_Use:
  assumes u: "used_by uses r"
  shows "used_by (uses @ [(k, m)]) (rt_Use k m r)"
proof -
  let ?ms = "AList.update k (uses_of uses k @ [m]) (rt_middlewares r)" and ?uses = "uses @ [(k, m)]"
  have r': "rt_Use k m r = rt_sort (r\<lparr>rt_middlewares := ?ms\<rparr>)" by (simp add: rt_Use_def used_by_current [OF u])
  have keys: "fst ` set ?ms = fst ` set ?uses" using u by (simp add: used_by_def dom_update insert_commute)
  have lookup: "map_of ?ms j = Some (uses_of ?uses j)" if j: "j \<in> fst ` set ?uses" for j
    using j u by (auto simp: update_conv used_by_def uses_of_def)
  have ms: "rt_middlewares (rt_Use k m r) = ?ms" by (simp add: r' rt_sort_def Let_def)
  have d: "distinct (map fst ?ms)" using u by (simp add: used_by_def distinct_update)
  have "rt_sorted (rt_Use k m r) = map (\<lambda>j. case map_of ?ms j of Some ms \<Rightarrow> ms | None \<Rightarrow> []) (rev (sort (map fst ?ms)))"
    by (simp add: r' rt_sort_def Let_def)
  also have "\<dots> = map (uses_of ?uses) (rev (sort (map fst ?ms)))"
  proof (rule map_cong [OF refl])
    fix j assume "j \<in> set (rev (sort (map fst ?ms)))"
    then show "(case map_of ?ms j of Some ms \<Rightarrow> ms | None \<Rightarrow> []) = uses_of ?uses j"
      using lookup [of j] keys by simp
  qed
  finally show ?thesis unfolding used_by_def ms using d keys lookup by blast
qed

lemma used_by_fold: "used_by pre r \<Longrightarrow> used_by (pre @ uses) (fold (\<lambda>(k, m). rt_Use k m) uses r)"
proof (induction uses arbitrary: pre r)
  case (Cons u uses)
  from Cons.IH [OF used_by_Use [OF Cons.prems, of "fst u" "snd u"]] show ?case by (simp add: case_prod_beta)
qed simp

lemma foldr_map_groups: "foldr (\<lambda>group h. foldr (\<lambda>m h. m h) group h) gs h = foldr (\<lambda>m h. m h) (concat gs) h"
  by (induction gs) auto

text \<open>
  The layers that \<open>wrap\<close> builds: a stable sort of the calls of \<open>Use\<close> by their order value, with the handler
  innermost, whatever the sign of the orders (the comments of \<open>MiddlewareOrderHigh\<close> and
  \<open>MiddlewareOrderLog\<close> put middlewares with positive orders after the handler).
\<close>

lemma wrap_layers:
  "rt_wrap (fold (\<lambda>(k, m). rt_Use k m) uses NewRouter) h = foldr (\<lambda>u h. snd u h) (sort_key fst uses) h"
proof -
  let ?r = "fold (\<lambda>(k, m). rt_Use k m) uses NewRouter"
  let ?ks = "sort (map fst (rt_middlewares ?r))"
  have "used_by [] NewRouter" by (simp add: used_by_def NewRouter_def)
  from used_by_fold [OF this] have "used_by uses ?r" by simp
  then have sorted: "rt_sorted ?r = rev (map (uses_of uses) ?ks)" and ks: "distinct ?ks" "set ?ks = fst ` set uses"
    by (auto simp: used_by_def rev_map)
  have "rt_wrap ?r h = foldr (\<lambda>m h. m h) (concat (map (uses_of uses) ?ks)) h"
    by (simp add: rt_wrap_def sorted foldr_conv_fold [symmetric] foldr_map_groups)
  also have "concat (map (uses_of uses) ?ks) = map snd (sort_key fst uses)"
    by (simp add: sort_key_groups [OF ks sorted_sort] uses_of_def [abs_def] map_concat comp_def)
  finally show ?thesis by (simp add: foldr_map comp_def)
qed

lemma sorted_partition:
  assumes "sorted (map f xs)" "\<And>x y. P x \<Longrightarrow> \<not> P y \<Longrightarrow> f x < f y"
  shows "xs = filter P xs @ filter (\<lambda>x. \<not> P x) xs"
  using assms(1)
proof (induction xs)
  case (Cons x xs)
  show ?case
  proof (cases "P x")
    case False
    then have "\<not> P y" if "y \<in> set xs" for y using assms(2) [of y x] Cons.prems that by fastforce
    then show ?thesis using False by simp
  qed (use Cons in simp)
qed simp

lemma sort_key_partition:
  assumes "\<And>x y. P x \<Longrightarrow> \<not> P y \<Longrightarrow> f x < f y"
  shows "sort_key f xs = sort_key f (filter P xs) @ sort_key f (filter (\<lambda>x. \<not> P x) xs)"
  using sorted_partition [of f "sort_key f xs" P] assms by (simp add: filter_sort)

text \<open>
  C7: Negative orders run before the handler, in order: however the calls of \<open>Use\<close> are interleaved, the request
  first passes the middlewares with negative orders, sorted stably (lower orders outside, equal orders in
  the order they were added), and then what a router with the other middlewares alone makes of the
  handler, which is the handler itself where there are none.
\<close>

theorem middleware_order:
  "rt_wrap (fold (\<lambda>(k, m). rt_Use k m) uses NewRouter) h =
     foldr (\<lambda>u h. snd u h) (sort_key fst (filter (\<lambda>u. fst u < 0) uses))
       (rt_wrap (fold (\<lambda>(k, m). rt_Use k m) (filter (\<lambda>u. \<not> fst u < 0) uses) NewRouter) h) \<and>
   rt_wrap NewRouter h = h"
proof -
  have "sort_key fst uses = sort_key fst (filter (\<lambda>u. fst u < 0) uses) @ sort_key fst (filter (\<lambda>u. \<not> fst u < 0) uses)"
    by (rule sort_key_partition) simp
  moreover have "rt_wrap NewRouter h = h" using wrap_layers [of "[]" h] by simp
  ultimately show ?thesis by (simp add: wrap_layers)
qed

section \<open>Guards\<close>

definition no_hook :: "('l, 's) Router \<Rightarrow> Request \<Rightarrow> int \<Rightarrow> bool" where
  "no_hook r rq status \<longleftrightarrow>
     (case rt_onStatus r (matchPattern (rq_Path rq) (rt_onStatusPatterns r)) of None \<Rightarrow> True | Some m \<Rightarrow> m status = None)"

lemma no_hook_serves: "no_hook r rq (rw_status rw) \<Longrightarrow> handleStatusHooks r rq (w, rw) = (w, rw)"
  by (auto simp: handleStatusHooks_def no_hook_def Let_def split: option.splits)

definition fresh_writer :: "RawWriter \<Rightarrow> bool" where
  "fresh_writer raw \<longleftrightarrow> w_status raw = None \<and> w_body raw = [] \<and> \<not> w_broken raw"

lemma flush_fresh:
  assumes "fresh_writer raw" "\<not> rw_hijacked rw"
  shows "w_status (rw_flush rw raw) = Some (rw_status rw)" "w_body (rw_flush rw raw) = rw_body rw"
  using assms by (simp_all add: rw_flush_def fresh_writer_def raw_WriteHeader_def raw_Write_def Let_def)

lemma new_writer [simp]: "rw_body newResponseWriter = []" "rw_hijacked newResponseWriter = False" "rw_ok newResponseWriter"
  by (simp_all add: newResponseWriter_def rw_body_def rw_ok_def)

lemma http_Error_new [simp]: "rw_body (http_Error msg code newResponseWriter) = msg @ [CHR 0x0A]"
  using http_Error_body [of newResponseWriter msg code] by simp

text \<open>
  C9: A request from a blacklisted address that is not whitelisted, where no status hook for 403 is
  registered, gets 403 and the text Forbidden, and nothing else happens: whatever the routes, the
  middleware and the limiters are, neither the application's state nor any guard changes.
\<close>

theorem blacklisted_request_is_blocked:
  assumes "nl_ParseIP nl (clientIP nl rq) = Some ip" "\<not> ipInList ip (wd_whitelist w)" "ipInList ip (wd_blacklist w)"
    and "no_hook r rq 403" "fresh_writer raw"
  shows "fst (ServeHTTP rl nl mx now r rq (w, raw)) = w
    \<and> w_status (snd (ServeHTTP rl nl mx now r rq (w, raw))) = Some 403
    \<and> w_body (snd (ServeHTTP rl nl mx now r rq (w, raw))) = ''Forbidden'' @ [CHR 0x0A]"
proof -
  let ?rw = "http_Error ''Forbidden'' 403 newResponseWriter"
  have "rt_block nl rq (w, newResponseWriter) = (True, w, ?rw)" using assms(1-3) by (simp add: rt_block_def)
  moreover have "handleStatusHooks r rq (w, ?rw) = (w, ?rw)" using assms(4) by (intro no_hook_serves) simp
  ultimately have "ServeHTTP rl nl mx now r rq (w, raw) = (w, rw_flush ?rw raw)" by (simp add: ServeHTTP_def)
  then show ?thesis using flush_fresh [OF assms(5), of ?rw] by simp
qed

text \<open>What the honeypot relies on of package \<open>net\<close>: reading back a printed address as a one-address network, and injective printing of networks.\<close>

fun host_net :: "IP \<Rightarrow> IPNet" where
  "host_net (V4 a) = Net4 a 32"
| "host_net (V6 a) = Net6 a 128"

definition net_prints :: "NetLib \<Rightarrow> bool" where
  "net_prints nl \<longleftrightarrow>
     (\<forall>ip. nl_ParseCIDR nl (nl_IP_String nl ip @ (if is_v4 ip then ''/32'' else ''/128'')) = Some (host_net ip))
     \<and> (\<forall>m n. nl_IPNet_String nl m = nl_IPNet_String nl n \<longrightarrow> m = n)"

text \<open>The lists are keyed by the printed network, as \<open>setBlacklist\<close> and \<open>honeypot\<close> store them.\<close>

definition keyed :: "NetLib \<Rightarrow> iplist \<Rightarrow> bool" where
  "keyed nl l = list_all (\<lambda>(k, n). k = nl_IPNet_String nl n) l"

lemma Contains_host_net: "Contains (host_net ip) ip' \<longleftrightarrow> ip' = ip"
  by (cases ip; cases ip') auto

lemma keyed_update: "keyed nl l \<Longrightarrow> keyed nl (AList.update (nl_IPNet_String nl n) n l)"
  by (induction l) (auto simp: keyed_def)

lemma keyed_ip_map: "keyed nl (ip_map nl ns)"
proof -
  have "keyed nl l \<Longrightarrow> keyed nl (fold (\<lambda>n m. AList.update (nl_IPNet_String nl n) n m) ns l)" for l
    by (induction ns arbitrary: l) (simp_all add: keyed_update)
  then show ?thesis by (simp add: ip_map_def keyed_def)
qed

lemma ipInList_update:
  assumes "net_prints nl" "keyed nl l"
  shows "ipInList ip (AList.update (nl_IPNet_String nl n) n l) \<longleftrightarrow> Contains n ip \<or> ipInList ip l"
  using assms(2)
proof (induction l)
  case (Cons p l)
  obtain m where p: "p = (nl_IPNet_String nl m, m)" using Cons.prems by (cases p) (simp add: keyed_def)
  have inj: "nl_IPNet_String nl m = nl_IPNet_String nl n \<Longrightarrow> m = n" using assms(1) by (simp add: net_prints_def)
  show ?case using Cons p inj by (auto simp: ipInList_def keyed_def)
qed (simp add: ipInList_def)

text \<open>
  A client that is not whitelisted and opens a honeypot is blocked on its next request, whatever it
  asks for, and no other address becomes blocked by it.
\<close>

theorem honeypot_blocks_exactly_the_visitor:
  assumes "net_prints nl" "keyed nl (wd_blacklist w)"
    and "nl_ParseIP nl (clientIP nl rq) = Some ip" "\<not> ipInList ip (wd_whitelist w)"
    and "nl_ParseIP nl (clientIP nl rq') = Some ip'"
  shows "fst (rt_block nl rq' (fst (honeypot nl rq (w, rw)), rw'))
         \<longleftrightarrow> ip' = ip \<or> fst (rt_block nl rq' (w, rw'))"
proof -
  let ?bl = "AList.update (nl_IPNet_String nl (host_net ip)) (host_net ip) (wd_blacklist w)"
  have bl: "wd_blacklist (fst (honeypot nl rq (w, rw))) = ?bl" "wd_whitelist (fst (honeypot nl rq (w, rw))) = wd_whitelist w"
    using assms(1,3,4) by (simp_all add: honeypot_def net_prints_def Let_def)
  show ?thesis using assms(4,5) by (auto simp: rt_block_def bl ipInList_update [OF assms(1,2)] Contains_host_net)
qed

text \<open>
  The rate limiter only writes its answer; it does not stop the request. Where the limiter refuses,
  the client sees 429, but the handler still runs: its effect on the application happens and its
  output follows the error text.
\<close>

theorem rate_limited_request_still_served:
  assumes "\<not> fst (rt_block nl rq (w, newResponseWriter))" "rt_canonicalDomain r = []"
    and m: "matchPattern (rq_Path rq) (rt_limitedPatterns r) = p" "p \<noteq> []" "clientIP nl rq \<noteq> []" "wd_limits w p = Some ls"
    and refuse: "\<not> fst (rl_Allow rl now (fst (limiter rl (clientIP nl rq) ls)))"
    and h: "rt_wrap r (mx_serve mx (rt_routes r)) rq = (\<lambda>(w, rw). (w\<lparr>wd_app := f (wd_app w)\<rparr>, rw_Write b rw))"
    and "no_hook r rq 429" "fresh_writer raw"
  shows "wd_app (fst (ServeHTTP rl nl mx now r rq (w, raw))) = f (wd_app w)
    \<and> w_status (snd (ServeHTTP rl nl mx now r rq (w, raw))) = Some 429
    \<and> w_body (snd (ServeHTTP rl nl mx now r rq (w, raw))) = ''Too Many Requests'' @ [CHR 0x0A] @ b"
proof -
  let ?err = "http_Error ''Too Many Requests'' 429 newResponseWriter"
  have blk: "rt_block nl rq (w, newResponseWriter) = (False, w, newResponseWriter)"
    using assms(1) by (auto simp: rt_block_def split: option.splits if_splits)
  obtain w1 where rate: "rateLimit rl nl now (rt_limitedPatterns r) rq (w, newResponseWriter) = (w1, ?err)" "wd_app w1 = wd_app w"
  proof -
    obtain l ls1 where l: "limiter rl (clientIP nl rq) ls = (l, ls1)" by fastforce
    then obtain l1 where "rl_Allow rl now l = (False, l1)" using refuse by (cases "rl_Allow rl now l") auto
    with m l that show thesis by (simp add: rateLimit_def Let_def)
  qed
  let ?w2 = "w1\<lparr>wd_app := f (wd_app w1)\<rparr>" and ?rw2 = "rw_Write b ?err"
  have open_: "serve_open rl nl mx now r rq (w, newResponseWriter) = (?w2, ?rw2)"
    using assms(2) rate(1) by (simp add: serve_open_def canonicalRedirect_def h)
  have "handleStatusHooks r rq (?w2, ?rw2) = (?w2, ?rw2)" using assms(9) by (intro no_hook_serves) simp
  then have "ServeHTTP rl nl mx now r rq (w, raw) = (?w2, rw_flush ?rw2 raw)" by (simp add: ServeHTTP_def blk open_)
  moreover have "rw_body ?rw2 = ''Too Many Requests'' @ [CHR 0x0A] @ b"
    using http_Error_body [of newResponseWriter "''Too Many Requests''" 429] by (simp add: rw_Write_body)
  ultimately show ?thesis using flush_fresh [OF assms(10), of ?rw2] rate(2) by simp
qed

section \<open>Witnesses\<close>

text \<open>A network library that writes addresses in unary, and requests from the addresses 2 and 3.\<close>

fun unary_net :: "IPNet \<Rightarrow> string" where
  "unary_net (Net4 a k) = CHR ''w'' # replicate (unat a) CHR ''x'' @ CHR ''/'' # replicate k CHR ''y''"
| "unary_net (Net6 a k) = CHR ''z'' # replicate (unat a) CHR ''x'' @ CHR ''/'' # replicate k CHR ''y''"

fun unary_ip :: "IP \<Rightarrow> string" where
  "unary_ip (V4 a) = replicate (unat a) CHR ''x''"
| "unary_ip (V6 a) = replicate (unat a) CHR ''x''"

definition unary_lib :: NetLib where
  "unary_lib = \<lparr>nl_ParseIP = (\<lambda>s. Some (V4 (of_nat (length s)))),
     nl_ParseCIDR = (\<lambda>s. if HasSuffix s ''/32'' then Some (Net4 (of_nat (length s - 3)) 32)
                         else if HasSuffix s ''/128'' then Some (Net6 (of_nat (length s - 4)) 128) else None),
     nl_IP_String = unary_ip, nl_IPNet_String = unary_net, nl_SplitHostPort = (\<lambda>s. Some (s, []))\<rparr>"

definition rq_from :: "string \<Rightarrow> Request" where
  "rq_from addr = \<lparr>rq_Method = ''GET'', rq_Path = ''/a'', rq_Host = ''h'', rq_TLS = False, rq_RequestURI = ''/a'',
     rq_RemoteAddr = addr, rq_Header = Map.empty\<rparr>"

definition wit_world :: "(unit, nat) World" where
  "wit_world = \<lparr>wd_whitelist = [], wd_blacklist = [(unary_net (Net4 2 32), Net4 2 32)],
     wd_limits = [''/'' \<mapsto> \<lparr>ls_limit = Lim 1, ls_burst = 1, ls_state = Map.empty\<rparr>], wd_honeypotCallback = False, wd_callbacks = [], wd_cacheControl = [], wd_app = 0\<rparr>"

definition wit_raw :: RawWriter where
  "wit_raw = \<lparr>w_header = Map.empty, w_status = None, w_body = [], w_broken = False\<rparr>"

definition wit_router :: "(unit, nat) Router" where
  "wit_router = NewRouter\<lparr>rt_limitedPatterns := [''/'']\<rparr>"

definition refusing :: "unit RateLib" where
  "refusing = \<lparr>rl_NewLimiter = (\<lambda>_ _. ()), rl_Allow = (\<lambda>_ l. (False, l)), rl_Every = (\<lambda>_. Lim 1)\<rparr>"

definition count_mux :: "(unit, nat) MuxLib" where
  "count_mux = \<lparr>mx_serve = (\<lambda>_ _ (w, rw). (w\<lparr>wd_app := wd_app w + 1\<rparr>, rw_Write ''ok'' rw)), mx_conflict = (\<lambda>_ _. False)\<rparr>"

lemma append_slash_inj: "replicate m CHR ''x'' @ CHR ''/'' # u = replicate n CHR ''x'' @ CHR ''/'' # v \<Longrightarrow> m = n \<and> u = v"
proof (induction m arbitrary: n)
  case 0
  then show ?case by (cases n) auto
next
  case (Suc m)
  then show ?case by (cases n) auto
qed

lemma unary_net_inj: "unary_net m = unary_net n \<Longrightarrow> m = n"
  by (cases m; cases n) (auto dest!: append_slash_inj intro: unsigned_word_eqI)

lemma unary_net_prints: "net_prints unary_lib"
  unfolding net_prints_def
proof (intro conjI allI impI)
  fix ip
  show "nl_ParseCIDR unary_lib (nl_IP_String unary_lib ip @ (if is_v4 ip then ''/32'' else ''/128'')) = Some (host_net ip)"
    by (cases ip) (auto simp: unary_lib_def HasSuffix_def)
qed (simp add: unary_lib_def unary_net_inj)

lemma wit_facts:
  "nl_ParseIP unary_lib (clientIP unary_lib (rq_from ''xx'')) = Some (V4 2)"
  "nl_ParseIP unary_lib (clientIP unary_lib (rq_from ''xxx'')) = Some (V4 3)"
  "clientIP unary_lib (rq_from ''xxx'') = ''xxx''"
  "no_hook wit_router (rq_from a) s" "fresh_writer wit_raw" "keyed unary_lib (wd_blacklist wit_world)"
  "\<not> ipInList ip (wd_whitelist wit_world)" "ipInList (V4 2) (wd_blacklist wit_world)" "\<not> ipInList (V4 3) (wd_blacklist wit_world)"
  "rt_canonicalDomain wit_router = []"
  "matchPattern (rq_Path (rq_from a)) (rt_limitedPatterns wit_router) = ''/''"
  "wd_limits wit_world ''/'' = Some \<lparr>ls_limit = Lim 1, ls_burst = 1, ls_state = Map.empty\<rparr>"
  by (simp_all add: unary_lib_def clientIP_def rq_from_def hd_Get_def wit_world_def wit_router_def NewRouter_def
      no_hook_def fresh_writer_def wit_raw_def keyed_def ipInList_def matchPattern_def pattern_matches_def)

theorem blacklisted_request_is_blocked_witness:
  "w_status (snd (ServeHTTP refusing unary_lib count_mux 0 wit_router (rq_from ''xx'') (wit_world, wit_raw))) = Some 403"
  using blacklisted_request_is_blocked [OF wit_facts(1) wit_facts(7) wit_facts(8) wit_facts(4) wit_facts(5)] by blast

theorem honeypot_blocks_exactly_the_visitor_witness:
  "fst (rt_block unary_lib (rq_from ''xxx'') (fst (honeypot unary_lib (rq_from ''xxx'') (wit_world, newResponseWriter)), newResponseWriter))"
  using honeypot_blocks_exactly_the_visitor [OF unary_net_prints wit_facts(6) wit_facts(2) wit_facts(7) wit_facts(2)] by blast

theorem rate_limited_request_still_served_witness:
  "wd_app (fst (ServeHTTP refusing unary_lib count_mux 0 wit_router (rq_from ''xxx'') (wit_world, wit_raw))) = 1"
proof -
  have "\<not> fst (rt_block unary_lib (rq_from ''xxx'') (wit_world, newResponseWriter))"
    by (simp add: rt_block_def wit_facts(2,7,9))
  moreover have "\<not> fst (rl_Allow refusing 0 (fst (limiter refusing (clientIP unary_lib (rq_from ''xxx'')) \<lparr>ls_limit = Lim 1, ls_burst = 1, ls_state = Map.empty\<rparr>)))"
    by (simp add: refusing_def)
  moreover have "rt_wrap wit_router (mx_serve count_mux (rt_routes wit_router)) (rq_from ''xxx'')
      = (\<lambda>(w, rw). (w\<lparr>wd_app := Suc (wd_app w)\<rparr>, rw_Write ''ok'' rw))"
    by (simp add: rt_wrap_def wit_router_def NewRouter_def count_mux_def)
  ultimately show ?thesis
    using rate_limited_request_still_served [OF _ wit_facts(10) wit_facts(11) _ _ wit_facts(12) _ _ wit_facts(4) wit_facts(5)]
    by (simp add: wit_facts) (simp add: wit_world_def)
qed

end
