(* ===== verification/WebServer.thy ===== *)
theory WebServer
  imports Router
begin

text \<open>
  The server of the web package (\<open>src/web/web.go\<close>): the builder methods with the error they latch, the
  registration of handlers, websockets and honeypots, the redirect server and the life cycle of the
  listeners. \<open>net/http\<close>'s servers are their listeners' states; certificates, file systems, gzip and the
  websocket upgrade are arguments. \<open>None\<close> as the result of a registration is the panic of
  \<open>http.ServeMux\<close>.
\<close>

section \<open>State\<close>

datatype server_err =
  HandlerRegistered string | WebsocketRegistered string | NoDirectory string | CertificateFailed
| RedirectNeedsTLS | RedirectSamePort "16 word" | RedirectAlreadySet "16 word" | GzipFailed
| BadRateLimit int duration | RouterError web_err | CanonicalAlreadySet string | HoneypotCallbackAlreadySet
| BadStatusCode int | NoPattern | CodeRegistered int string | ListenFailed string | RedirectFailed string

datatype error_log = Discard | Zerolog | CustomLog nat

text \<open>Where a listener's \<open>ListenAndServe\<close> call is: not called, blocked in it, or returned (\<open>None\<close>: \<open>ErrServerClosed\<close>).\<close>

datatype listener = Idle | Listening | Returned "string option"

record HttpServer =
  hs_Addr :: string
  hs_TLS :: bool
  hs_ErrorLog :: error_log
  hs_ReadTimeout :: duration
  hs_ReadHeaderTimeout :: duration
  hs_WriteTimeout :: duration
  hs_IdleTimeout :: duration
  hs_listener :: listener

type_synonym ('l, 's) ws_handler = "('l, 's) handler"

record ('l, 's, 't) Server =
  sv_Error :: "server_err option"
  sv_server :: "HttpServer option"
  sv_redirect :: "HttpServer option"
  sv_router :: "('l, 's) Router"
  sv_world :: "('l, 's) World"
  sv_host :: string
  sv_port :: "16 word"
  sv_tlsConfig :: "'t option"
  sv_readTimeout :: duration
  sv_readHeaderTimeout :: duration
  sv_writeTimeout :: duration
  sv_idleTimeout :: duration
  sv_errorLog :: error_log
  sv_handler :: "string \<rightharpoonup> ('l, 's) handler"
  sv_websockets :: "string \<rightharpoonup> ('l, 's) ws_handler"
  sv_onHTTPCode :: "string \<rightharpoonup> (int \<rightharpoonup> ('l, 's) handler)"

definition empty_world :: "'s \<Rightarrow> ('l, 's) World" where
  "empty_world app = \<lparr>wd_whitelist = [], wd_blacklist = [], wd_limits = Map.empty, wd_honeypotCallback = False,
     wd_callbacks = [], wd_cacheControl = [], wd_app = app\<rparr>"

definition New :: "'s \<Rightarrow> ('l, 's, 't) Server" where
  "New app = \<lparr>sv_Error = None, sv_server = None, sv_redirect = None, sv_router = NewRouter, sv_world = empty_world app,
     sv_host = [], sv_port = 80, sv_tlsConfig = None, sv_readTimeout = 15 * second, sv_readHeaderTimeout = 5 * second,
     sv_writeTimeout = 15 * second, sv_idleTimeout = 120 * second, sv_errorLog = Discard, sv_handler = Map.empty,
     sv_websockets = Map.empty, sv_onHTTPCode = Map.empty\<rparr>"

section \<open>Registration\<close>

definition fail :: "server_err \<Rightarrow> ('l, 's, 't) Server \<Rightarrow> ('l, 's, 't) Server" where
  "fail e s = s\<lparr>sv_Error := Some e\<rparr>"

text \<open>The checks that \<open>WithHandler\<close>, \<open>WithHandlerFunc\<close>, \<open>WithWebsocket\<close> and \<open>WithHoneypot\<close> share.\<close>

definition taken :: "string \<Rightarrow> ('l, 's, 't) Server \<Rightarrow> server_err option" where
  "taken path s =
     (if sv_handler s path \<noteq> None then Some (HandlerRegistered path)
      else if sv_websockets s path \<noteq> None then Some (WebsocketRegistered path) else None)"

definition on_router ::
    "(('l, 's) Router \<Rightarrow> ('l, 's) Router option) \<Rightarrow> ('l, 's, 't) Server \<Rightarrow> ('l, 's, 't) Server option" where
  "on_router f s = map_option (\<lambda>r. s\<lparr>sv_router := r\<rparr>) (f (sv_router s))"

definition WithHandler ::
    "('l, 's) MuxLib \<Rightarrow> string \<Rightarrow> ('l, 's) handler \<Rightarrow> ('l, 's, 't) Server \<Rightarrow> ('l, 's, 't) Server option" where
  "WithHandler mx path h s =
     (if sv_Error s \<noteq> None then Some s
      else case taken path s of
        Some e \<Rightarrow> Some (fail e s)
      | None \<Rightarrow> on_router (rt_Handle mx path h) (s\<lparr>sv_handler := (sv_handler s)(path \<mapsto> h)\<rparr>))"

definition WithHandlerFunc ::
    "('l, 's) MuxLib \<Rightarrow> string \<Rightarrow> ('l, 's) handler \<Rightarrow> ('l, 's, 't) Server \<Rightarrow> ('l, 's, 't) Server option" where
  "WithHandlerFunc mx path h s =
     (if sv_Error s \<noteq> None then Some s
      else case taken path s of
        Some e \<Rightarrow> Some (fail e s)
      | None \<Rightarrow> on_router (rt_Handle mx path h) (s\<lparr>sv_handler := (sv_handler s)(path \<mapsto> h)\<rparr>))"

text \<open>The loop of \<open>WithFS\<close> and \<open>WithFileServer\<close> over the entry points, with the handler of \<open>http.FileServer\<close>.\<close>

fun serve_entrypoints ::
    "('l, 's) MuxLib \<Rightarrow> ('l, 's) handler \<Rightarrow> string list \<Rightarrow> ('l, 's, 't) Server \<Rightarrow> ('l, 's, 't) Server option" where
  "serve_entrypoints mx fs [] s = Some s"
| "serve_entrypoints mx fs (p # ps) s =
     (case WithHandler mx p fs s of
        None \<Rightarrow> None
      | Some s1 \<Rightarrow> if sv_Error s1 \<noteq> None then Some s1 else serve_entrypoints mx fs ps s1)"

definition WithFS ::
    "('l, 's) MuxLib \<Rightarrow> string list \<Rightarrow> ('l, 's) handler \<Rightarrow> ('l, 's, 't) Server \<Rightarrow> ('l, 's, 't) Server option" where
  "WithFS mx entrypoints fs s = (if sv_Error s \<noteq> None then Some s else serve_entrypoints mx fs entrypoints s)"

text \<open>\<open>ex\<close>: what \<open>os.Stat\<close> says of the path; \<open>dir\<close>: the file server of a directory.\<close>

definition WithFileServer ::
    "('l, 's) MuxLib \<Rightarrow> (string \<Rightarrow> bool) \<Rightarrow> (string \<Rightarrow> ('l, 's) handler) \<Rightarrow> string list \<Rightarrow> string \<Rightarrow>
     ('l, 's, 't) Server \<Rightarrow> ('l, 's, 't) Server option" where
  "WithFileServer mx ex dir entrypoints path s =
     (if sv_Error s \<noteq> None then Some s
      else if \<not> ex path then Some (fail (NoDirectory path) s)
      else serve_entrypoints mx (dir path) entrypoints s)"

text \<open>\<open>upgrade\<close> is the websocket upgrade: whether it succeeded, and what it did to the writer.\<close>

definition ws_route :: "(Request \<Rightarrow> ResponseWriter \<Rightarrow> bool \<times> ResponseWriter) \<Rightarrow> ('l, 's) ws_handler \<Rightarrow> ('l, 's) handler" where
  "ws_route upgrade h rq s =
     (let (w, rw) = s; (ok, rw1) = upgrade rq rw in if \<not> ok then (w, rw1) else h rq (w, rw1))"

definition WithWebsocket ::
    "('l, 's) MuxLib \<Rightarrow> (Request \<Rightarrow> ResponseWriter \<Rightarrow> bool \<times> ResponseWriter) \<Rightarrow> string \<Rightarrow> ('l, 's) ws_handler \<Rightarrow>
     ('l, 's, 't) Server \<Rightarrow> ('l, 's, 't) Server option" where
  "WithWebsocket mx upgrade path h s =
     (if sv_Error s \<noteq> None then Some s
      else case taken path s of
        Some e \<Rightarrow> Some (fail e s)
      | None \<Rightarrow> on_router (rt_Handle mx path (ws_route upgrade h)) (s\<lparr>sv_websockets := (sv_websockets s)(path \<mapsto> h)\<rparr>))"

definition WithHoneypot ::
    "NetLib \<Rightarrow> ('l, 's) MuxLib \<Rightarrow> string \<Rightarrow> ('l, 's, 't) Server \<Rightarrow> ('l, 's, 't) Server option" where
  "WithHoneypot nl mx pattern s =
     (if sv_Error s \<noteq> None then Some s
      else case taken pattern s of
        Some e \<Rightarrow> Some (fail e s)
      | None \<Rightarrow> on_router (rt_Handle mx pattern (honeypot nl)) s)"

definition UnregisterHandler :: "string list \<Rightarrow> ('l, 's, 't) Server \<Rightarrow> ('l, 's, 't) Server" where
  "UnregisterHandler paths s =
     (if sv_Error s \<noteq> None then s
      else if \<exists>p \<in> set paths. sv_handler s p = None then s
      else let (w, r) = rt_UnregisterHandler paths (sv_world s) (sv_router s)
           in s\<lparr>sv_handler := (\<lambda>p. if p \<in> set paths then None else sv_handler s p), sv_world := w, sv_router := r\<rparr>)"

definition UnregisterAllHandler :: "('l, 's, 't) Server \<Rightarrow> ('l, 's, 't) Server" where
  "UnregisterAllHandler s =
     (if sv_Error s \<noteq> None then s
      else let (w, r) = rt_UnregisterAllHandler (sv_world s) (sv_router s)
           in s\<lparr>sv_handler := Map.empty, sv_world := w, sv_router := r\<rparr>)"

definition GetRegisteredRoutes :: "('l, 's, 't) Server \<Rightarrow> string list" where
  "GetRegisteredRoutes s = (if sv_Error s \<noteq> None then [] else rt_GetRegisteredRoutes (sv_router s))"

section \<open>Settings\<close>

definition WithHost :: "string \<Rightarrow> ('l, 's, 't) Server \<Rightarrow> ('l, 's, 't) Server" where
  "WithHost address s = s\<lparr>sv_host := address\<rparr>"

definition WithPort :: "16 word \<Rightarrow> ('l, 's, 't) Server \<Rightarrow> ('l, 's, 't) Server" where
  "WithPort port s = s\<lparr>sv_port := port\<rparr>"

definition WithTLS :: "'t option \<Rightarrow> ('l, 's, 't) Server \<Rightarrow> ('l, 's, 't) Server" where
  "WithTLS config s = s\<lparr>sv_tlsConfig := config\<rparr>"

text \<open>\<open>generate\<close>: the TLS configuration of a new self-signed certificate for a common name.\<close>

definition WithSelfSignedTLS :: "(string \<Rightarrow> 't option) \<Rightarrow> ('l, 's, 't) Server \<Rightarrow> ('l, 's, 't) Server" where
  "WithSelfSignedTLS generate s =
     (if sv_Error s \<noteq> None then s
      else case generate (sv_host s) of None \<Rightarrow> fail CertificateFailed s | Some c \<Rightarrow> s\<lparr>sv_tlsConfig := Some c\<rparr>)"

definition hostport :: "string \<Rightarrow> 16 word \<Rightarrow> string" where
  "hostport h p = h @ '':'' @ Itoa (uint p)"

definition http_server :: "('l, 's, 't) Server \<Rightarrow> string \<Rightarrow> HttpServer" where
  "http_server s addr = \<lparr>hs_Addr = addr, hs_TLS = False, hs_ErrorLog = sv_errorLog s, hs_ReadTimeout = sv_readTimeout s,
     hs_ReadHeaderTimeout = sv_readHeaderTimeout s, hs_WriteTimeout = sv_writeTimeout s, hs_IdleTimeout = sv_idleTimeout s,
     hs_listener = Idle\<rparr>"

definition WithRedirectToHTTPS :: "16 word \<Rightarrow> ('l, 's, 't) Server \<Rightarrow> ('l, 's, 't) Server" where
  "WithRedirectToHTTPS port s =
     (if sv_Error s \<noteq> None then s
      else if sv_tlsConfig s = None then fail RedirectNeedsTLS s
      else if sv_port s = port then fail (RedirectSamePort port) s
      else if sv_redirect s \<noteq> None then fail (RedirectAlreadySet port) s
      else s\<lparr>sv_redirect := Some (http_server s (hostport (sv_host s) port))\<rparr>)"

text \<open>The handler of the redirect server; \<open>port\<close> is the server's port when the request comes in.\<close>

definition redirect_handler :: "NetLib \<Rightarrow> 16 word \<Rightarrow> Request \<Rightarrow> ResponseWriter \<Rightarrow> ResponseWriter" where
  "redirect_handler nl port rq rw =
     (case nl_SplitHostPort nl (rq_Host rq) of
        None \<Rightarrow> http_Error ''Bad Request'' 400 rw
      | Some (h, p) \<Rightarrow>
          (let h1 = (case nl_ParseIP nl h of
                       Some ip \<Rightarrow> if \<not> is_v4 ip then ''['' @ nl_IP_String nl ip @ '']'' else h
                     | None \<Rightarrow> h)
           in http_MovedPermanently rq (''https://'' @ hostport h1 port @ rq_Path rq) rw))"

definition use_middleware :: "int \<Rightarrow> ('l, 's) http_mw \<Rightarrow> ('l, 's, 't) Server \<Rightarrow> ('l, 's, 't) Server" where
  "use_middleware ord mw s = s\<lparr>sv_router := rt_Use ord mw (sv_router s)\<rparr>"

definition MiddlewareOrderDefault :: int where "MiddlewareOrderDefault = 0"
definition MiddlewareOrderLow :: int where "MiddlewareOrderLow = -128"
definition MiddlewareOrderHigh :: int where "MiddlewareOrderHigh = 127"
definition MiddlewareOrderSecurity :: int where "MiddlewareOrderSecurity = -127"
definition MiddlewareOrderCors :: int where "MiddlewareOrderCors = -126"
definition MiddlewareOrderLog :: int where "MiddlewareOrderLog = 126"
definition MiddlewareOrderGzip :: int where "MiddlewareOrderGzip = 127"

definition WithSecurityHeaders :: "string \<Rightarrow> bool \<Rightarrow> ('l, 's, 't) Server \<Rightarrow> ('l, 's, 't) Server" where
  "WithSecurityHeaders gitCommit debug s = use_middleware MiddlewareOrderSecurity (securityHeaderMiddleware gitCommit debug) s"

definition WithCORSHeaders :: "('l, 's, 't) Server \<Rightarrow> ('l, 's, 't) Server" where
  "WithCORSHeaders s = use_middleware MiddlewareOrderCors corsHeaderMiddleware s"

definition WithHeader :: "string \<Rightarrow> string \<Rightarrow> ('l, 's, 't) Server \<Rightarrow> ('l, 's, 't) Server" where
  "WithHeader key val s = use_middleware MiddlewareOrderDefault
     (\<lambda>next rq (w, rw). next rq (w, on_header (hd_Set key val) rw)) s"

text \<open>The header map in the order its iteration happens to have.\<close>

definition WithHeaders :: "(string \<times> string) list \<Rightarrow> ('l, 's, 't) Server \<Rightarrow> ('l, 's, 't) Server" where
  "WithHeaders kvs s = use_middleware MiddlewareOrderDefault
     (\<lambda>next rq (w, rw). next rq (w, on_header (set_headers kvs) rw)) s"

definition WithCacheControl :: "string \<Rightarrow> ('l, 's, 't) Server \<Rightarrow> ('l, 's, 't) Server" where
  "WithCacheControl cc s = s\<lparr>sv_world := (sv_world s)\<lparr>wd_cacheControl := cc\<rparr>\<rparr>"

definition WithGzip :: "('l, 's) http_mw \<Rightarrow> ('l, 's, 't) Server \<Rightarrow> ('l, 's, 't) Server" where
  "WithGzip gzip s = use_middleware MiddlewareOrderGzip gzip s"

definition WithGzipLevel :: "(int \<Rightarrow> ('l, 's) http_mw option) \<Rightarrow> int \<Rightarrow> ('l, 's, 't) Server \<Rightarrow> ('l, 's, 't) Server" where
  "WithGzipLevel gziplevel level s =
     (if sv_Error s \<noteq> None then s
      else case gziplevel level of None \<Rightarrow> fail GzipFailed s | Some mw \<Rightarrow> use_middleware MiddlewareOrderGzip mw s)"

definition WithLog :: "('l, 's, 't) Server \<Rightarrow> ('l, 's, 't) Server" where
  "WithLog s = use_middleware MiddlewareOrderLog logMiddleware s"

text \<open>\<open>period / time.Duration(count)\<close> is division of non-negative 64-bit integers here.\<close>

definition WithRateLimit :: "'l RateLib \<Rightarrow> string \<Rightarrow> int \<Rightarrow> duration \<Rightarrow> ('l, 's, 't) Server \<Rightarrow> ('l, 's, 't) Server" where
  "WithRateLimit rl pattern n period s =
     (if sv_Error s \<noteq> None then s
      else if n \<le> 0 \<or> period \<le> 0 then fail (BadRateLimit n period) s
      else case registerRateLimit pattern (rl_Every rl (period div n)) n (sv_world s) (sv_router s) of
        (Some e, w, r) \<Rightarrow> fail (RouterError e) s
      | (None, w, r) \<Rightarrow> s\<lparr>sv_world := w, sv_router := r\<rparr>)"

definition WithCanonicalRedirect :: "string \<Rightarrow> ('l, 's, 't) Server \<Rightarrow> ('l, 's, 't) Server" where
  "WithCanonicalRedirect domain s =
     (if sv_Error s \<noteq> None then s
      else if rt_canonicalDomain (sv_router s) \<noteq> [] then fail (CanonicalAlreadySet (rt_canonicalDomain (sv_router s))) s
      else s\<lparr>sv_router := (sv_router s)\<lparr>rt_canonicalDomain := domain\<rparr>\<rparr>)"

definition WithOnHoneypot :: "bool \<Rightarrow> ('l, 's, 't) Server \<Rightarrow> ('l, 's, 't) Server" where
  "WithOnHoneypot callback s =
     (if sv_Error s \<noteq> None then s
      else if wd_honeypotCallback (sv_world s) then fail HoneypotCallbackAlreadySet s
      else s\<lparr>sv_world := (sv_world s)\<lparr>wd_honeypotCallback := callback\<rparr>\<rparr>)"

definition SetWhitelist :: "NetLib \<Rightarrow> string list \<Rightarrow> ('l, 's, 't) Server \<Rightarrow> ('l, 's, 't) Server" where
  "SetWhitelist nl l s =
     (if sv_Error s \<noteq> None then s
      else case setWhitelist nl l (sv_world s) of
        (Some e, w) \<Rightarrow> fail (RouterError e) s
      | (None, w) \<Rightarrow> s\<lparr>sv_world := w\<rparr>)"

definition SetBlacklist :: "NetLib \<Rightarrow> string list \<Rightarrow> ('l, 's, 't) Server \<Rightarrow> ('l, 's, 't) Server" where
  "SetBlacklist nl l s =
     (if sv_Error s \<noteq> None then s
      else case setBlacklist nl l (sv_world s) of
        (Some e, w) \<Rightarrow> fail (RouterError e) s
      | (None, w) \<Rightarrow> s\<lparr>sv_world := w\<rparr>)"

definition WithVaryHeader :: "string \<Rightarrow> ('l, 's, 't) Server \<Rightarrow> ('l, 's, 't) Server" where
  "WithVaryHeader h s = use_middleware MiddlewareOrderDefault (varyHeaderMiddleware [h]) s"

definition WithVaryHeaders :: "string list \<Rightarrow> ('l, 's, 't) Server \<Rightarrow> ('l, 's, 't) Server" where
  "WithVaryHeaders hs s = use_middleware MiddlewareOrderDefault (varyHeaderMiddleware hs) s"

definition WithCustomMiddleware :: "('l, 's) http_mw \<Rightarrow> ('l, 's, 't) Server \<Rightarrow> ('l, 's, 't) Server" where
  "WithCustomMiddleware mw s = use_middleware MiddlewareOrderDefault mw s"

definition WithCustomMiddlewareOrder :: "int \<Rightarrow> ('l, 's) http_mw \<Rightarrow> ('l, 's, 't) Server \<Rightarrow> ('l, 's, 't) Server" where
  "WithCustomMiddlewareOrder ord mw s = use_middleware ord mw s"

definition WithReadTimeout :: "duration \<Rightarrow> ('l, 's, 't) Server \<Rightarrow> ('l, 's, 't) Server" where
  "WithReadTimeout t s = s\<lparr>sv_readTimeout := t\<rparr>"

definition WithReadHeaderTimeout :: "duration \<Rightarrow> ('l, 's, 't) Server \<Rightarrow> ('l, 's, 't) Server" where
  "WithReadHeaderTimeout t s = s\<lparr>sv_readHeaderTimeout := t\<rparr>"

definition WithWriteTimeout :: "duration \<Rightarrow> ('l, 's, 't) Server \<Rightarrow> ('l, 's, 't) Server" where
  "WithWriteTimeout t s = s\<lparr>sv_writeTimeout := t\<rparr>"

definition WithIdleTimeout :: "duration \<Rightarrow> ('l, 's, 't) Server \<Rightarrow> ('l, 's, 't) Server" where
  "WithIdleTimeout t s = s\<lparr>sv_idleTimeout := t\<rparr>"

definition WithErrorLog :: "('l, 's, 't) Server \<Rightarrow> ('l, 's, 't) Server" where
  "WithErrorLog s = s\<lparr>sv_errorLog := Zerolog\<rparr>"

definition WithCustomErrorLog :: "nat \<Rightarrow> ('l, 's, 't) Server \<Rightarrow> ('l, 's, 't) Server" where
  "WithCustomErrorLog logger s = s\<lparr>sv_errorLog := CustomLog logger\<rparr>"

text \<open>The loop of \<open>WithOnHTTPCode\<close>; it keeps what it registered before a failure.\<close>

fun on_code_loop :: "int \<Rightarrow> ('l, 's) handler \<Rightarrow> string list \<Rightarrow> ('l, 's, 't) Server \<Rightarrow> ('l, 's, 't) Server" where
  "on_code_loop code h [] s = s"
| "on_code_loop code h (p # ps) s =
     (let m = (case sv_onHTTPCode s p of Some m \<Rightarrow> m | None \<Rightarrow> Map.empty);
          s1 = s\<lparr>sv_onHTTPCode := (sv_onHTTPCode s)(p \<mapsto> m)\<rparr> in
      if m code \<noteq> None then fail (CodeRegistered code p) s1
      else on_code_loop code h ps
        (s1\<lparr>sv_onHTTPCode := (sv_onHTTPCode s1)(p \<mapsto> m(code \<mapsto> h)), sv_router := OnStatus p code h (sv_router s1)\<rparr>))"

definition WithOnHTTPCode :: "int \<Rightarrow> string list \<Rightarrow> ('l, 's) handler \<Rightarrow> ('l, 's, 't) Server \<Rightarrow> ('l, 's, 't) Server" where
  "WithOnHTTPCode code pattern h s =
     (if sv_Error s \<noteq> None then s
      else if code < 100 \<or> code > 511 then fail (BadStatusCode code) s
      else if pattern = [] then fail NoPattern s
      else on_code_loop code h pattern s)"

text \<open>The status codes that count as errors, in the order of \<open>status.go\<close>.\<close>

definition ErrorCodes :: "int list" where
  "ErrorCodes = [400, 401, 402, 403, 404, 405, 406, 407, 408, 409, 410, 411, 412, 413, 414, 415, 416, 417, 418, 421, 422, 423,
     424, 425, 426, 428, 429, 431, 451, 500, 501, 502, 503, 504, 505, 506, 507, 508, 510, 511]"

lemma ErrorCodes_registrable: "distinct ErrorCodes \<and> list_all (\<lambda>c. 100 \<le> c \<and> c \<le> 511) ErrorCodes"
  by code_simp

section \<open>Life cycle\<close>

text \<open>
  A call of \<open>Start\<close> blocks in \<open>ListenAndServe\<close> of the main server and, with TLS and a redirect server,
  of that one too. \<open>StartCall\<close> is such a call in progress: the state of its listeners, and which error
  came first. The redirect server's own state says whether it holds its port.
\<close>

record StartCall =
  sc_main :: listener
  sc_redirect :: "listener option"

definition redirect_listen :: "HttpServer \<Rightarrow> listener" where
  "redirect_listen r = (if hs_listener r = Listening then Returned (Some ''bind: address already in use'') else Listening)"

text \<open>The part of \<open>Start\<close> before it blocks; \<open>None\<close>: it returns at once because of an earlier error.\<close>

definition Start_listen :: "('l, 's, 't) Server \<Rightarrow> ('l, 's, 't) Server \<times> StartCall option" where
  "Start_listen s =
     (if sv_Error s \<noteq> None then (s, None)
      else
        (let tls = sv_tlsConfig s \<noteq> None;
             srv = (http_server s (hostport (sv_host s) (sv_port s)))\<lparr>hs_TLS := tls, hs_listener := Listening\<rparr>
         in (s\<lparr>sv_server := Some srv,
               sv_redirect := (if tls then map_option (\<lambda>r. r\<lparr>hs_listener := Listening\<rparr>) (sv_redirect s) else sv_redirect s)\<rparr>,
             Some \<lparr>sc_main = Listening,
                   sc_redirect = (if tls then map_option redirect_listen (sv_redirect s) else None)\<rparr>)))"

text \<open>
  The part of \<open>Start\<close> after it blocked. \<open>None\<close>: still blocked. \<open>main_first\<close>: which of two failed
  listeners failed first (\<open>errgroup\<close> reports the first error).
\<close>

definition Start_wait :: "bool \<Rightarrow> StartCall \<Rightarrow> ('l, 's, 't) Server \<Rightarrow> ('l, 's, 't) Server option" where
  "Start_wait main_first c s =
     (case (sc_main c, sc_redirect c) of
        (Returned None, None) \<Rightarrow> Some s
      | (Returned (Some e), None) \<Rightarrow> Some (fail (ListenFailed e) s)
      | (Returned None, Some (Returned None)) \<Rightarrow> Some s
      | (Returned (Some e), Some (Returned None)) \<Rightarrow> Some (fail (ListenFailed e) s)
      | (Returned None, Some (Returned (Some e))) \<Rightarrow> Some (fail (RedirectFailed e) s)
      | (Returned (Some e), Some (Returned (Some e'))) \<Rightarrow>
          Some (fail (if main_first then ListenFailed e else RedirectFailed e') s)
      | _ \<Rightarrow> None)"

text \<open>The channel send and reset of \<open>StartAsync\<close> once \<open>Start\<close> has returned.\<close>

definition StartAsync_end :: "('l, 's, 't) Server \<Rightarrow> server_err option \<times> ('l, 's, 't) Server" where
  "StartAsync_end s = (sv_Error s, s\<lparr>sv_Error := None\<rparr>)"

text \<open>\<open>Close\<close> and \<open>Shutdown\<close> of \<open>http.Server\<close>: a listener blocked in it returns. \<open>err\<close> is the error it reports, if any.\<close>

definition close_main :: "StartCall \<Rightarrow> StartCall" where
  "close_main c = (if sc_main c = Listening then c\<lparr>sc_main := Returned None\<rparr> else c)"

definition Stop :: "string option \<Rightarrow> ('l, 's, 't) Server \<Rightarrow> StartCall \<Rightarrow> string option \<times> ('l, 's, 't) Server \<times> StartCall" where
  "Stop err s c =
     (case sv_server s of
        None \<Rightarrow> (None, s, c)
      | Some srv \<Rightarrow> (err, s\<lparr>sv_server := Some (srv\<lparr>hs_listener := Returned None\<rparr>)\<rparr>, close_main c))"

definition Shutdown :: "string option \<Rightarrow> ('l, 's, 't) Server \<Rightarrow> StartCall \<Rightarrow> string option \<times> ('l, 's, 't) Server \<times> StartCall" where
  "Shutdown err s c =
     (case sv_server s of
        None \<Rightarrow> (None, s, c)
      | Some srv \<Rightarrow> (err, s\<lparr>sv_server := Some (srv\<lparr>hs_listener := Returned None\<rparr>)\<rparr>, close_main c))"

text \<open>\<open>Restart\<close> up to where its own call of \<open>Start\<close> blocks; the old call and the new one.\<close>

definition Restart_listen ::
    "string option \<Rightarrow> ('l, 's, 't) Server \<Rightarrow> StartCall \<Rightarrow> string option \<times> ('l, 's, 't) Server \<times> StartCall \<times> StartCall option" where
  "Restart_listen err s c =
     (let (e, s1, c1) = Shutdown err s c in
      if e \<noteq> None then (e, s1, c1, None)
      else let (s2, c2) = Start_listen s1 in (None, s2, c1, c2))"

text \<open>
  \<open>RestartAsync\<close>: what it sends on the channel at once, if anything, and otherwise the call of \<open>Start\<close> that
  \<open>StartAsync\<close> begins, whose end is \<open>StartAsync_end\<close>.
\<close>

definition RestartAsync_listen ::
    "string option \<Rightarrow> ('l, 's, 't) Server \<Rightarrow> StartCall \<Rightarrow> string option \<times> ('l, 's, 't) Server \<times> StartCall \<times> StartCall option" where
  "RestartAsync_listen err s c =
     (let (e, s1, c1) = Shutdown err s c in
      if e \<noteq> None then (e, s1, c1, None)
      else let (s2, c2) = Start_listen s1 in (None, s2, c1, c2))"

text \<open>
  A restart without TLS ends the old call of \<open>Start\<close> without an error and leaves the server listening in a new
  one; with TLS and a redirect server the old call stays blocked and the new one fails to bind the redirect port.
\<close>

lemma restart_listens:
  assumes "sv_Error s = None" "Start_listen s = (s1, Some c)" "Restart_listen None s1 c = (e, s2, c1, c2)"
    and idle: "\<And>r. sv_redirect s = Some r \<Longrightarrow> hs_listener r = Idle"
  shows "e = None \<and> RestartAsync_listen None s1 c = (e, s2, c1, c2) \<and>
    Start_wait first c1 s2 = (if sv_tlsConfig s \<noteq> None \<and> sv_redirect s \<noteq> None then None else Some s2) \<and>
    (\<exists>c'. c2 = Some c' \<and> sc_main c' = Listening \<and>
       (sv_tlsConfig s \<noteq> None \<and> sv_redirect s \<noteq> None \<longrightarrow> sc_redirect c' = Some (Returned (Some ''bind: address already in use''))))"
  using assms
  by (cases "sv_redirect s"; cases "sv_tlsConfig s")
     (auto simp: Start_listen_def Restart_listen_def RestartAsync_listen_def Shutdown_def Start_wait_def close_main_def redirect_listen_def Let_def http_server_def)

text \<open>
  C40: After \<open>Start\<close> has come to listen and \<open>Stop\<close> has closed the server, \<open>Start\<close> returns without an
  error, unless TLS and a redirect server are configured: then it stays blocked, because \<open>Stop\<close> never
  closes the redirect server, which goes on listening.
\<close>

theorem stop_returns_unless_redirect:
  assumes "sv_Error s = None" "Start_listen s = (s1, Some c)" "Stop None s1 c = (None, s2, c2)"
    and idle: "\<And>r. sv_redirect s = Some r \<Longrightarrow> hs_listener r = Idle"
  shows "Start_wait first c2 s2 = (if sv_tlsConfig s \<noteq> None \<and> sv_redirect s \<noteq> None then None else Some s2)
    \<and> sv_Error s2 = None
    \<and> (sv_tlsConfig s \<noteq> None \<longrightarrow> sv_redirect s2 = map_option (\<lambda>r. r\<lparr>hs_listener := Listening\<rparr>) (sv_redirect s))"
  using assms
  by (cases "sv_redirect s"; cases "sv_tlsConfig s")
     (auto simp: Start_listen_def Stop_def Start_wait_def close_main_def redirect_listen_def Let_def http_server_def)

section \<open>The route tables of server and router\<close>

text \<open>
  What registration keeps: a path is not both a handler and a websocket, every handler of the server is
  the router's handler for that path, and exactly the limited patterns have a limit store, so that
  \<open>rateLimit\<close> never meets a nil store.
\<close>

definition sv_wf :: "('l, 's, 't) Server \<Rightarrow> bool" where
  "sv_wf s \<longleftrightarrow>
     dom (sv_handler s) \<inter> dom (sv_websockets s) = {}
     \<and> (\<forall>p h. sv_handler s p = Some h \<longrightarrow> map_of (rt_routes (sv_router s)) p = Some h)
     \<and> dom (wd_limits (sv_world s)) = set (rt_limitedPatterns (sv_router s))"

datatype ('l, 's) server_op =
  OpHandler string "('l, 's) handler" | OpWebsocket string "('l, 's) ws_handler" | OpHoneypot string
| OpEntry "string list" "('l, 's) handler" | OpUnregister "string list" | OpUnregisterAll
| OpRateLimit string int duration | OpMiddleware int "('l, 's) http_mw" | OpCanonical string
| OpOnCode int "string list" "('l, 's) handler" | OpWhitelist "string list" | OpBlacklist "string list"

fun exec_op ::
    "NetLib \<Rightarrow> 'l RateLib \<Rightarrow> ('l, 's) MuxLib \<Rightarrow> (Request \<Rightarrow> ResponseWriter \<Rightarrow> bool \<times> ResponseWriter) \<Rightarrow>
     ('l, 's) server_op \<Rightarrow> ('l, 's, 't) Server \<Rightarrow> ('l, 's, 't) Server option" where
  "exec_op nl rl mx up (OpHandler p h) s = WithHandler mx p h s"
| "exec_op nl rl mx up (OpWebsocket p h) s = WithWebsocket mx up p h s"
| "exec_op nl rl mx up (OpHoneypot p) s = WithHoneypot nl mx p s"
| "exec_op nl rl mx up (OpEntry ps h) s = WithFS mx ps h s"
| "exec_op nl rl mx up (OpUnregister ps) s = Some (UnregisterHandler ps s)"
| "exec_op nl rl mx up OpUnregisterAll s = Some (UnregisterAllHandler s)"
| "exec_op nl rl mx up (OpRateLimit p n d) s = Some (WithRateLimit rl p n d s)"
| "exec_op nl rl mx up (OpMiddleware k mw) s = Some (WithCustomMiddlewareOrder k mw s)"
| "exec_op nl rl mx up (OpCanonical d) s = Some (WithCanonicalRedirect d s)"
| "exec_op nl rl mx up (OpOnCode n ps h) s = Some (WithOnHTTPCode n ps h s)"
| "exec_op nl rl mx up (OpWhitelist l) s = Some (SetWhitelist nl l s)"
| "exec_op nl rl mx up (OpBlacklist l) s = Some (SetBlacklist nl l s)"

fun exec_ops ::
    "NetLib \<Rightarrow> 'l RateLib \<Rightarrow> ('l, 's) MuxLib \<Rightarrow> (Request \<Rightarrow> ResponseWriter \<Rightarrow> bool \<times> ResponseWriter) \<Rightarrow>
     ('l, 's) server_op list \<Rightarrow> ('l, 's, 't) Server \<Rightarrow> ('l, 's, 't) Server option" where
  "exec_ops nl rl mx up [] s = Some s"
| "exec_ops nl rl mx up (x # xs) s =
     (case exec_op nl rl mx up x s of None \<Rightarrow> None | Some s1 \<Rightarrow> exec_ops nl rl mx up xs s1)"

lemma sv_wfI:
  assumes "\<And>p h. sv_handler s p = Some h \<Longrightarrow> sv_websockets s p = None \<and> map_of (rt_routes (sv_router s)) p = Some h"
    and "dom (wd_limits (sv_world s)) = set (rt_limitedPatterns (sv_router s))"
  shows "sv_wf s"
  using assms by (fastforce simp: sv_wf_def)

lemma sv_wfD:
  assumes "sv_wf s"
  shows "sv_handler s p = Some h \<Longrightarrow> sv_websockets s p = None"
    and "sv_handler s p = Some h \<Longrightarrow> map_of (rt_routes (sv_router s)) p = Some h"
    and "dom (wd_limits (sv_world s)) = set (rt_limitedPatterns (sv_router s))"
  using assms by (auto simp: sv_wf_def)

text \<open>An operation that leaves the tables alone keeps the invariant.\<close>

lemma sv_wf_cong:
  assumes "sv_wf s" "sv_handler t = sv_handler s" "sv_websockets t = sv_websockets s"
    "rt_routes (sv_router t) = rt_routes (sv_router s)" "wd_limits (sv_world t) = wd_limits (sv_world s)"
    "rt_limitedPatterns (sv_router t) = rt_limitedPatterns (sv_router s)"
  shows "sv_wf t"
  using assms by (simp add: sv_wf_def)

lemma sv_wf_fail [simp]: "sv_wf (fail e s) = sv_wf s"
  by (simp add: sv_wf_def fail_def)

lemma taken_None: "taken p s = None \<longleftrightarrow> sv_handler s p = None \<and> sv_websockets s p = None"
  by (simp add: taken_def)

lemma on_router_Handle:
  "on_router (rt_Handle mx p h) s = Some t \<longleftrightarrow>
     \<not> mx_conflict mx (map fst (rt_routes (sv_router s))) p
     \<and> t = s\<lparr>sv_router := (sv_router s)\<lparr>rt_routes := AList.update p h (rt_routes (sv_router s))\<rparr>\<rparr>"
  by (auto simp: on_router_def rt_Handle_def)

lemma WithHandler_wf:
  assumes "sv_wf s" "WithHandler mx p h s = Some t"
  shows "sv_wf t"
proof (cases "sv_Error s = None \<and> taken p s = None")
  case True
  then have t: "t = s\<lparr>sv_handler := (sv_handler s)(p \<mapsto> h), sv_router := (sv_router s)\<lparr>rt_routes := AList.update p h (rt_routes (sv_router s))\<rparr>\<rparr>"
    using assms(2) by (simp add: WithHandler_def on_router_Handle)
  show ?thesis
    using True sv_wfD [OF assms(1)] by (intro sv_wfI) (auto simp: t taken_None update_conv split: if_splits)
qed (use assms in \<open>auto simp: WithHandler_def split: option.splits if_splits\<close>)

text \<open>Registering a route for a path that is no handler of the server, as websockets and honeypots do.\<close>

lemma route_wf:
  assumes "sv_wf s" "sv_handler s p = None" "sv_websockets t = sv_websockets s \<or> sv_websockets t = (sv_websockets s)(p \<mapsto> x)"
    and "sv_handler t = sv_handler s" "rt_routes (sv_router t) = AList.update p h (rt_routes (sv_router s))"
    and "sv_world t = sv_world s" "rt_limitedPatterns (sv_router t) = rt_limitedPatterns (sv_router s)"
  shows "sv_wf t"
  using assms(2-) sv_wfD [OF assms(1)] by (intro sv_wfI) (auto simp: update_conv split: if_splits)

lemma WithWebsocket_wf:
  assumes "sv_wf s" "WithWebsocket mx up p h s = Some t"
  shows "sv_wf t"
proof (cases "sv_Error s = None \<and> taken p s = None")
  case True
  then have t: "t = s\<lparr>sv_websockets := (sv_websockets s)(p \<mapsto> h),
      sv_router := (sv_router s)\<lparr>rt_routes := AList.update p (ws_route up h) (rt_routes (sv_router s))\<rparr>\<rparr>"
    using assms(2) by (simp add: WithWebsocket_def on_router_Handle)
  then show ?thesis using True by (intro route_wf [OF assms(1), where p = p and x = h]) (auto simp: taken_None)
qed (use assms in \<open>auto simp: WithWebsocket_def split: option.splits if_splits\<close>)

lemma WithHoneypot_wf:
  assumes "sv_wf s" "WithHoneypot nl mx p s = Some t"
  shows "sv_wf t"
proof (cases "sv_Error s = None \<and> taken p s = None")
  case True
  then have t: "t = s\<lparr>sv_router := (sv_router s)\<lparr>rt_routes := AList.update p (honeypot nl) (rt_routes (sv_router s))\<rparr>\<rparr>"
    using assms(2) by (simp add: WithHoneypot_def on_router_Handle)
  then show ?thesis using True by (intro route_wf [OF assms(1), where p = p]) (auto simp: taken_None)
qed (use assms in \<open>auto simp: WithHoneypot_def split: option.splits if_splits\<close>)

lemma serve_entrypoints_wf: "sv_wf s \<Longrightarrow> serve_entrypoints mx fs ps s = Some t \<Longrightarrow> sv_wf t"
  by (induction ps arbitrary: s) (auto split: option.splits if_splits dest: WithHandler_wf)

lemma map_of_filter_keys: "map_of (filter (\<lambda>(p, h). p \<notin> S) xs) p = (if p \<in> S then None else map_of xs p)"
  by (induction xs) auto

lemma UnregisterHandler_router:
  assumes "sv_wf s" "sv_Error s = None" "\<forall>p \<in> set ps. sv_handler s p \<noteq> None"
  shows "rt_routes (sv_router (UnregisterHandler ps s)) = filter (\<lambda>(p, h). p \<notin> set ps) (rt_routes (sv_router s))"
    and "sv_handler (UnregisterHandler ps s) = (\<lambda>p. if p \<in> set ps then None else sv_handler s p)"
    and "sv_websockets (UnregisterHandler ps s) = sv_websockets s"
    and "wd_limits (sv_world (UnregisterHandler ps s)) = (\<lambda>p. if p \<in> set ps then None else wd_limits (sv_world s) p)"
    and "rt_limitedPatterns (sv_router (UnregisterHandler ps s)) = filter (\<lambda>p. p \<notin> set ps) (rt_limitedPatterns (sv_router s))"
proof -
  have "\<forall>p \<in> set ps. map_of (rt_routes (sv_router s)) p \<noteq> None"
    using assms(3) sv_wfD(2) [OF assms(1)] by fastforce
  then have "rt_UnregisterHandler ps (sv_world s) (sv_router s) =
    ((sv_world s)\<lparr>wd_limits := (\<lambda>p. if p \<in> set ps then None else wd_limits (sv_world s) p)\<rparr>,
     (sv_router s)\<lparr>rt_routes := filter (\<lambda>(p, h). p \<notin> set ps) (rt_routes (sv_router s)),
              rt_limitedPatterns := filter (\<lambda>p. p \<notin> set ps) (rt_limitedPatterns (sv_router s))\<rparr>)"
    by (auto simp: rt_UnregisterHandler_def)
  moreover have "\<not> (\<exists>p \<in> set ps. sv_handler s p = None)" using assms(3) by blast
  ultimately show
    "rt_routes (sv_router (UnregisterHandler ps s)) = filter (\<lambda>(p, h). p \<notin> set ps) (rt_routes (sv_router s))"
    "sv_handler (UnregisterHandler ps s) = (\<lambda>p. if p \<in> set ps then None else sv_handler s p)"
    "sv_websockets (UnregisterHandler ps s) = sv_websockets s"
    "wd_limits (sv_world (UnregisterHandler ps s)) = (\<lambda>p. if p \<in> set ps then None else wd_limits (sv_world s) p)"
    "rt_limitedPatterns (sv_router (UnregisterHandler ps s)) = filter (\<lambda>p. p \<notin> set ps) (rt_limitedPatterns (sv_router s))"
    using assms(2) by (auto simp: UnregisterHandler_def)
qed

lemma UnregisterHandler_wf:
  assumes "sv_wf s"
  shows "sv_wf (UnregisterHandler ps s)"
proof (cases "sv_Error s = None \<and> (\<forall>p \<in> set ps. sv_handler s p \<noteq> None)")
  case True
  then have e: "sv_Error s = None" and h: "\<forall>p \<in> set ps. sv_handler s p \<noteq> None" by auto
  show ?thesis
    using sv_wfD [OF assms] by (intro sv_wfI) (auto simp: UnregisterHandler_router [OF assms e h] map_of_filter_keys dom_def split: if_splits)
qed (use assms in \<open>auto simp: UnregisterHandler_def\<close>)

lemma UnregisterAllHandler_wf: "sv_wf s \<Longrightarrow> sv_wf (UnregisterAllHandler s)"
  by (cases "sv_Error s") (simp_all add: UnregisterAllHandler_def rt_UnregisterAllHandler_def sv_wf_def)

lemma set_insert_pattern [simp]: "set (insert_pattern p ps) = insert p (set ps)"
  by (auto simp: insert_pattern_def)

lemma WithRateLimit_wf: "sv_wf s \<Longrightarrow> sv_wf (WithRateLimit rl p n d s)"
  by (auto simp: WithRateLimit_def registerRateLimit_def) (simp add: sv_wf_def)

lemma on_code_loop_wf: "sv_wf s \<Longrightarrow> sv_wf (on_code_loop code h ps s)"
proof (induction ps arbitrary: s)
  case (Cons p ps)
  show ?case unfolding on_code_loop.simps Let_def
    by (auto simp: OnStatus_def Let_def intro!: Cons.IH sv_wf_cong [OF Cons.prems])
qed simp

lemma use_middleware_wf: "sv_wf s \<Longrightarrow> sv_wf (use_middleware k mw s)"
  by (rule sv_wf_cong) (simp_all add: use_middleware_def rt_Use_def rt_sort_def Let_def)

lemma exec_op_wf:
  assumes "sv_wf s" "exec_op nl rl mx up x s = Some t"
  shows "sv_wf t"
proof (cases x)
  case (OpMiddleware k mw)
  then show ?thesis using assms by (auto simp: WithCustomMiddlewareOrder_def use_middleware_wf)
next
  case (OpCanonical d)
  then show ?thesis using assms by (auto simp: WithCanonicalRedirect_def split: if_splits) (auto simp: sv_wf_def)
next
  case (OpOnCode n ps h)
  then show ?thesis using assms by (auto simp: WithOnHTTPCode_def intro: on_code_loop_wf)
next
  case (OpWhitelist l)
  then show ?thesis using assms by (auto simp: SetWhitelist_def setWhitelist_def split: sum.splits if_splits) (auto simp: sv_wf_def)
next
  case (OpBlacklist l)
  then show ?thesis using assms by (auto simp: SetBlacklist_def setBlacklist_def split: sum.splits if_splits) (auto simp: sv_wf_def)
qed (use assms in \<open>auto simp: WithFS_def split: if_splits intro: WithHandler_wf WithWebsocket_wf WithHoneypot_wf
      serve_entrypoints_wf UnregisterHandler_wf UnregisterAllHandler_wf WithRateLimit_wf\<close>)

lemma New_wf: "sv_wf (New app)"
  by (simp add: sv_wf_def New_def NewRouter_def empty_world_def)

lemma exec_ops_wf: "sv_wf s \<Longrightarrow> exec_ops nl rl mx up xs s = Some t \<Longrightarrow> sv_wf t"
  by (induction xs arbitrary: s) (auto split: option.splits dest: exec_op_wf)

text \<open>
  C11: After any calls of the registration methods, one after the other, in any order and with any errors on
  the way: no path is both in the handler table and in the websocket table, every handler of the
  server's table is the handler that the router has as the route of its path, and whatever path is
  asked for, the pattern of the router that limits it has its limit store. Nothing is said of
  routes outside the handler table (websockets, honeypots), which \<open>UnregisterAllHandler\<close> may leave
  in the server's table without a route (\<open>unregister_all_keeps_websocket_taken\<close>), nor of a request
  that holds the patterns it read before a handler was unregistered.
\<close>

theorem registered_handlers_are_routes:
  assumes "exec_ops nl rl mx up xs (New app) = Some s"
  shows "dom (sv_handler s) \<inter> dom (sv_websockets s) = {}
    \<and> (\<forall>p. sv_handler s p \<noteq> None \<longrightarrow> map_of (rt_routes (sv_router s)) p = sv_handler s p)
    \<and> (\<forall>path. matchPattern path (rt_limitedPatterns (sv_router s)) \<noteq> []
         \<longrightarrow> wd_limits (sv_world s) (matchPattern path (rt_limitedPatterns (sv_router s))) \<noteq> None)"
proof -
  have wf: "sv_wf s" using exec_ops_wf [OF New_wf assms] .
  have "matchPattern path ps \<noteq> [] \<Longrightarrow> matchPattern path ps \<in> set ps" for path ps
    using match_loop_longest [of path "[]" ps] by (auto simp: matchPattern_def)
  then show ?thesis using wf sv_wfD(3) [OF wf] by (fastforce simp: sv_wf_def)
qed

lemma GetRegisteredRoutes_UnregisterHandler:
  assumes "sv_wf s" "sv_Error s = None" "\<forall>p \<in> set ps. sv_handler s p \<noteq> None"
  shows "GetRegisteredRoutes (UnregisterHandler ps s) = filter (\<lambda>p. p \<notin> set ps) (GetRegisteredRoutes s)"
proof -
  have "sv_Error (UnregisterHandler ps s) = None" using assms(2) by (auto simp: UnregisterHandler_def Let_def split: prod.splits)
  then show ?thesis
    using assms(2) by (simp add: GetRegisteredRoutes_def rt_GetRegisteredRoutes_def UnregisterHandler_router [OF assms] filter_map comp_def case_prod_unfold)
qed

text \<open>The websocket table survives \<open>UnregisterAllHandler\<close>: no route is left, but the path stays taken.\<close>

lemma unregister_all_keeps_websocket_taken:
  assumes "sv_Error s = None" "sv_websockets s p \<noteq> None"
  shows "GetRegisteredRoutes (UnregisterAllHandler s) = []"
    and "WithWebsocket mx up p h (UnregisterAllHandler s) = Some (fail (WebsocketRegistered p) (UnregisterAllHandler s))"
    and "WithHandler mx p h (UnregisterAllHandler s) = Some (fail (WebsocketRegistered p) (UnregisterAllHandler s))"
  using assms
  by (simp_all add: UnregisterAllHandler_def rt_UnregisterAllHandler_def GetRegisteredRoutes_def rt_GetRegisteredRoutes_def
      WithWebsocket_def WithHandler_def taken_def)

text \<open>A honeypot is not in the server's tables: registering a handler for its path reaches the mux, which panics.\<close>

lemma handler_on_honeypot_panics:
  assumes "sv_Error s = None" "taken p s = None" "\<And>ps. p \<in> set ps \<Longrightarrow> mx_conflict mx ps p" "WithHoneypot nl mx p s = Some t"
  shows "WithHandler mx p h t = None"
proof -
  have t: "t = s\<lparr>sv_router := (sv_router s)\<lparr>rt_routes := AList.update p (honeypot nl) (rt_routes (sv_router s))\<rparr>\<rparr>"
    using assms(1,2,4) by (simp add: WithHoneypot_def on_router_Handle)
  have "p \<in> set (map fst (AList.update p (honeypot nl) (rt_routes (sv_router s))))" by (simp add: dom_update)
  then have "mx_conflict mx (map fst (rt_routes (sv_router t))) p" using assms(3) by (simp add: t)
  then show ?thesis using assms(1,2) by (simp add: WithHandler_def t taken_def on_router_def rt_Handle_def split: if_splits)
qed

text \<open>The redirect server answers 400 to a request whose \<open>Host\<close> has no port, as browsers send it for port 80.\<close>

lemma redirect_refuses_host_without_port:
  assumes "nl_SplitHostPort nl (rq_Host rq) = None" "rw_ok rw"
  shows "rw_status (redirect_handler nl port rq rw) = 400" "rw_body (redirect_handler nl port rq rw) = rw_body rw @ ''Bad Request'' @ [CHR 0x0A]"
  using assms http_Error_body [OF assms(2), of "''Bad Request''" 400] by (simp_all add: redirect_handler_def)

section \<open>Witnesses\<close>

definition wit_mux :: "(unit, nat) MuxLib" where
  "wit_mux = \<lparr>mx_serve = (\<lambda>rs rq s. s), mx_conflict = (\<lambda>ps p. p \<in> set ps)\<rparr>"

definition wit_ops :: "(unit, nat) server_op list" where
  "wit_ops = [OpHandler ''/a'' (\<lambda>rq s. s), OpWebsocket ''/ws'' (\<lambda>rq s. s), OpHoneypot ''/h'',
     OpRateLimit ''/a'' 2 1000, OpUnregister [''/a''], OpHandler ''/b'' (\<lambda>rq s. s)]"

definition wit_upgrade :: "Request \<Rightarrow> ResponseWriter \<Rightarrow> bool \<times> ResponseWriter" where
  "wit_upgrade rq rw = (True, rw)"

definition wit_site :: "(unit, nat, unit) Server" where
  "wit_site = the (exec_ops unary_lib refusing wit_mux wit_upgrade wit_ops (New 0))"

lemma wit_site_eq: "exec_ops unary_lib refusing wit_mux wit_upgrade wit_ops (New 0 :: (unit, nat, unit) Server) = Some wit_site"
  "GetRegisteredRoutes wit_site = [''/ws'', ''/h'', ''/b'']"
  by (simp_all add: wit_site_def wit_ops_def New_def NewRouter_def empty_world_def WithHandler_def WithWebsocket_def WithHoneypot_def
      WithRateLimit_def registerRateLimit_def UnregisterHandler_def rt_UnregisterHandler_def on_router_def rt_Handle_def taken_def
      wit_mux_def refusing_def insert_pattern_def GetRegisteredRoutes_def rt_GetRegisteredRoutes_def)

theorem registered_handlers_are_routes_witness:
  "GetRegisteredRoutes wit_site = [''/ws'', ''/h'', ''/b''] \<and> dom (sv_handler wit_site) \<inter> dom (sv_websockets wit_site) = {}"
  using registered_handlers_are_routes [OF wit_site_eq(1)] wit_site_eq(2) by blast

definition wit_tls :: "(unit, nat, unit) Server" where
  "wit_tls = WithRedirectToHTTPS 80 (WithPort 443 (WithTLS (Some ()) (New 0)))"

theorem stop_returns_unless_redirect_witness:
  "Start_wait True (snd (snd (Stop None (fst (Start_listen wit_tls)) (the (snd (Start_listen wit_tls))))))
     (fst (snd (Stop None (fst (Start_listen wit_tls)) (the (snd (Start_listen wit_tls)))))) = None"
proof -
  let ?s1 = "fst (Start_listen wit_tls)" and ?c = "the (snd (Start_listen wit_tls))"
  have s: "sv_Error wit_tls = None" "sv_tlsConfig wit_tls \<noteq> None" "sv_redirect wit_tls \<noteq> None"
    by (simp_all add: wit_tls_def WithRedirectToHTTPS_def WithPort_def WithTLS_def New_def)
  then have "Start_listen wit_tls = (?s1, Some ?c)" by (simp add: Start_listen_def Let_def)
  moreover have "Stop None ?s1 ?c = (None, fst (snd (Stop None ?s1 ?c)), snd (snd (Stop None ?s1 ?c)))"
    by (auto simp: Stop_def split: option.splits)
  moreover have "hs_listener r = Idle" if "sv_redirect wit_tls = Some r" for r
    using that by (auto simp: wit_tls_def WithRedirectToHTTPS_def WithPort_def WithTLS_def New_def http_server_def)
  ultimately show ?thesis using stop_returns_unless_redirect [OF s(1)] s by (simp del: not_None_eq)
qed

end
