(* ===== verification/Version.thy ===== *)
theory Version
  imports GoStrings
begin

text \<open>
  The version package (\<open>src/version/version.go\<close>) and the memory size package
  (\<open>src/memsize/memsize.go\<close>). Build information is what the linker and \<open>debug.ReadBuildInfo\<close> give; the
  size of a value is the length of its gob encoding, an argument. \<open>None\<close> is an index out of range.
\<close>

section \<open>Tags\<close>

datatype Module = Module (md_Path: string) (md_Version: string) (md_Sum: string) (md_Replace: "Module option")

record Release =
  vr_ID :: nat
  vr_GitTag :: string
  vr_GitCommit :: string
  vr_GitShort :: string
  vr_BuildDate :: string
  vr_GoVersion :: string
  vr_Platform :: string
  vr_Modules :: "Module list"

text \<open>\<open>[0-9]+\<close> at the start of a text: what follows the longest match. The pattern's literals are no digits, so it never has to give one back.\<close>

definition skip_digits :: "string \<Rightarrow> string option" where
  "skip_digits s = (case s of c # cs \<Rightarrow> if is_digit c then Some (dropWhile is_digit cs) else None | [] \<Rightarrow> None)"

definition skip_char :: "char \<Rightarrow> string \<Rightarrow> string option" where
  "skip_char c s = (case s of x # xs \<Rightarrow> if x = c then Some xs else None | [] \<Rightarrow> None)"

text \<open>\<open>^v([0-9]+)\.([0-9]+)\.([0-9]+)\<close>, a match at the start; nothing anchors the end.\<close>

definition IsGitTag :: "string \<Rightarrow> bool" where
  "IsGitTag tag \<longleftrightarrow>
     Option.bind (skip_char CHR ''v'' tag) (\<lambda>s. Option.bind (skip_digits s) (\<lambda>s. Option.bind (skip_char CHR ''.'' s) (\<lambda>s.
     Option.bind (skip_digits s) (\<lambda>s. Option.bind (skip_char CHR ''.'' s) skip_digits)))) \<noteq> None"

definition tag_version :: "string \<Rightarrow> string" where
  "tag_version tag = TrimPrefix (before_char CHR ''-'' tag) ''v''"

definition ParseTagSegment :: "string \<Rightarrow> int \<Rightarrow> int option" where
  "ParseTagSegment tag n =
     (if \<not> IsGitTag tag then Some 0
      else
        (let segments = Split_char CHR ''.'' (tag_version tag) in
         if n \<ge> int (length segments) then Some 0
         else if n < 0 then None
         else case Atoi (segments ! nat n) of None \<Rightarrow> Some 0 | Some v \<Rightarrow> Some v))"

definition ParseTagVersion :: "string \<Rightarrow> string" where
  "ParseTagVersion tag = (if \<not> IsGitTag tag then [] else tag_version tag)"

definition Major :: "string \<Rightarrow> int option" where "Major gitTag = ParseTagSegment gitTag 0"
definition Minor :: "string \<Rightarrow> int option" where "Minor gitTag = ParseTagSegment gitTag 1"
definition Patch :: "string \<Rightarrow> int option" where "Patch gitTag = ParseTagSegment gitTag 2"
definition version_String :: "string \<Rightarrow> string" where "version_String gitTag = tag_version gitTag"

definition CompareTag :: "Release \<Rightarrow> Release \<Rightarrow> bool" where
  "CompareTag v c \<longleftrightarrow> vr_GitTag v = vr_GitTag c"

definition CompareCommit :: "Release \<Rightarrow> Release \<Rightarrow> bool" where
  "CompareCommit v c \<longleftrightarrow> vr_GitCommit v = vr_GitCommit c \<and> vr_GitShort v = vr_GitShort c"

definition Compare :: "Release \<Rightarrow> Release \<Rightarrow> bool" where
  "Compare v c \<longleftrightarrow> CompareTag v c \<and> CompareCommit v c"

datatype release_error = EmptyTag | EmptyCommit | EmptyShort | EmptyBuildDate | EmptyGoVersion | EmptyPlatform

definition Release_Validate :: "Release \<Rightarrow> release_error option" where
  "Release_Validate change =
     (if TrimSpace (vr_GitTag change) = [] then Some EmptyTag
      else if TrimSpace (vr_GitCommit change) = [] then Some EmptyCommit
      else if TrimSpace (vr_GitShort change) = [] then Some EmptyShort
      else if TrimSpace (vr_BuildDate change) = [] then Some EmptyBuildDate
      else if TrimSpace (vr_GoVersion change) = [] then Some EmptyGoVersion
      else if TrimSpace (vr_Platform change) = [] then Some EmptyPlatform
      else None)"

text \<open>\<open>debug.Module\<close> has the same fields.\<close>

datatype debug_Module = DebugModule string string string "debug_Module option"

fun fromBuildInfo :: "debug_Module \<Rightarrow> Module" where
  "fromBuildInfo (DebugModule p v s None) = Module p v s None"
| "fromBuildInfo (DebugModule p v s (Some m)) = Module p v s (Some (fromBuildInfo m))"

text \<open>The package's variables, which the build may set, and \<open>init\<close>, which collects the modules of the build information.\<close>

record BuildVars =
  bv_GitTag :: string
  bv_GitCommit :: string
  bv_GitShort :: string
  bv_BuildDate :: string
  bv_GoVersion :: string
  bv_Platform :: string
  bv_Modules :: "Module list"

definition version_vars :: "string \<Rightarrow> string \<Rightarrow> string \<Rightarrow> BuildVars" where
  "version_vars goVersion goos goarch = \<lparr>bv_GitTag = ''v0.0.0'', bv_GitCommit = ''unknown'', bv_GitShort = ''unknown'', bv_BuildDate = ''unknown'',
     bv_GoVersion = goVersion, bv_Platform = goos @ ''/'' @ goarch, bv_Modules = []\<rparr>"

definition version_init :: "debug_Module list option \<Rightarrow> BuildVars \<Rightarrow> BuildVars" where
  "version_init info b = (case info of None \<Rightarrow> b | Some deps \<Rightarrow> b\<lparr>bv_Modules := bv_Modules b @ map fromBuildInfo deps\<rparr>)"

definition GetVersion :: "BuildVars \<Rightarrow> Release" where
  "GetVersion b = \<lparr>vr_ID = 0, vr_GitTag = bv_GitTag b, vr_GitCommit = bv_GitCommit b, vr_GitShort = bv_GitShort b, vr_BuildDate = bv_BuildDate b,
     vr_GoVersion = bv_GoVersion b, vr_Platform = bv_Platform b, vr_Modules = bv_Modules b\<rparr>"

section \<open>Sizes\<close>

text \<open>The loop of \<open>ToByteString\<close>: divisor and exponent, the divisor in 64 bits.\<close>

function unit_loop :: "int \<Rightarrow> int \<Rightarrow> nat \<Rightarrow> int \<times> nat" where
  "unit_loop n d e = (if n \<ge> 1000 then unit_loop (n div 1000) (wrap64 (d * 1000)) (e + 1) else (d, e))"
  by pat_completeness auto
termination
  by (relation "measure (\<lambda>(n, d, e). nat n)") auto

declare unit_loop.simps [simp del]

text \<open>\<open>fmt1\<close> is \<open>%.1f\<close> of the quotient of two numbers as \<open>float64\<close>. \<open>None\<close>: the exponent is outside the unit letters.\<close>

definition ToByteString :: "(int \<Rightarrow> int \<Rightarrow> string) \<Rightarrow> int \<Rightarrow> string option" where
  "ToByteString fmt1 b =
     (if b < 1000 then Some (Itoa b @ '' B'')
      else let (d, e) = unit_loop (b div 1000) 1000 0 in
           if e < length ''kMGTPE'' then Some (fmt1 b d @ '' '' @ [''kMGTPE'' ! e] @ ''B'') else None)"

text \<open>What \<open>reflect\<close> says of a value: nil itself, a nil of a kind that can be nil, or anything else.\<close>

datatype go_value = NilInterface | NilPtr | NilMap | NilChan | NilSlice | NonNil "value"

fun InterfaceIsNullPointer :: "go_value \<Rightarrow> bool" where
  "InterfaceIsNullPointer (NonNil v) = False"
| "InterfaceIsNullPointer _ = True"

definition SizeOf :: "(go_value \<Rightarrow> bytes option) \<Rightarrow> go_value \<Rightarrow> int option" where
  "SizeOf gob v = (if InterfaceIsNullPointer v then Some 0 else map_option (\<lambda>b. int (length b)) (gob v))"

section \<open>Properties\<close>

lemma skip_digits_itoa: "skip_digits (itoa_nat n @ rest) = Some (dropWhile is_digit rest)"
proof -
  obtain c cs where s: "itoa_nat n = c # cs" by (cases "itoa_nat n") auto
  have "is_digit x" if "x \<in> set (c # cs)" for x using that s itoa_nat_digits by metis
  then show ?thesis by (simp add: skip_digits_def s dropWhile_append)
qed

definition tag_of :: "nat \<Rightarrow> nat \<Rightarrow> nat \<Rightarrow> string \<Rightarrow> string" where
  "tag_of major minor patch suffix =
     ''v'' @ itoa_nat major @ ''.'' @ itoa_nat minor @ ''.'' @ itoa_nat patch @ suffix"

lemma not_digit_dot [simp]: "\<not> is_digit CHR ''.''" "\<not> is_digit CHR ''-''" "\<not> is_digit CHR ''v''"
  by (simp_all add: is_digit_def digit_val_def)

lemma tag_of_IsGitTag: "IsGitTag (tag_of a b c suffix)"
  by (simp add: IsGitTag_def tag_of_def skip_char_def skip_digits_itoa)

lemma itoa_no: "CHR ''-'' \<notin> set (itoa_nat n)" "CHR ''.'' \<notin> set (itoa_nat n)"
  using itoa_nat_digits by fastforce+

lemma tag_of_version:
  assumes "suffix = [] \<or> hd suffix = CHR ''-''"
  shows "tag_version (tag_of a b c suffix) = itoa_nat a @ ''.'' @ itoa_nat b @ ''.'' @ itoa_nat c"
proof -
  let ?core = "''v'' @ itoa_nat a @ ''.'' @ itoa_nat b @ ''.'' @ itoa_nat c"
  have "\<forall>x \<in> set ?core. x \<noteq> CHR ''-''" using itoa_no(1) by auto
  then have "before_char CHR ''-'' (?core @ suffix) = ?core @ before_char CHR ''-'' suffix"
    unfolding before_char_def by (intro takeWhile_append2) blast
  moreover have "before_char CHR ''-'' suffix = []" using assms by (cases suffix) (auto simp: before_char_def)
  ultimately show ?thesis by (simp add: tag_version_def tag_of_def TrimPrefix_def)
qed

text \<open>
  C37: Major, minor and patch number are read back from every tag of the form vX.Y.Z, with or without a
  suffix that starts with a hyphen, as long as the numbers fit 64 bits.
\<close>

theorem tag_segments_round_trip:
  assumes "suffix = [] \<or> hd suffix = CHR ''-''" "int64_range (int a)" "int64_range (int b)" "int64_range (int c)"
  shows "Major (tag_of a b c suffix) = Some (int a) \<and> Minor (tag_of a b c suffix) = Some (int b)
    \<and> Patch (tag_of a b c suffix) = Some (int c)"
proof -
  have "Split_char CHR ''.'' (tag_version (tag_of a b c suffix)) = [itoa_nat a, itoa_nat b, itoa_nat c]"
    by (simp add: tag_of_version [OF assms(1)] Split_char_append Split_char_single itoa_no)
  then show ?thesis
    using assms(2-) by (simp add: Major_def Minor_def Patch_def ParseTagSegment_def tag_of_IsGitTag Atoi_Itoa_nat numeral_2_eq_2)
qed

theorem tag_segments_round_trip_witness: "Minor (tag_of 1 20 3 ''-rc1'') = Some 20"
proof -
  have "(''-rc1'' = [] \<or> hd ''-rc1'' = CHR ''-'')" "int64_range (int 1)" "int64_range (int 20)" "int64_range (int 3)"
    by (simp_all add: int64_range_def)
  from tag_segments_round_trip [OF this] show ?thesis by simp
qed

text \<open>A suffix without a hyphen stays part of the last segment, which then is no number: the patch becomes 0.\<close>

lemma patch_lost_without_hyphen: "IsGitTag ''v1.2.3rc1'' \<and> Patch ''v1.2.3rc1'' = Some 0"
  by code_simp

text \<open>The divisor is the power of 1000 that fits the number, computed without overflow, and there is a letter for it.\<close>

lemma unit_loop_spec:
  assumes "0 < n" "1000 ^ Suc e * n < 2 ^ 63"
  shows "\<exists>k. unit_loop n (1000 ^ Suc e) e = (1000 ^ Suc (e + k), e + k) \<and> 1000 ^ k \<le> n \<and> n < 1000 ^ Suc k"
  using assms
proof (induction "nat n" arbitrary: n e rule: less_induct)
  case less
  show ?case
  proof (cases "n \<ge> 1000")
    case False
    then show ?thesis using less.prems by (intro exI [of _ 0]) (simp add: unit_loop.simps [of n])
  next
    case True
    have n: "1000 * (n div 1000) \<le> n" "0 < n div 1000" using True by auto
    have "(1000 :: int) ^ Suc e * (1000 * (n div 1000)) \<le> 1000 ^ Suc e * n" using n(1) by (intro mult_left_mono) auto
    also note less.prems(2)
    also have "(1000 :: int) ^ Suc e * (1000 * (n div 1000)) = 1000 ^ Suc (Suc e) * (n div 1000)" by simp
    finally have lt: "(1000 :: int) ^ Suc (Suc e) * (n div 1000) < 2 ^ 63" .
    have "(1000 :: int) ^ Suc (Suc e) * 1 \<le> 1000 ^ Suc (Suc e) * (n div 1000)" using n(2) by (intro mult_left_mono) auto
    then have "(1000 :: int) ^ Suc (Suc e) < 2 ^ 63" using lt by linarith
    moreover have "(0 :: int) < 1000 ^ Suc (Suc e)" by simp
    ultimately have "int64_range (1000 ^ Suc (Suc e))" unfolding int64_range_def by linarith
    then have w: "wrap64 (1000 ^ Suc e * 1000) = 1000 ^ Suc (Suc e)" using wrap64_id by (simp add: mult.commute)
    have "nat (n div 1000) < nat n" using True by auto
    from less.hyps [OF this n(2) lt] obtain k where
      k: "unit_loop (n div 1000) (1000 ^ Suc (Suc e)) (Suc e) = (1000 ^ Suc (Suc e + k), Suc e + k)"
         "1000 ^ k \<le> n div 1000" "n div 1000 < 1000 ^ Suc k" by blast
    have "unit_loop n (1000 ^ Suc e) e = (1000 ^ Suc (e + Suc k), e + Suc k)"
      using True k(1) w by (simp add: unit_loop.simps [of n])
    moreover have "1000 ^ Suc k \<le> n" "n < 1000 ^ Suc (Suc k)" using k(2,3) by auto
    ultimately show ?thesis by blast
  qed
qed

text \<open>
  \<open>ToByteString\<close> returns for every 64-bit number: its loop ends, the unit letter is always in range,
  and the divisor is the power of 1000, not wrapped, whose quotient lies in [1, 1000).
\<close>

theorem byte_string_total:
  assumes "int64_range b" "1000 \<le> b"
  shows "\<exists>e < length ''kMGTPE''. ToByteString fmt1 b = Some (fmt1 b (1000 ^ Suc e) @ '' '' @ [''kMGTPE'' ! e] @ ''B'')
     \<and> 1000 ^ Suc e \<le> b \<and> b < 1000 ^ Suc (Suc e)"
proof -
  have "0 < b div 1000" using assms(2) by auto
  moreover have "1000 ^ Suc 0 * (b div 1000) < 2 ^ 63"
  proof -
    have "1000 ^ Suc 0 * (b div 1000) \<le> b" by simp
    also have "b < 2 ^ 63" using assms(1) by (simp add: int64_range_def)
    finally show ?thesis .
  qed
  ultimately obtain k where k: "unit_loop (b div 1000) (1000 ^ Suc 0) 0 = (1000 ^ Suc (0 + k), 0 + k)"
      "1000 ^ k \<le> b div 1000" "b div 1000 < 1000 ^ Suc k"
    using unit_loop_spec [of "b div 1000" 0] by blast
  have range: "1000 ^ Suc k \<le> b" "b < 1000 ^ Suc (Suc k)" using k(2,3) by auto
  have "k < 6"
  proof (rule ccontr)
    assume "\<not> k < 6"
    then have "(1000 :: int) ^ 7 \<le> 1000 ^ Suc k" by (intro power_increasing) auto
    then show False using range(1) assms(1) by (simp add: int64_range_def)
  qed
  then show ?thesis using k(1) range assms(2) by (intro exI [of _ k]) (simp add: ToByteString_def)
qed

theorem byte_string_total_witness: "ToByteString (\<lambda>b d. Itoa (b div d)) 5200300 \<noteq> None"
proof -
  have "int64_range 5200300" "(1000 :: int) \<le> 5200300" by (simp_all add: int64_range_def)
  from byte_string_total [OF this, of "\<lambda>b d. Itoa (b div d)"] show ?thesis by auto
qed

end
