(* ===== verification/Database.thy ===== *)
theory Database
  imports Version "HOL-Library.Word" "HOL-Library.Sublist"
begin

text \<open>
  The database package (\<open>src/database\<close>): validation of its configuration, the registration of models and
  migration steps, the migrations that run when a connection is made, and the loop that keeps the connection
  up. The ORM (gorm) is a record of its calls on the state of the database; \<open>release_laws\<close> states what it
  documents of the table of releases. \<open>log.Fatal\<close> ends the process: \<open>Exit\<close> with the database as it was left.
\<close>

section \<open>Configuration\<close>

record DbConfig =
  dc_Driver :: string
  dc_Host :: string
  dc_Port :: "16 word"
  dc_User :: string
  dc_Password :: string
  dc_Name :: string

definition DbConfig_Validate :: "DbConfig \<Rightarrow> string option" where
  "DbConfig_Validate c =
     (if dc_Driver c = [] then Some ''database driver is required''
      else if dc_Driver c = ''sqlite'' then
        (if dc_Name c = [] then Some ''database name (sqlite file) is required'' else None)
      else if dc_Host c = [] then Some ''database host is required''
      else if dc_Port c = 0 then Some ''database port is required''
      else if dc_User c = [] then Some ''database user is required''
      else if dc_Password c = [] then Some ''database password is required''
      else if dc_Name c = [] then Some ''database name is required''
      else None)"

section \<open>The ORM\<close>

datatype found = Found | NotFound | FindError string

text \<open>
  \<open>or_Join\<close> is \<open>filepath.Join\<close>, \<open>or_OpenSqlite\<close> and \<open>or_OpenMysql\<close> are \<open>gorm.Open\<close> on the path and the DSN, \<open>or_DB\<close> is
  \<open>DB()\<close>, \<open>or_DirExists\<close> says whether the data directory exists, and \<open>or_AutoMigrate\<close> takes the models.
\<close>

record ('d, 'm) Orm =
  or_Join :: "string \<Rightarrow> string \<Rightarrow> string"
  or_DirExists :: "string \<Rightarrow> 'd \<Rightarrow> bool"
  or_Mkdir :: "string \<Rightarrow> 'd \<Rightarrow> string option \<times> 'd"
  or_OpenSqlite :: "string \<Rightarrow> 'd \<Rightarrow> string option \<times> 'd"
  or_OpenMysql :: "string \<Rightarrow> 'd \<Rightarrow> string option \<times> 'd"
  or_DB :: "'d \<Rightarrow> string option"
  or_MigrateReleases :: "'d \<Rightarrow> string option \<times> 'd"
  or_AutoMigrate :: "'m list \<Rightarrow> 'd \<Rightarrow> string option \<times> 'd"
  or_FindRelease :: "string \<Rightarrow> string \<Rightarrow> 'd \<Rightarrow> found"
  or_CreateRelease :: "Release \<Rightarrow> 'd \<Rightarrow> string option \<times> 'd"
  or_Exec :: "string \<Rightarrow> 'd \<Rightarrow> string option \<times> 'd"
  or_Close :: "'d \<Rightarrow> string option \<times> 'd"

section \<open>Registration\<close>

record 'd Step =
  sp_Version :: Release
  sp_Action :: "'d \<Rightarrow> string option \<times> 'd"

type_synonym 'd steps = "string \<rightharpoonup> (string \<rightharpoonup> 'd Step list)"

definition RegisterSchema :: "'m list \<Rightarrow> 'm list \<Rightarrow> 'm list" where
  "RegisterSchema models schema = schema @ models"

text \<open>\<open>None\<close> is the panic; the maps are made before the check, so an entry without steps may stay behind.\<close>

definition step_group :: "'d steps \<Rightarrow> string \<Rightarrow> string \<Rightarrow> 'd Step list" where
  "step_group m tag commit = (case Option.bind (m tag) (\<lambda>c. c commit) of None \<Rightarrow> [] | Some ss \<Rightarrow> ss)"

definition make_group :: "string \<Rightarrow> string \<Rightarrow> 'd steps \<Rightarrow> 'd steps" where
  "make_group tag commit m =
     (let inner = (case m tag of None \<Rightarrow> Map.empty | Some c \<Rightarrow> c)
      in m(tag \<mapsto> (case inner commit of None \<Rightarrow> inner(commit \<mapsto> []) | Some _ \<Rightarrow> inner)))"


text \<open>\<open>order\<close> is the order in which the iteration over the two maps visits the versions.\<close>

definition getMigrationSteps :: "(string \<times> string) list \<Rightarrow> 'd steps \<Rightarrow> 'd Step list list" where
  "getMigrationSteps order m = map (\<lambda>(tag, commit). step_group m tag commit) order"

definition db_setup :: "('d, 'm) Orm \<Rightarrow> 'd \<Rightarrow> string option \<times> 'd" where
  "db_setup orm d = or_MigrateReleases orm d"

definition migrateSchema :: "('d, 'm) Orm \<Rightarrow> 'm list \<Rightarrow> 'd \<Rightarrow> string option \<times> 'd" where
  "migrateSchema orm schema d = (if schema = [] then (None, d) else or_AutoMigrate orm schema d)"

section \<open>Migrations\<close>

datatype 'd run = Done 'd | Exit 'd

fun then_run :: "'d run \<Rightarrow> ('d \<Rightarrow> 'd run) \<Rightarrow> 'd run" where
  "then_run (Done d) k = k d"
| "then_run (Exit d) k = Exit d"

text \<open>A call whose error is fatal.\<close>

definition fatal :: "string option \<times> 'd \<Rightarrow> 'd run" where
  "fatal res = (case res of (None, d) \<Rightarrow> Done d | (Some e, d) \<Rightarrow> Exit d)"

fun run_steps :: "'d Step list \<Rightarrow> 'd \<Rightarrow> 'd run" where
  "run_steps [] d = Done d"
| "run_steps (s # ss) d = then_run (fatal (sp_Action s d)) (run_steps ss)"

text \<open>An error of the lookup other than \<open>ErrRecordNotFound\<close> skips the group.\<close>

definition migrate_group :: "('d, 'm) Orm \<Rightarrow> 'd Step list \<Rightarrow> 'd \<Rightarrow> 'd run" where
  "migrate_group orm ss d =
     (case ss of
        [] \<Rightarrow> Done d
      | s # _ \<Rightarrow>
          (case or_FindRelease orm (vr_GitTag (sp_Version s)) (vr_GitCommit (sp_Version s)) d of
             NotFound \<Rightarrow> then_run (run_steps ss d) (\<lambda>d. fatal (or_CreateRelease orm (sp_Version s) d))
           | _ \<Rightarrow> Done d))"

fun migrate_groups :: "('d, 'm) Orm \<Rightarrow> 'd Step list list \<Rightarrow> 'd \<Rightarrow> 'd run" where
  "migrate_groups orm [] d = Done d"
| "migrate_groups orm (ss # gs) d = then_run (migrate_group orm ss d) (migrate_groups orm gs)"

definition onConnect :: "('d, 'm) Orm \<Rightarrow> 'm list \<Rightarrow> 'd Step list list \<Rightarrow> Release \<Rightarrow> DbConfig \<Rightarrow> 'd \<Rightarrow> 'd run" where
  "onConnect orm schema groups revision cfg d =
     then_run (fatal (db_setup orm d)) (\<lambda>d.
     then_run
       (case or_FindRelease orm (vr_GitTag revision) (vr_GitCommit revision) d of
          FindError e \<Rightarrow> Exit d
        | Found \<Rightarrow> Done d
        | NotFound \<Rightarrow>
            then_run (fatal (migrateSchema orm schema d)) (\<lambda>d.
            then_run (migrate_groups orm groups d) (\<lambda>d.
            fatal (or_CreateRelease orm revision d))))
       (\<lambda>d. if dc_Driver cfg = ''sqlite'' then Done (snd (or_Exec orm ''VACUUM;'' d)) else Done d))"

section \<open>The connection\<close>

text \<open>What an on-connect handler ends with.\<close>

datatype hresult = HOk | HErr string | HPanic

record ('d, 'm) DbState =
  ds_db :: bool
  ds_connected :: bool
  ds_failed :: bool
  ds_cancel :: bool
  ds_handlers :: "(DbConfig \<Rightarrow> 'd \<Rightarrow> hresult \<times> 'd) list"
  ds_schema :: "'m list"
  ds_steps :: "'d steps"
  ds_data :: 'd

definition db_connect :: "('d, 'm) Orm \<Rightarrow> string \<Rightarrow> DbConfig \<Rightarrow> 'd \<Rightarrow> string option \<times> 'd" where
  "db_connect orm path cfg d =
     (if dc_Driver cfg = ''sqlite'' then
        let memory = (dc_Name cfg = '':memory:'');
            (e, d) = (if \<not> memory \<and> \<not> or_DirExists orm path d then or_Mkdir orm path d else (None, d))
        in case e of
             Some e \<Rightarrow> (Some e, d)
           | None \<Rightarrow>
               (case or_OpenSqlite orm (if memory then '':memory:?cache=shared'' else or_Join orm path (dc_Name cfg @ ''.db?cache=shared'')) d of
                  (Some e, d) \<Rightarrow> (Some e, d)
                | (None, d) \<Rightarrow> (or_DB orm d, d))
      else if dc_Driver cfg = ''mysql'' \<or> dc_Driver cfg = ''mariadb'' then
        or_OpenMysql orm (dc_User cfg @ '':'' @ dc_Password cfg @ ''@tcp('' @ dc_Host cfg @ '':'' @ itoa_nat (unat (dc_Port cfg)) @ '')/'' @
          dc_Name cfg @ ''?charset=utf8mb4&parseTime=True&loc=Local'') d
      else (Some (''unsupported database driver: '' @ dc_Driver cfg), d))"

fun run_handlers :: "(DbConfig \<Rightarrow> 'd \<Rightarrow> hresult \<times> 'd) list \<Rightarrow> DbConfig \<Rightarrow> 'd \<Rightarrow> hresult \<times> 'd" where
  "run_handlers [] cfg d = (HOk, d)"
| "run_handlers (h # hs) cfg d = (case h cfg d of (HOk, d) \<Rightarrow> run_handlers hs cfg d | (res, d) \<Rightarrow> (res, d))"

text \<open>
  One round of the loop that \<open>Connect\<close> starts; \<open>None\<close> when the process exits. A panic of a handler is caught
  and leaves both flags as they are. \<open>order\<close> as for \<open>getMigrationSteps\<close>.
\<close>

definition connect_round ::
    "('d, 'm) Orm \<Rightarrow> string \<Rightarrow> Release \<Rightarrow> (string \<times> string) list \<Rightarrow> DbConfig \<Rightarrow> ('d, 'm) DbState \<Rightarrow> ('d, 'm) DbState option" where
  "connect_round orm path revision order cfg s =
     (if \<not> ds_connected s then
        (case db_connect orm path cfg (ds_data s) of
           (Some e, d) \<Rightarrow> Some (s\<lparr>ds_data := d, ds_failed := True\<rparr>)
         | (None, d) \<Rightarrow>
             (case onConnect orm (ds_schema s) (getMigrationSteps order (ds_steps s)) revision cfg d of
                Exit d \<Rightarrow> None
              | Done d \<Rightarrow>
                  (case run_handlers (ds_handlers s) cfg d of
                     (HErr e, d) \<Rightarrow> Some (s\<lparr>ds_db := True, ds_data := d, ds_failed := True\<rparr>)
                   | (HPanic, d) \<Rightarrow> Some (s\<lparr>ds_db := True, ds_data := d\<rparr>)
                   | (HOk, d) \<Rightarrow> Some (s\<lparr>ds_db := True, ds_data := d, ds_failed := False, ds_connected := True\<rparr>))))
      else if ds_db s then
        (case or_Exec orm ''SELECT 1;'' (ds_data s) of
           (None, d) \<Rightarrow> Some (s\<lparr>ds_data := d\<rparr>)
         | (Some e, d) \<Rightarrow> Some (s\<lparr>ds_data := d, ds_connected := False, ds_failed := True\<rparr>))
      else Some s)"

definition db_Execute :: "('d \<Rightarrow> string option \<times> 'd) \<Rightarrow> ('d, 'm) DbState \<Rightarrow> string option \<times> ('d, 'm) DbState" where
  "db_Execute call s =
     (if \<not> ds_connected s \<or> \<not> ds_db s then (Some ''database is not connected'', s)
      else case call (ds_data s) of (e, d) \<Rightarrow> (e, s\<lparr>ds_data := d\<rparr>))"

definition db_Connected :: "('d, 'm) DbState \<Rightarrow> bool" where
  "db_Connected s \<longleftrightarrow> ds_connected s"

definition db_Reconnect :: "('d, 'm) DbState \<Rightarrow> ('d, 'm) DbState" where
  "db_Reconnect s = s\<lparr>ds_connected := False, ds_failed := False\<rparr>"

text \<open>\<open>Disconnect\<close> up to its wait for the loop; \<open>Inr ()\<close> is that it waits.\<close>

definition db_Disconnect :: "('d, 'm) Orm \<Rightarrow> ('d, 'm) DbState \<Rightarrow> (string + unit) \<times> ('d, 'm) DbState" where
  "db_Disconnect orm s =
     (let s = s\<lparr>ds_cancel := True\<rparr> in
      if ds_connected s \<and> ds_db s then
        (case or_DB orm (ds_data s) of
           Some e \<Rightarrow> (Inl ''failed to get database instance'', s)
         | None \<Rightarrow>
             (case or_Close orm (ds_data s) of
                (Some e, d) \<Rightarrow> (Inl ''failed to close database connection'', s\<lparr>ds_data := d\<rparr>)
              | (None, d) \<Rightarrow> (Inr (), s\<lparr>ds_data := d\<rparr>)))
      else (Inr (), s))"

definition RegisterOnConnectHandler :: "(DbConfig \<Rightarrow> 'd \<Rightarrow> hresult \<times> 'd) option \<Rightarrow> ('d, 'm) DbState \<Rightarrow> ('d, 'm) DbState" where
  "RegisterOnConnectHandler h s = (case h of None \<Rightarrow> s | Some f \<Rightarrow> s\<lparr>ds_handlers := ds_handlers s @ [f]\<rparr>)"

section \<open>What the migrations do\<close>






















section \<open>Registered steps\<close>


lemma step_group_make [simp]: "step_group (make_group tag commit m) t c = step_group m t c"
  by (auto simp: step_group_def make_group_def Let_def split: option.splits)










section \<open>The connection state\<close>

text \<open>Rounds of the loop, calls of the package and calls through \<open>Execute\<close>, in any order.\<close>

inductive db_step :: "('d, 'm) Orm \<Rightarrow> string \<Rightarrow> Release \<Rightarrow> DbConfig \<Rightarrow> ('d, 'm) DbState \<Rightarrow> ('d, 'm) DbState \<Rightarrow> bool"
  for orm path revision cfg where
  round: "connect_round orm path revision order cfg s = Some s' \<Longrightarrow> db_step orm path revision cfg s s'"
| execute: "db_step orm path revision cfg s (snd (db_Execute call s))"
| reconnect: "db_step orm path revision cfg s (db_Reconnect s)"
| disconnect: "db_step orm path revision cfg s (snd (db_Disconnect orm s))"
| handler: "db_step orm path revision cfg s (RegisterOnConnectHandler h s)"

definition db_start :: "'d \<Rightarrow> ('d, 'm) DbState" where
  "db_start d = \<lparr>ds_db = False, ds_connected = False, ds_failed = False, ds_cancel = False, ds_handlers = [], ds_schema = [],
     ds_steps = Map.empty, ds_data = d\<rparr>"

definition db_inv :: "('d, 'm) DbState \<Rightarrow> bool" where
  "db_inv s \<longleftrightarrow> (ds_connected s \<longrightarrow> ds_db s \<and> \<not> ds_failed s)"

lemma db_inv_step:
  assumes "db_inv s" "db_step orm path revision cfg s s'"
  shows "db_inv s'"
  using assms(2,1)
proof (induction rule: db_step.induct)
  case (round order s s')
  then show ?case by (auto simp: db_inv_def connect_round_def split: if_splits prod.splits option.splits run.splits hresult.splits)
qed (auto simp: db_inv_def db_Execute_def db_Reconnect_def db_Disconnect_def RegisterOnConnectHandler_def Let_def
      split: if_splits prod.splits option.splits)

interpretation db: state_machine "db_start d" "db_step orm path revision cfg" db_inv for d orm path revision cfg
  by unfold_locales (simp add: db_inv_def db_start_def, rule db_inv_step)

text \<open>So \<open>Execute\<close> is refused exactly while the flag says that the database is not connected.\<close>

lemma db_execute_iff_connected:
  assumes "(db_step orm path revision cfg)\<^sup>*\<^sup>* (db_start d) s"
  shows "db_Execute call s = (if db_Connected s then (case call (ds_data s) of (e, d') \<Rightarrow> (e, s\<lparr>ds_data := d'\<rparr>))
    else (Some ''database is not connected'', s))"
  using db.reachable_I [OF assms] by (simp add: db_inv_def db_Execute_def db_Connected_def)

text \<open>\<open>Disconnect\<close> closes the database but leaves the flag, so calls go on to the closed connection.\<close>

lemma db_disconnect_stays_connected: "db_Connected (snd (db_Disconnect orm s)) = db_Connected s"
  by (auto simp: db_Connected_def db_Disconnect_def Let_def split: option.splits prod.splits)

section \<open>Witness\<close>








end
