(* ===== verification/MailMessage.thy ===== *)
theory MailMessage
  imports AppError
begin

text \<open>
  Messages, the message builder (\<open>src/mail/types.go\<close>) and the configuration with its validation
  (\<open>src/mail/config.go\<close>). Errors are those of the theory \<open>AppError\<close>, without the trace and the details
  that only name the offending value. A reader is the bytes it yields.
\<close>

section \<open>Messages\<close>

definition ml_err :: "string \<Rightarrow> err" where
  "ml_err msg = NewError None msg"

record Attachment =
  at_Filename :: string
  at_ContentType :: string
  at_Content :: "bytes option"
  at_Reader :: "bytes option"
  at_Size :: int
  at_Inline :: bool
  at_ContentID :: string

definition ml_PriorityLow :: int where "ml_PriorityLow = 0"
definition ml_PriorityNormal :: int where "ml_PriorityNormal = 1"
definition ml_PriorityHigh :: int where "ml_PriorityHigh = 2"
definition ml_PriorityCritical :: int where "ml_PriorityCritical = 3"

definition ml_Priority_String :: "int \<Rightarrow> string" where
  "ml_Priority_String p =
     (if p = ml_PriorityLow then ''low'' else if p = ml_PriorityNormal then ''normal''
      else if p = ml_PriorityHigh then ''high'' else if p = ml_PriorityCritical then ''critical'' else ''unknown'')"

text \<open>Maps are association lists (their order is visible when they are iterated); \<open>None\<close> is the nil map.\<close>

record Message =
  ms_ID :: string
  ms_From :: string
  ms_To :: "string list"
  ms_CC :: "string list"
  ms_BCC :: "string list"
  ms_ReplyTo :: string
  ms_Subject :: string
  ms_TextBody :: string
  ms_HTMLBody :: string
  ms_Template :: string
  ms_TemplateData :: "value"
  ms_Attachments :: "Attachment list"
  ms_Headers :: "(string \<times> string) list option"
  ms_Priority :: int
  ms_CreatedAt :: time
  ms_ScheduleAt :: "time option"
  ms_Metadata :: "(string \<times> string) list option"

definition Message_zero :: Message where
  "Message_zero = \<lparr>ms_ID = [], ms_From = [], ms_To = [], ms_CC = [], ms_BCC = [], ms_ReplyTo = [], ms_Subject = [],
     ms_TextBody = [], ms_HTMLBody = [], ms_Template = [], ms_TemplateData = VNil, ms_Attachments = [], ms_Headers = None,
     ms_Priority = 0, ms_CreatedAt = 0, ms_ScheduleAt = None, ms_Metadata = None\<rparr>"

record MailStats =
  st_SentCount :: int
  st_FailedCount :: int
  st_QueuedCount :: int
  st_ReceivedCount :: int
  st_LastSent :: "time option"
  st_LastReceived :: "time option"

section \<open>The builder\<close>

record MessageBuilder =
  mb_message :: Message
  mb_Error :: "err option"

definition NewMessage :: "time \<Rightarrow> MessageBuilder" where
  "NewMessage now = \<lparr>mb_message = Message_zero\<lparr>ms_Priority := ml_PriorityNormal, ms_CreatedAt := now,
     ms_Headers := Some [], ms_Metadata := Some []\<rparr>, mb_Error = None\<rparr>"

definition mb_fail :: "string \<Rightarrow> MessageBuilder \<Rightarrow> MessageBuilder" where
  "mb_fail msg b = b\<lparr>mb_Error := Some (ml_err msg)\<rparr>"

definition mb_upd :: "(Message \<Rightarrow> Message) \<Rightarrow> MessageBuilder \<Rightarrow> MessageBuilder" where
  "mb_upd f b = b\<lparr>mb_message := f (mb_message b)\<rparr>"

definition mb_From :: "string \<Rightarrow> MessageBuilder \<Rightarrow> MessageBuilder" where
  "mb_From addr b =
     (if mb_Error b \<noteq> None then b
      else if addr = [] then mb_fail ''from address cannot be empty'' b
      else mb_upd (\<lambda>m. m\<lparr>ms_From := addr\<rparr>) b)"

definition mb_To :: "string list \<Rightarrow> MessageBuilder \<Rightarrow> MessageBuilder" where
  "mb_To to b =
     (if mb_Error b \<noteq> None then b
      else if to = [] then mb_fail ''at least one recipient is required'' b
      else mb_upd (\<lambda>m. m\<lparr>ms_To := to\<rparr>) b)"

definition mb_CC :: "string list \<Rightarrow> MessageBuilder \<Rightarrow> MessageBuilder" where
  "mb_CC cc b = mb_upd (\<lambda>m. m\<lparr>ms_CC := cc\<rparr>) b"

definition mb_BCC :: "string list \<Rightarrow> MessageBuilder \<Rightarrow> MessageBuilder" where
  "mb_BCC bcc b = mb_upd (\<lambda>m. m\<lparr>ms_BCC := bcc\<rparr>) b"

definition mb_ReplyTo :: "string \<Rightarrow> MessageBuilder \<Rightarrow> MessageBuilder" where
  "mb_ReplyTo r b = mb_upd (\<lambda>m. m\<lparr>ms_ReplyTo := r\<rparr>) b"

definition mb_Subject :: "string \<Rightarrow> MessageBuilder \<Rightarrow> MessageBuilder" where
  "mb_Subject s b = mb_upd (\<lambda>m. m\<lparr>ms_Subject := s\<rparr>) b"

definition mb_TextBody :: "string \<Rightarrow> MessageBuilder \<Rightarrow> MessageBuilder" where
  "mb_TextBody t b = mb_upd (\<lambda>m. m\<lparr>ms_TextBody := t\<rparr>) b"

definition mb_HTMLBody :: "string \<Rightarrow> MessageBuilder \<Rightarrow> MessageBuilder" where
  "mb_HTMLBody t b = mb_upd (\<lambda>m. m\<lparr>ms_HTMLBody := t\<rparr>) b"

definition mb_Template :: "string \<Rightarrow> value \<Rightarrow> MessageBuilder \<Rightarrow> MessageBuilder" where
  "mb_Template name data b = mb_upd (\<lambda>m. m\<lparr>ms_Template := name, ms_TemplateData := data\<rparr>) b"

definition mb_Attach :: "Attachment \<Rightarrow> MessageBuilder \<Rightarrow> MessageBuilder" where
  "mb_Attach a b =
     (if mb_Error b \<noteq> None then b
      else if at_Filename a = [] \<or> at_ContentType a = [] then mb_fail ''attachment must have a valid filename and content type'' b
      else mb_upd (\<lambda>m. m\<lparr>ms_Attachments := ms_Attachments m @ [a]\<rparr>) b)"

definition mb_AttachInline :: "string \<Rightarrow> string \<Rightarrow> string \<Rightarrow> bytes \<Rightarrow> MessageBuilder \<Rightarrow> MessageBuilder" where
  "mb_AttachInline filename contentType contentID content b =
     (if mb_Error b \<noteq> None then b
      else if TrimSpace filename = [] \<or> TrimSpace contentType = []
        then mb_fail ''inline attachment must have a valid filename and content type'' b
      else if content = [] then mb_fail ''inline attachment content cannot be empty'' b
      else if TrimSpace contentID = [] then mb_fail ''inline attachment must have a Content-ID'' b
      else mb_upd (\<lambda>m. m\<lparr>ms_Attachments := ms_Attachments m @ [\<lparr>at_Filename = filename, at_ContentType = contentType,
             at_Content = Some content, at_Reader = None, at_Size = int (length content), at_Inline = True,
             at_ContentID = contentID\<rparr>]\<rparr>) b)"

definition mb_AttachInlineFromReader ::
    "string \<Rightarrow> string \<Rightarrow> string \<Rightarrow> bytes option \<Rightarrow> int \<Rightarrow> MessageBuilder \<Rightarrow> MessageBuilder" where
  "mb_AttachInlineFromReader filename contentType contentID reader sz b =
     (if mb_Error b \<noteq> None then b
      else if TrimSpace filename = [] \<or> TrimSpace contentType = []
        then mb_fail ''inline attachment must have a valid filename and content type'' b
      else if sz \<le> 0 then mb_fail ''inline attachment size must be greater than zero'' b
      else if TrimSpace contentID = [] then mb_fail ''inline attachment must have a Content-ID'' b
      else if reader = None then mb_fail ''inline attachment reader cannot be nil'' b
      else mb_upd (\<lambda>m. m\<lparr>ms_Attachments := ms_Attachments m @ [\<lparr>at_Filename = filename, at_ContentType = contentType,
             at_Content = None, at_Reader = reader, at_Size = sz, at_Inline = True, at_ContentID = contentID\<rparr>]\<rparr>) b)"

text \<open>A multipart file: its name, content type and size, and what opening and reading it give (\<open>None\<close>: failure). Closing it does not fail here.\<close>

record FileHeader =
  fh_Filename :: string
  fh_ContentType :: string
  fh_Size :: int
  fh_Open :: bool
  fh_Read :: "bytes option"

definition mb_AttachFile :: "FileHeader \<Rightarrow> MessageBuilder \<Rightarrow> MessageBuilder" where
  "mb_AttachFile fh b =
     (if mb_Error b \<noteq> None then b
      else if \<not> fh_Open fh then mb_fail ''failed to open attachment file'' b
      else case fh_Read fh of
        None \<Rightarrow> mb_fail ''failed to read attachment file'' b
      | Some content \<Rightarrow> mb_Attach \<lparr>at_Filename = fh_Filename fh, at_ContentType = fh_ContentType fh, at_Content = Some content,
             at_Reader = None, at_Size = fh_Size fh, at_Inline = False, at_ContentID = []\<rparr> b)"

text \<open>The builder's maps exist from \<open>NewMessage\<close> on.\<close>

definition mb_Header :: "string \<Rightarrow> string \<Rightarrow> MessageBuilder \<Rightarrow> MessageBuilder" where
  "mb_Header k v b = mb_upd (\<lambda>m. m\<lparr>ms_Headers := map_option (AList.update k v) (ms_Headers m)\<rparr>) b"

definition mb_Priority :: "int \<Rightarrow> MessageBuilder \<Rightarrow> MessageBuilder" where
  "mb_Priority p b = mb_upd (\<lambda>m. m\<lparr>ms_Priority := p\<rparr>) b"

definition mb_ScheduleAt :: "time \<Rightarrow> MessageBuilder \<Rightarrow> MessageBuilder" where
  "mb_ScheduleAt t b = mb_upd (\<lambda>m. m\<lparr>ms_ScheduleAt := Some t\<rparr>) b"

definition mb_Metadata :: "string \<Rightarrow> string \<Rightarrow> MessageBuilder \<Rightarrow> MessageBuilder" where
  "mb_Metadata k v b = mb_upd (\<lambda>m. m\<lparr>ms_Metadata := map_option (AList.update k v) (ms_Metadata m)\<rparr>) b"

definition mb_Build :: "MessageBuilder \<Rightarrow> Message \<times> err option" where
  "mb_Build b = (mb_message b, mb_Error b)"

section \<open>Configuration\<close>

record ClientConfig =
  cl_Host :: string
  cl_Port :: int
  cl_Username :: string
  cl_Password :: string
  cl_From :: string
  cl_FQDN :: string
  cl_Auth :: bool
  cl_AuthMethod :: string
  cl_Encryption :: string
  cl_SkipCertificateVerification :: bool
  cl_Timeout :: duration
  cl_MaxRetries :: int
  cl_RetryDelay :: duration

record ServerConfig =
  sc_Enabled :: bool
  sc_Host :: string
  sc_Port :: int
  sc_Domain :: string
  sc_Auth :: bool
  sc_Username :: string
  sc_Password :: string
  sc_TLS :: bool
  sc_CertFile :: string
  sc_KeyFile :: string
  sc_ReadTimeout :: duration
  sc_WriteTimeout :: duration
  sc_MaxMessageBytes :: int
  sc_MaxRecipients :: int
  sc_AllowInsecureAuth :: bool
  sc_MaxConcurrentHandlers :: int

record QueueConfig =
  qc_Enabled :: bool
  qc_WorkerCount :: int
  qc_QueueName :: string
  qc_Priority :: int
  qc_MaxAttempts :: int
  qc_JobTimeout :: duration

text \<open>\<open>tp_FileSystem\<close>: a file system as its files in the order of a walk, \<open>None\<close> for nil.\<close>

type_synonym file_system = "(string \<times> bytes) list"

record TemplateConfig =
  tp_DefaultTemplate :: string
  tp_AutoReload :: bool
  tp_FileSystem :: "file_system option"
  tp_TemplatesPath :: string

record MailConfig =
  mc_Client :: ClientConfig
  mc_Server :: ServerConfig
  mc_Queue :: QueueConfig
  mc_Templates :: TemplateConfig

definition ml_DefaultConfig :: MailConfig where
  "ml_DefaultConfig = \<lparr>
     mc_Client = \<lparr>cl_Host = ''localhost'', cl_Port = 587, cl_Username = [], cl_Password = [], cl_From = ''noreply@example.com'',
       cl_FQDN = ''localhost'', cl_Auth = False, cl_AuthMethod = ''PLAIN'', cl_Encryption = ''STARTTLS'',
       cl_SkipCertificateVerification = False, cl_Timeout = 30 * second, cl_MaxRetries = 3, cl_RetryDelay = 5 * second\<rparr>,
     mc_Server = \<lparr>sc_Enabled = False, sc_Host = ''localhost'', sc_Port = 2525, sc_Domain = ''localhost'', sc_Auth = False,
       sc_Username = [], sc_Password = [], sc_TLS = False, sc_CertFile = [], sc_KeyFile = [], sc_ReadTimeout = 10 * second,
       sc_WriteTimeout = 10 * second, sc_MaxMessageBytes = 10 * 1024 * 1024, sc_MaxRecipients = 100,
       sc_AllowInsecureAuth = False, sc_MaxConcurrentHandlers = 50\<rparr>,
     mc_Queue = \<lparr>qc_Enabled = True, qc_WorkerCount = 5, qc_QueueName = ''mail'', qc_Priority = 1, qc_MaxAttempts = 3,
       qc_JobTimeout = 60 * second\<rparr>,
     mc_Templates = \<lparr>tp_DefaultTemplate = ''default.html'', tp_AutoReload = True, tp_FileSystem = None, tp_TemplatesPath = []\<rparr>\<rparr>"

text \<open>What the TLS configurations fix: server name, whether certificates are checked, and the least version (TLS 1.2).\<close>

record TLSConfig =
  tls_ServerName :: string
  tls_InsecureSkipVerify :: bool
  tls_MinVersion :: nat

definition cl_TLSConfig :: "ClientConfig \<Rightarrow> TLSConfig" where
  "cl_TLSConfig c = \<lparr>tls_ServerName = cl_Host c, tls_InsecureSkipVerify = cl_SkipCertificateVerification c, tls_MinVersion = 0x0303\<rparr>"

definition sc_TLSConfig :: "ServerConfig \<Rightarrow> TLSConfig" where
  "sc_TLSConfig c = \<lparr>tls_ServerName = [], tls_InsecureSkipVerify = False, tls_MinVersion = 0x0303\<rparr>"

definition cl_Validate :: "ClientConfig \<Rightarrow> err option" where
  "cl_Validate c =
     (if cl_Host c = [] then Some (ml_err ''SMTP host is required'')
      else if cl_Port c \<le> 0 \<or> cl_Port c > 65535 then Some (ml_err ''SMTP port must be between 1 and 65535'')
      else if cl_Auth c \<and> cl_Username c = [] then Some (ml_err ''SMTP username is required'')
      else if cl_Auth c \<and> cl_Password c = [] then Some (ml_err ''SMTP password is required'')
      else if cl_From c = [] then Some (ml_err ''SMTP from address is required'')
      else if cl_FQDN c = [] then Some (ml_err ''SMTP FQDN is required'')
      else None)"

definition sc_Validate :: "ServerConfig \<Rightarrow> err option" where
  "sc_Validate c =
     (if sc_Host c = [] then Some (ml_err ''SMTP server host is required'')
      else if sc_Port c \<le> 0 \<or> sc_Port c > 65535 then Some (ml_err ''SMTP server port must be between 1 and 65535'')
      else if sc_Domain c = [] then Some (ml_err ''SMTP server domain is required'')
      else if sc_TLS c \<and> (sc_CertFile c = [] \<or> sc_KeyFile c = [])
        then Some (ml_err ''TLS is enabled but certificate or key file is missing'')
      else None)"

definition qc_Validate :: "QueueConfig \<Rightarrow> err option" where
  "qc_Validate c =
     (if qc_QueueName c = [] then Some (ml_err ''Queue name is required'')
      else if qc_MaxAttempts c \<le> 0 then Some (ml_err ''Max attempts must be greater than 0'')
      else if qc_JobTimeout c \<le> 0 then Some (ml_err ''Job timeout must be greater than 0'')
      else None)"

definition tp_Validate :: "TemplateConfig \<Rightarrow> err option" where
  "tp_Validate c = (if tp_DefaultTemplate c = [] then Some (ml_err ''Default template is required'') else None)"

definition ml_Validate :: "MailConfig \<Rightarrow> err option" where
  "ml_Validate c =
     (case cl_Validate (mc_Client c) of
        Some e \<Rightarrow> Wrap None (Some e)
      | None \<Rightarrow> (case sc_Validate (mc_Server c) of
        Some e \<Rightarrow> Wrap None (Some e)
      | None \<Rightarrow> (case qc_Validate (mc_Queue c) of
        Some e \<Rightarrow> Wrap None (Some e)
      | None \<Rightarrow> Wrap None (tp_Validate (mc_Templates c)))))"

lemma default_config_valid: "ml_Validate ml_DefaultConfig = None"
  by code_simp

end
