(* ===== verification/MailTemplates.thy ===== *)
theory MailTemplates
  imports MailMessage
begin

text \<open>
  The template manager of \<open>src/mail/template.go\<close>. Parsing and executing templates is \<open>html/template\<close>, an
  argument; the disk is a record of what \<open>os\<close> and \<open>filepath\<close> report. Default template functions are
  defined where the source defines them; title casing and date layouts are the library's.
\<close>

section \<open>State\<close>

datatype template_func = TfAdd | TfSub | TfMul | TfDiv | TfMod | TfUpper | TfLower | TfTitle | TfTrim | TfReplace | TfContains
  | TfHasPrefix | TfHasSuffix | TfJoin | TfSplit | TfDefault | TfDict | TfFormatDate | TfCustom nat

type_synonym func_map = "string \<rightharpoonup> template_func"

record 't TemplateLib =
  tl_parse :: "string \<Rightarrow> func_map \<Rightarrow> bytes \<Rightarrow> 't option"
  tl_exec :: "'t \<Rightarrow> value \<Rightarrow> string option"

text \<open>
  The disk: whether a path exists, the files below a directory in the order of a walk (name relative to it
  and content, \<open>None\<close> if reading fails; \<open>Inl\<close>: the walk reports an error), the cleaned join of a path, and reading.
\<close>

record Disk =
  dk_exists :: "string \<Rightarrow> bool"
  dk_walk :: "string \<Rightarrow> (err + string \<times> bytes option) list"
  dk_join :: "string \<Rightarrow> string \<Rightarrow> string"
  dk_read :: "string \<Rightarrow> bytes option"

record 't TemplateManager =
  tm_config :: TemplateConfig
  tm_templates :: "string \<rightharpoonup> 't"
  tm_funcs :: func_map
  tm_Error :: "err option"

section \<open>Loading\<close>

definition parseTemplate :: "'t TemplateLib \<Rightarrow> string \<Rightarrow> bytes \<Rightarrow> 't TemplateManager \<Rightarrow> err + 't" where
  "parseTemplate lib name content tm =
     (case tl_parse lib name (tm_funcs tm) content of None \<Rightarrow> Inl (ml_err ''failed to parse template'') | Some t \<Rightarrow> Inr t)"

text \<open>The walk: directories and other files are skipped, an error ends it with what was loaded so far.\<close>

fun load_walk ::
    "'t TemplateLib \<Rightarrow> (err + string \<times> bytes option) list \<Rightarrow> 't TemplateManager \<Rightarrow> err option \<times> 't TemplateManager" where
  "load_walk lib [] tm = (None, tm)"
| "load_walk lib (Inl e # es) tm = (Some e, tm)"
| "load_walk lib (Inr (path, content) # es) tm =
     (if \<not> HasSuffix path ''.html'' then load_walk lib es tm
      else case content of
        None \<Rightarrow> (Some (ml_err ''failed to read template file''), tm)
      | Some c \<Rightarrow> (case parseTemplate lib path c tm of
          Inl e \<Rightarrow> (Wrap None (Some e), tm)
        | Inr t \<Rightarrow> load_walk lib es (tm\<lparr>tm_templates := (tm_templates tm)(path \<mapsto> t)\<rparr>)))"

definition loadTemplatesFromFS :: "'t TemplateLib \<Rightarrow> file_system \<Rightarrow> 't TemplateManager \<Rightarrow> err option \<times> 't TemplateManager" where
  "loadTemplatesFromFS lib fs tm =
     (if tm_Error tm \<noteq> None then (tm_Error tm, tm) else load_walk lib (map (\<lambda>(p, c). Inr (p, Some c)) fs) tm)"

definition loadTemplatesFromPath ::
    "'t TemplateLib \<Rightarrow> Disk \<Rightarrow> string \<Rightarrow> 't TemplateManager \<Rightarrow> err option \<times> 't TemplateManager" where
  "loadTemplatesFromPath lib dk path tm =
     (if tm_Error tm \<noteq> None then (tm_Error tm, tm)
      else if \<not> dk_exists dk path then (Some (ml_err ''templates path does not exist''), tm)
      else load_walk lib (dk_walk dk path) tm)"

definition ReloadTemplates :: "'t TemplateLib \<Rightarrow> Disk \<Rightarrow> 't TemplateManager \<Rightarrow> err option \<times> 't TemplateManager" where
  "ReloadTemplates lib dk tm =
     (if tm_Error tm \<noteq> None then (tm_Error tm, tm)
      else
        (let tm0 = tm\<lparr>tm_templates := Map.empty\<rparr>;
             (e1, tm1) = (case tp_FileSystem (tm_config tm0) of None \<Rightarrow> (None, tm0) | Some fs \<Rightarrow> loadTemplatesFromFS lib fs tm0)
         in if e1 \<noteq> None then (Wrap None e1, tm1)
            else if tp_TemplatesPath (tm_config tm1) \<noteq> []
              then (let (e2, tm2) = loadTemplatesFromPath lib dk (tp_TemplatesPath (tm_config tm1)) tm1 in (Wrap None e2, tm2))
            else (None, tm1)))"

definition reload_latching :: "'t TemplateLib \<Rightarrow> Disk \<Rightarrow> 't TemplateManager \<Rightarrow> 't TemplateManager" where
  "reload_latching lib dk tm =
     (let (e, tm1) = ReloadTemplates lib dk tm in if e \<noteq> None then tm1\<lparr>tm_Error := Wrap None e\<rparr> else tm1)"

definition NewTemplateManager :: "'t TemplateLib \<Rightarrow> Disk \<Rightarrow> TemplateConfig \<Rightarrow> 't TemplateManager" where
  "NewTemplateManager lib dk cfg =
     (let tm = \<lparr>tm_config = cfg, tm_templates = Map.empty, tm_funcs = Map.empty, tm_Error = None\<rparr>
      in if tp_FileSystem cfg \<noteq> None \<or> tp_TemplatesPath cfg \<noteq> [] then reload_latching lib dk tm else tm)"

definition tm_WithFS :: "'t TemplateLib \<Rightarrow> Disk \<Rightarrow> file_system option \<Rightarrow> 't TemplateManager \<Rightarrow> 't TemplateManager" where
  "tm_WithFS lib dk fs tm =
     (if tm_Error tm \<noteq> None then tm
      else reload_latching lib dk (tm\<lparr>tm_config := (tm_config tm)\<lparr>tp_FileSystem := fs, tp_TemplatesPath := []\<rparr>\<rparr>))"

definition tm_WithFileServer :: "'t TemplateLib \<Rightarrow> Disk \<Rightarrow> string \<Rightarrow> 't TemplateManager \<Rightarrow> 't TemplateManager" where
  "tm_WithFileServer lib dk path tm =
     (if tm_Error tm \<noteq> None then tm
      else if path \<noteq> [] \<and> \<not> dk_exists dk path then tm\<lparr>tm_Error := Some (ml_err ''templates path does not exist'')\<rparr>
      else reload_latching lib dk (tm\<lparr>tm_config := (tm_config tm)\<lparr>tp_TemplatesPath := path, tp_FileSystem := None\<rparr>\<rparr>))"

definition WithTemplateFunc :: "string \<Rightarrow> template_func \<Rightarrow> 't TemplateManager \<Rightarrow> 't TemplateManager" where
  "WithTemplateFunc key fn tm =
     (if tm_Error tm \<noteq> None then tm
      else if tm_funcs tm key \<noteq> None then tm\<lparr>tm_Error := Some (ml_err ''template function already exists'')\<rparr>
      else tm\<lparr>tm_funcs := (tm_funcs tm)(key \<mapsto> fn)\<rparr>)"

definition template_source :: "Disk \<Rightarrow> string \<Rightarrow> TemplateConfig \<Rightarrow> err + bytes" where
  "template_source dk name cfg =
     (case tp_FileSystem cfg of
        Some fs \<Rightarrow> (case map_of fs name of None \<Rightarrow> Inl (ml_err ''template not found in filesystem'') | Some c \<Rightarrow> Inr c)
      | None \<Rightarrow>
          if tp_TemplatesPath cfg \<noteq> [] then
            (let p = dk_join dk (tp_TemplatesPath cfg) name in
             if dk_exists dk p then
               (case dk_read dk p of None \<Rightarrow> Inl (ml_err ''failed to read template file'') | Some c \<Rightarrow> Inr c)
             else Inl (ml_err ''template not found in templates path''))
          else Inl (ml_err ''no template source configured - use WithFS or WithFileServer''))"

definition loadTemplateFromDisk ::
    "'t TemplateLib \<Rightarrow> Disk \<Rightarrow> string \<Rightarrow> 't TemplateManager \<Rightarrow> (err + 't) \<times> 't TemplateManager" where
  "loadTemplateFromDisk lib dk name tm =
     (case tm_Error tm of
        Some e \<Rightarrow> (Inl e, tm)
      | None \<Rightarrow> (case template_source dk name (tm_config tm) of
          Inl e \<Rightarrow> (Inl e, tm)
        | Inr c \<Rightarrow> (case parseTemplate lib name c tm of
            Inl e \<Rightarrow> (Inl e, tm)
          | Inr t \<Rightarrow> (Inr t, tm\<lparr>tm_templates := (tm_templates tm)(name \<mapsto> t)\<rparr>))))"

definition LoadTemplate :: "'t TemplateLib \<Rightarrow> Disk \<Rightarrow> string \<Rightarrow> 't TemplateManager \<Rightarrow> (err + 't) \<times> 't TemplateManager" where
  "LoadTemplate lib dk name tm =
     (case tm_Error tm of
        Some e \<Rightarrow> (Inl e, tm)
      | None \<Rightarrow> (case tm_templates tm name of Some t \<Rightarrow> (Inr t, tm) | None \<Rightarrow> loadTemplateFromDisk lib dk name tm))"

definition RenderTemplate ::
    "'t TemplateLib \<Rightarrow> Disk \<Rightarrow> string \<Rightarrow> value \<Rightarrow> 't TemplateManager \<Rightarrow> (err + string) \<times> 't TemplateManager" where
  "RenderTemplate lib dk name data tm =
     (case tm_Error tm of
        Some e \<Rightarrow> (Inl e, tm)
      | None \<Rightarrow> (case LoadTemplate lib dk name tm of
          (Inl e, tm1) \<Rightarrow> (Inl e, tm1)
        | (Inr t, tm1) \<Rightarrow> (case tl_exec lib t data of
            None \<Rightarrow> (Inl (ml_err ''failed to execute template''), tm1)
          | Some s \<Rightarrow> (Inr s, tm1))))"

section \<open>Default functions\<close>

text \<open>Go's division truncates toward zero; the least number divided by -1 wraps.\<close>

definition go_quot :: "int \<Rightarrow> int \<Rightarrow> int" where
  "go_quot a b = sgn a * sgn b * (\<bar>a\<bar> div \<bar>b\<bar>)"

definition go_rem :: "int \<Rightarrow> int \<Rightarrow> int" where
  "go_rem a b = sgn a * (\<bar>a\<bar> mod \<bar>b\<bar>)"

definition tf_add :: "int \<Rightarrow> int \<Rightarrow> int" where "tf_add a b = wrap64 (a + b)"
definition tf_sub :: "int \<Rightarrow> int \<Rightarrow> int" where "tf_sub a b = wrap64 (a - b)"
definition tf_mul :: "int \<Rightarrow> int \<Rightarrow> int" where "tf_mul a b = wrap64 (a * b)"
definition tf_div :: "int \<Rightarrow> int \<Rightarrow> int" where "tf_div a b = (if b = 0 then 0 else wrap64 (go_quot a b))"
definition tf_mod :: "int \<Rightarrow> int \<Rightarrow> int" where "tf_mod a b = (if b = 0 then 0 else go_rem a b)"

definition tf_replace :: "string \<Rightarrow> string \<Rightarrow> string \<Rightarrow> string" where "tf_replace old new s = ReplaceAll s old new"
definition tf_join :: "string \<Rightarrow> string list \<Rightarrow> string" where "tf_join sep elems = Join elems sep"
definition tf_split :: "string \<Rightarrow> string \<Rightarrow> string list" where "tf_split sep s = Split s sep"

definition tf_default :: "value \<Rightarrow> value \<Rightarrow> value" where
  "tf_default d v = (if v = VNil \<or> v = VString [] then d else v)"

text \<open>\<open>None\<close> is the nil map that an odd number of arguments gives.\<close>

fun dict_loop :: "value list \<Rightarrow> (string \<times> value) list \<Rightarrow> (string \<times> value) list" where
  "dict_loop (k # v # rest) acc = dict_loop rest (case k of VString s \<Rightarrow> AList.update s v acc | _ \<Rightarrow> acc)"
| "dict_loop _ acc = acc"

definition tf_dict :: "value list \<Rightarrow> (string \<times> value) list option" where
  "tf_dict vs = (if length vs mod 2 \<noteq> 0 then None else Some (dict_loop vs []))"

text \<open>What \<open>formatDate\<close> gets: a time, a pointer to one (possibly nil), a text, or anything else with its \<open>%v\<close> text.\<close>

datatype date_arg = DTime time | DPtr "time option" | DText string | DOther string

fun tf_formatDate :: "(string \<Rightarrow> time \<Rightarrow> string) \<Rightarrow> (string \<Rightarrow> time option) \<Rightarrow> string \<Rightarrow> date_arg \<Rightarrow> string" where
  "tf_formatDate fmt parse layout (DTime t) = fmt (if layout = [] then ''2006-01-02 15:04:05'' else layout) t"
| "tf_formatDate fmt parse layout (DPtr None) = []"
| "tf_formatDate fmt parse layout (DPtr (Some t)) = fmt (if layout = [] then ''2006-01-02 15:04:05'' else layout) t"
| "tf_formatDate fmt parse layout (DText s) =
     (case parse s of None \<Rightarrow> s | Some t \<Rightarrow> fmt (if layout = [] then ''2006-01-02 15:04:05'' else layout) t)"
| "tf_formatDate fmt parse layout (DOther s) = s"

definition default_funcs :: "(string \<times> template_func) list" where
  "default_funcs = [(''add'', TfAdd), (''sub'', TfSub), (''mul'', TfMul), (''div'', TfDiv), (''mod'', TfMod),
     (''upper'', TfUpper), (''lower'', TfLower), (''title'', TfTitle), (''trim'', TfTrim), (''replace'', TfReplace),
     (''contains'', TfContains), (''hasPrefix'', TfHasPrefix), (''hasSuffix'', TfHasSuffix), (''join'', TfJoin),
     (''split'', TfSplit), (''default'', TfDefault), (''dict'', TfDict), (''formatDate'', TfFormatDate)]"

definition WithDefaultFuncs :: "'t TemplateManager \<Rightarrow> 't TemplateManager" where
  "WithDefaultFuncs tm =
     (if tm_Error tm \<noteq> None then tm
      else tm\<lparr>tm_funcs := fold (\<lambda>(k, fn) fm. if fm k = None then fm(k \<mapsto> fn) else fm) default_funcs (tm_funcs tm)\<rparr>)"

section \<open>Lemmas\<close>

lemma WithDefaultFuncs_keeps_custom: "tm_funcs tm k = Some f \<Longrightarrow> tm_funcs (WithDefaultFuncs tm) k = Some f"
proof -
  have "fm k = Some f \<Longrightarrow> fold (\<lambda>(k, fn) fm. if fm k = None then fm(k \<mapsto> fn) else fm) kfs fm k = Some f" for kfs fm
  proof (induction kfs arbitrary: fm)
    case (Cons x kfs)
    then have "(if fm (fst x) = None then fm(fst x \<mapsto> snd x) else fm) k = Some f" by auto
    from Cons.IH [of "if fm (fst x) = None then fm(fst x \<mapsto> snd x) else fm", OF this]
    show ?case by (simp add: case_prod_beta)
  qed simp
  then show "tm_funcs tm k = Some f \<Longrightarrow> ?thesis" by (simp add: WithDefaultFuncs_def)
qed

text \<open>Every loaded template is the parse of a file of the source, under its own name.\<close>

definition parsed_from :: "'t TemplateLib \<Rightarrow> (string \<times> bytes) list \<Rightarrow> 't TemplateManager \<Rightarrow> bool" where
  "parsed_from lib files tm \<longleftrightarrow>
     (\<forall>n t. tm_templates tm n = Some t \<longrightarrow> (\<exists>c. (n, c) \<in> set files \<and> tl_parse lib n (tm_funcs tm) c = Some t))"

lemma load_walk_parsed:
  assumes "load_walk lib es tm = (e, tm1)" "parsed_from lib files tm" "\<And>p c. Inr (p, Some c) \<in> set es \<Longrightarrow> (p, c) \<in> set files"
  shows "parsed_from lib files tm1 \<and> tm_funcs tm1 = tm_funcs tm \<and> tm_config tm1 = tm_config tm \<and> tm_Error tm1 = tm_Error tm"
  using assms
proof (induction lib es tm rule: load_walk.induct)
  case (3 lib path content es tm)
  have skip: ?case if "\<not> HasSuffix path ''.html''" using 3 that by simp
  have take: ?case if h: "HasSuffix path ''.html''" and c: "content = Some c" and t: "parseTemplate lib path c tm = Inr t" for c t
  proof -
    let ?tm = "tm\<lparr>tm_templates := (tm_templates tm)(path \<mapsto> t)\<rparr>"
    have "tl_parse lib path (tm_funcs tm) c = Some t" using t by (simp add: parseTemplate_def split: option.splits)
    moreover have "(path, c) \<in> set files" using 3(5) c by simp
    ultimately have "parsed_from lib files ?tm" using 3(4) by (auto simp: parsed_from_def)
    then show ?thesis using 3(2) [OF _ c t] 3(3,5) h c t by simp
  qed
  show ?case
  proof (cases "HasSuffix path ''.html''")
    case True
    then show ?thesis
      using take 3(3,4) by (cases content; cases "parseTemplate lib path (the content) tm") auto
  qed (rule skip)
qed auto

end
