(* ===== verification/MailSender.thy ===== *)
theory MailSender
  imports MailTemplates
begin

text \<open>
  The SMTP sender of \<open>src/mail/sender.go\<close>: validation, the translation of a message into an e-mail of
  \<open>jordan-wright/email\<close>, the choice of encryption and authentication, and the retry loop. Delivering an
  e-mail is an argument that acts on the state of the network; so is what attaching a file reports.
\<close>

section \<open>E-mails\<close>

record EmailAttachment =
  ea_Content :: bytes
  ea_Filename :: string
  ea_ContentType :: string
  ea_Headers :: "(string \<times> string) list"

record Email =
  em_From :: string
  em_To :: "string list"
  em_Cc :: "string list"
  em_Bcc :: "string list"
  em_ReplyTo :: "string list"
  em_Subject :: string
  em_Text :: bytes
  em_HTML :: bytes
  em_Headers :: "string \<rightharpoonup> string list"
  em_Attachments :: "EmailAttachment list"

definition NewEmail :: Email where
  "NewEmail = \<lparr>em_From = [], em_To = [], em_Cc = [], em_Bcc = [], em_ReplyTo = [], em_Subject = [], em_Text = [],
     em_HTML = [], em_Headers = Map.empty, em_Attachments = []\<rparr>"

datatype smtp_auth = NoAuth | CRAMMD5Auth string string | LoginAuth string string | PlainAuth string string string string

datatype encryption = EncTLS TLSConfig | EncStartTLS TLSConfig | EncNone

text \<open>What the sender calls: delivery, and the error \<open>Attach\<close> returns for a content, name and type.\<close>

record 'n MailNet =
  net_deliver :: "encryption \<Rightarrow> string \<Rightarrow> smtp_auth \<Rightarrow> Email \<Rightarrow> 'n \<Rightarrow> err option \<times> 'n"
  net_attach :: "bytes \<Rightarrow> string \<Rightarrow> string \<Rightarrow> err option"

section \<open>Preparation\<close>

definition validateMessage :: "ClientConfig \<Rightarrow> Message \<Rightarrow> err option" where
  "validateMessage cfg m =
     (if ms_From m = [] \<and> cl_From cfg = [] then Some (ml_err ''from address is required'')
      else if ms_To m = [] then Some (ml_err ''at least one recipient is required'')
      else if ms_Subject m = [] then Some (ml_err ''subject is required'')
      else if ms_TextBody m = [] \<and> ms_HTMLBody m = [] \<and> ms_Template m = [] then Some (ml_err ''message body or template is required'')
      else None)"

text \<open>The message is a pointer: rendering changes its HTML body, and may fill the template cache.\<close>

definition processTemplate ::
    "'t TemplateLib \<Rightarrow> Disk \<Rightarrow> Message \<Rightarrow> 't TemplateManager \<Rightarrow> err option \<times> Message \<times> 't TemplateManager" where
  "processTemplate lib dk m tm =
     (if ms_Template m = [] then (None, m, tm)
      else case RenderTemplate lib dk (ms_Template m) (ms_TemplateData m) tm of
        (Inl e, tm1) \<Rightarrow> (Wrap None (Some e), m, tm1)
      | (Inr html, tm1) \<Rightarrow> (None, m\<lparr>ms_HTMLBody := html\<rparr>, tm1))"

definition getPriorityHeader :: "int \<Rightarrow> string" where
  "getPriorityHeader p =
     (if p = ml_PriorityCritical then ''1 (Highest)'' else if p = ml_PriorityHigh then ''2 (High)''
      else if p = ml_PriorityNormal then ''3 (Normal)'' else if p = ml_PriorityLow then ''4 (Low)'' else ''3 (Normal)'')"

definition addAttachment :: "'n MailNet \<Rightarrow> Attachment \<Rightarrow> Email \<Rightarrow> err option \<times> Email" where
  "addAttachment net a em =
     (case (at_Content a, at_Reader a) of
        (None, None) \<Rightarrow> (Some (ml_err ''attachment has no content or reader''), em)
      | (content, reader) \<Rightarrow>
          (let c = (case content of Some c \<Rightarrow> c | None \<Rightarrow> the reader) in
           case net_attach net c (at_Filename a) (at_ContentType a) of
             Some e \<Rightarrow> (Some e, em)
           | None \<Rightarrow>
               (let hs = (if at_Inline a \<and> at_ContentID a \<noteq> []
                          then [(''Content-ID'', ''<'' @ at_ContentID a @ ''>''),
                                (''Content-Disposition'', ''inline; filename='' @ [CHR 0x22] @ at_Filename a @ [CHR 0x22])]
                          else [])
                in (None, em\<lparr>em_Attachments := em_Attachments em @
                       [\<lparr>ea_Content = c, ea_Filename = at_Filename a, ea_ContentType = at_ContentType a, ea_Headers = hs\<rparr>]\<rparr>))))"

fun add_attachments :: "'n MailNet \<Rightarrow> Attachment list \<Rightarrow> Email \<Rightarrow> err + Email" where
  "add_attachments net [] em = Inr em"
| "add_attachments net (a # as) em =
     (case addAttachment net a em of (Some e, _) \<Rightarrow> Inl e | (None, em1) \<Rightarrow> add_attachments net as em1)"

definition email_headers :: "ClientConfig \<Rightarrow> Message \<Rightarrow> string \<rightharpoonup> string list" where
  "email_headers cfg m =
     (let h0 = Map.empty;
          h1 = (if ms_ID m \<noteq> [] then h0(''Message-ID'' \<mapsto> [''<'' @ ms_ID m @ ''@'' @ cl_Host cfg @ ''>'']) else h0);
          h2 = (if ms_Priority m \<noteq> ml_PriorityNormal then h1(''X-Priority'' \<mapsto> [getPriorityHeader (ms_Priority m)]) else h1)
      in fold (\<lambda>(k, v) h. h(k \<mapsto> [v])) (case ms_Headers m of None \<Rightarrow> [] | Some kvs \<Rightarrow> kvs) h2)"

definition createEmail :: "'n MailNet \<Rightarrow> ClientConfig \<Rightarrow> Message \<Rightarrow> err + Email" where
  "createEmail net cfg m =
     (let em = NewEmail\<lparr>em_From := (if ms_From m = [] then cl_From cfg else ms_From m),
            em_To := ms_To m, em_Cc := ms_CC m, em_Bcc := ms_BCC m,
            em_ReplyTo := (if ms_ReplyTo m \<noteq> [] then [ms_ReplyTo m] else []),
            em_Subject := ms_Subject m, em_Text := ms_TextBody m, em_HTML := ms_HTMLBody m,
            em_Headers := email_headers cfg m\<rparr>
      in add_attachments net (ms_Attachments m) em)"

section \<open>Delivery\<close>

definition createAuth :: "ClientConfig \<Rightarrow> smtp_auth" where
  "createAuth cfg =
     (let am = ToUpper (cl_AuthMethod cfg) in
      if am = ''CRAMMD5'' then CRAMMD5Auth (cl_Username cfg) (cl_Password cfg)
      else if am = ''LOGIN'' then LoginAuth (cl_Username cfg) (cl_Password cfg)
      else PlainAuth [] (cl_Username cfg) (cl_Password cfg) (cl_Host cfg))"

definition sendEmail :: "'n MailNet \<Rightarrow> ClientConfig \<Rightarrow> Email \<Rightarrow> 'n \<Rightarrow> err option \<times> 'n" where
  "sendEmail net cfg em n =
     (let auth = (if cl_Auth cfg then createAuth cfg else NoAuth);
          addr = cl_Host cfg @ '':'' @ Itoa (cl_Port cfg);
          enc = ToUpper (cl_Encryption cfg)
      in if enc = ''TLS'' then net_deliver net (EncTLS (cl_TLSConfig cfg)) addr auth em n
         else if enc = ''STARTTLS'' then net_deliver net (EncStartTLS (cl_TLSConfig cfg)) addr auth em n
         else net_deliver net EncNone addr auth em n)"

datatype send_error = Failed err | CtxErr

definition retries_exhausted :: "err option \<Rightarrow> err" where
  "retries_exhausted e = AddError e (ml_err ''failed to send email after retries'')"

text \<open>The retry loop from an attempt on; \<open>last\<close> is the variable \<open>err\<close>, \<open>done i\<close> whether the context is done in the wait before attempt \<open>i\<close>.\<close>

function send_loop ::
    "'n MailNet \<Rightarrow> ClientConfig \<Rightarrow> (int \<Rightarrow> bool) \<Rightarrow> Email \<Rightarrow> int \<Rightarrow> err option \<Rightarrow> 'n \<Rightarrow> send_error option \<times> 'n" where
  "send_loop net cfg done em attempt last_err n =
     (if attempt > cl_MaxRetries cfg then (Some (Failed (retries_exhausted last_err)), n)
      else if attempt > 0 \<and> done attempt then (Some CtxErr, n)
      else case sendEmail net cfg em n of
        (None, n1) \<Rightarrow> (None, n1)
      | (Some e, n1) \<Rightarrow>
          if attempt = cl_MaxRetries cfg then (Some (Failed (retries_exhausted (Some e))), n1)
          else send_loop net cfg done em (attempt + 1) (Some e) n1)"
  by pat_completeness auto
termination
  by (relation "measure (\<lambda>(net, cfg, done, em, attempt, last_err, n). nat (cl_MaxRetries cfg + 1 - attempt))") auto

declare send_loop.simps [simp del]

definition sd_Send ::
    "'t TemplateLib \<Rightarrow> Disk \<Rightarrow> 'n MailNet \<Rightarrow> ClientConfig \<Rightarrow> (int \<Rightarrow> bool) \<Rightarrow> Message \<Rightarrow> 't TemplateManager \<Rightarrow> 'n \<Rightarrow>
     send_error option \<times> Message \<times> 't TemplateManager \<times> 'n" where
  "sd_Send lib dk net cfg done m tm n =
     (case validateMessage cfg m of
        Some e \<Rightarrow> (map_option Failed (Wrap None (Some e)), m, tm, n)
      | None \<Rightarrow> (case processTemplate lib dk m tm of
          (Some e, m1, tm1) \<Rightarrow> (map_option Failed (Wrap None (Some e)), m1, tm1, n)
        | (None, m1, tm1) \<Rightarrow> (case createEmail net cfg m1 of
            Inl e \<Rightarrow> (map_option Failed (Wrap None (Some e)), m1, tm1, n)
          | Inr em \<Rightarrow> (let (r, n1) = send_loop net cfg done em 0 None n in (r, m1, tm1, n1)))))"

definition sd_SendAsync :: err where
  "sd_SendAsync = ml_err ''async sending not supported by SMTP sender directly''"

section \<open>LOGIN authentication\<close>

definition login_Start :: "string \<Rightarrow> string \<times> bytes" where
  "login_Start username = (''LOGIN'', username)"

definition login_Next :: "string \<Rightarrow> string \<Rightarrow> bytes \<Rightarrow> bool \<Rightarrow> err + bytes option" where
  "login_Next username password fromServer again =
     (if again then
        if fromServer = ''Username:'' \<or> fromServer = ''VXNlcm5hbWU6'' then Inr (Some username)
        else if fromServer = ''Password:'' \<or> fromServer = ''UGFzc3dvcmQ6'' then Inr (Some password)
        else Inl (ml_err (''unexpected server challenge: '' @ fromServer))
      else Inr None)"

section \<open>The retry loop\<close>

text \<open>
  \<open>failing net cfg em n k n'\<close>: the next \<open>k\<close> deliveries fail and lead from \<open>n\<close> to \<open>n'\<close>.
\<close>

fun failing :: "'n MailNet \<Rightarrow> ClientConfig \<Rightarrow> Email \<Rightarrow> nat \<Rightarrow> 'n \<Rightarrow> 'n option" where
  "failing net cfg em 0 n = Some n"
| "failing net cfg em (Suc k) n =
     (case sendEmail net cfg em n of (None, _) \<Rightarrow> None | (Some e, n1) \<Rightarrow> failing net cfg em k n1)"

lemma send_loop_failing:
  assumes "failing net cfg em k n = Some n1" "attempt + int k \<le> cl_MaxRetries cfg" "\<And>i. \<not> done i"
  shows "\<exists>l. send_loop net cfg done em attempt last_err n = send_loop net cfg done em (attempt + int k) l n1"
  using assms
proof (induction k arbitrary: attempt last_err n)
  case 0
  then show ?case by auto
next
  case (Suc k)
  obtain e n2 where s: "sendEmail net cfg em n = (Some e, n2)" "failing net cfg em k n2 = Some n1"
    using Suc.prems(1) by (auto split: prod.splits option.splits)
  have "send_loop net cfg done em attempt last_err n = send_loop net cfg done em (attempt + 1) (Some e) n2"
    using Suc.prems s(1) by (simp add: send_loop.simps [of net cfg "done" em attempt])
  moreover obtain l where "send_loop net cfg done em (attempt + 1) (Some e) n2 = send_loop net cfg done em (attempt + 1 + int k) l n1"
    using Suc.IH [OF s(2) _ Suc.prems(3), of "attempt + 1" "Some e"] Suc.prems(2) by (metis add.assoc of_nat_Suc)
  ultimately show ?case by (metis add.assoc of_nat_Suc add.commute)
qed

text \<open>
  C28: With a context that is not cancelled, \<open>Send\<close>'s retry loop ends at the first delivery that succeeds
  after at most \<open>MaxRetries\<close> failures, with success; and if all \<open>MaxRetries + 1\<close> deliveries fail it ends
  with an error, after exactly that many deliveries.
\<close>

theorem send_attempts:
  assumes "\<And>i. \<not> done i" "0 \<le> cl_MaxRetries cfg"
  shows "(int k \<le> cl_MaxRetries cfg \<longrightarrow> failing net cfg em k n = Some n1 \<longrightarrow> sendEmail net cfg em n1 = (None, n2)
            \<longrightarrow> send_loop net cfg done em 0 None n = (None, n2))
    \<and> (failing net cfg em (Suc (nat (cl_MaxRetries cfg))) n = Some n3
         \<longrightarrow> (\<exists>e. send_loop net cfg done em 0 None n = (Some (Failed (retries_exhausted (Some e))), n3)))"
proof (intro conjI impI)
  assume k: "int k \<le> cl_MaxRetries cfg" "failing net cfg em k n = Some n1" "sendEmail net cfg em n1 = (None, n2)"
  obtain l where "send_loop net cfg done em 0 None n = send_loop net cfg done em (int k) l n1"
    using send_loop_failing [OF k(2), of 0 "done" None] k(1) assms(1) by auto
  then show "send_loop net cfg done em 0 None n = (None, n2)"
    using k assms(1) by (simp add: send_loop.simps [of net cfg "done" em "int k"])
next
  let ?m = "nat (cl_MaxRetries cfg)"
  assume "failing net cfg em (Suc ?m) n = Some n3"
  moreover have "failing net cfg em (Suc j) n = Some n3 \<Longrightarrow>
      \<exists>n1 e. failing net cfg em j n = Some n1 \<and> sendEmail net cfg em n1 = (Some e, n3)" for j n
    by (induction j arbitrary: n) (auto split: prod.splits option.splits)
  ultimately obtain n1 e where f: "failing net cfg em ?m n = Some n1" "sendEmail net cfg em n1 = (Some e, n3)" by blast
  obtain l where "send_loop net cfg done em 0 None n = send_loop net cfg done em (int ?m) l n1"
    using send_loop_failing [OF f(1), of 0 "done" None] assms by auto
  then show "\<exists>e. send_loop net cfg done em 0 None n = (Some (Failed (retries_exhausted (Some e))), n3)"
    using f(2) assms send_loop.simps [of net cfg "done" em "int ?m" l n1] by auto
qed

text \<open>
  With a negative number of retries nothing is delivered, and the error returned has a nil inside: its
  text cannot be printed outside debug mode.
\<close>

lemma negative_retries_error_panics:
  assumes "cl_MaxRetries cfg < 0" "\<not> ac_Debug acfg"
  shows "\<exists>e. send_loop net cfg done em 0 None n = (Some (Failed e), n) \<and> err_Error acfg h e = None"
  using assms err_Error_None_iff(1) [OF assms(2)]
  by (simp add: send_loop.simps [of net cfg "done" em 0] retries_exhausted_def ml_err_def NewError_def)

section \<open>Witness\<close>

definition wit_net :: "nat MailNet" where
  "wit_net = \<lparr>net_deliver = (\<lambda>enc addr auth em n. (if n < 2 then Some (ml_err ''refused'') else None, n + 1)),
     net_attach = (\<lambda>c f t. None)\<rparr>"

definition wit_client :: ClientConfig where
  "wit_client = mc_Client ml_DefaultConfig"

theorem send_attempts_witness: "send_loop wit_net wit_client (\<lambda>_. False) NewEmail 0 None 0 = (None, 3)"
proof -
  have m: "cl_MaxRetries wit_client = 3" by (simp add: wit_client_def ml_DefaultConfig_def)
  have "sendEmail wit_net wit_client NewEmail n = (if n < 2 then Some (ml_err ''refused'') else None, n + 1)" for n
    by (simp add: sendEmail_def wit_net_def Let_def)
  then have "failing wit_net wit_client NewEmail 2 0 = Some 2" "sendEmail wit_net wit_client NewEmail 2 = (None, 3)"
    by (simp_all add: numeral_2_eq_2)
  with send_attempts [of "\<lambda>_. False" wit_client 2 wit_net NewEmail 0 2 3] show ?thesis by (simp add: m)
qed

end
