(* ===== verification/MailServer.thy ===== *)
theory MailServer
  imports MailMessage "HOL-Library.Multiset"
begin

text \<open>
  The SMTP server of \<open>src/mail/server.go\<close>: sessions with their authentication, the hand-over of received
  mail to the notification handlers through a bounded queue and a pool of workers, start and stop. The
  protocol engine (\<open>go-smtp\<close>) is the environment that calls the session methods; sessions and workers
  interleave as the steps of a transition system. Certificates are in \<open>MailCertificate\<close>.
\<close>

section \<open>State\<close>

record smtpSession =
  ss_authenticated :: bool
  ss_from :: string
  ss_to :: "string list"

text \<open>A task: the handler (by its position), and what it is given.\<close>

record handlerTask =
  ht_handler :: nat
  ht_from :: string
  ht_to :: "string list"
  ht_data :: bytes

text \<open>
  The server. \<open>sm_pending\<close> holds the tasks that the \<open>Data\<close> calls in progress have yet to queue, with
  their session. \<open>sm_attempts\<close>, \<open>sm_accepted\<close>, \<open>sm_created\<close>, \<open>sm_handled\<close> and \<open>sm_dropped\<close> record what
  happened: authentication attempts, mail accepted from a session, the tasks made for it, run by a worker,
  or given up.
\<close>

record smtpServer =
  sm_config :: ServerConfig
  sm_handlers :: nat
  sm_running :: bool
  sm_queue :: "handlerTask list"
  sm_cancelled :: bool
  sm_workers :: nat
  sm_received :: nat
  sm_sessions :: "nat \<rightharpoonup> smtpSession"
  sm_pending :: "(nat \<times> handlerTask) list"
  sm_attempts :: "(nat \<times> string \<times> string) list"
  sm_accepted :: "(nat \<times> string \<times> string list \<times> bytes) list"
  sm_created :: "handlerTask list"
  sm_handled :: "handlerTask list"
  sm_dropped :: "handlerTask list"

definition NewSMTPServer :: "ServerConfig \<Rightarrow> smtpServer" where
  "NewSMTPServer config =
     (let cfg = (if sc_MaxConcurrentHandlers config \<le> 0 then config\<lparr>sc_MaxConcurrentHandlers := 50\<rparr> else config)
      in \<lparr>sm_config = cfg, sm_handlers = 0, sm_running = False, sm_queue = [], sm_cancelled = False,
          sm_workers = nat (sc_MaxConcurrentHandlers cfg), sm_received = 0, sm_sessions = Map.empty, sm_pending = [],
          sm_attempts = [], sm_accepted = [], sm_created = [], sm_handled = [], sm_dropped = []\<rparr>)"

definition queue_cap :: "smtpServer \<Rightarrow> nat" where
  "queue_cap s = nat (sc_MaxConcurrentHandlers (sm_config s) * 2)"

definition sm_AddHandler :: "smtpServer \<Rightarrow> smtpServer" where
  "sm_AddHandler s = s\<lparr>sm_handlers := sm_handlers s + 1\<rparr>"

definition sm_IsRunning :: "smtpServer \<Rightarrow> bool" where
  "sm_IsRunning s = sm_running s"

section \<open>Start and stop\<close>

text \<open>The attempts to connect: the results of dialling, and whether the server still runs then.\<close>

definition maxAttempts :: nat where "maxAttempts = 10"

fun ready_loop :: "(bool \<times> bool) list \<Rightarrow> err option" where
  "ready_loop [] = Some (ml_err ''timeout waiting for server to become ready'')"
| "ready_loop ((dial, running) # rest) =
     (if dial then None
      else if \<not> running then Some (ml_err ''server stopped before becoming ready'')
      else ready_loop rest)"

text \<open>
  \<open>tls_ok\<close>: whether a TLS configuration can be had; \<open>listen\<close>: the error with which listening failed before
  any connection attempt ended, if so; \<open>probes\<close>: the connection attempts.
\<close>

definition sm_Start :: "bool \<Rightarrow> err option \<Rightarrow> (bool \<times> bool) list \<Rightarrow> smtpServer \<Rightarrow> err option \<times> smtpServer" where
  "sm_Start tls_ok listen probes s =
     (if sm_running s then (Some (ml_err ''SMTP server is already running''), s)
      else if sc_TLS (sm_config s) \<and> \<not> tls_ok then (Wrap None (Some (ml_err ''TLS'')), s\<lparr>sm_running := False\<rparr>)
      else case listen of
        Some e \<Rightarrow> (Some e, s\<lparr>sm_running := False\<rparr>)
      | None \<Rightarrow> (ready_loop (take maxAttempts probes), s\<lparr>sm_running := True\<rparr>))"

text \<open>\<open>close_err\<close>: what closing the listener reports; \<open>in_time\<close>: whether the workers end before the context.\<close>

definition sm_Stop :: "err option \<Rightarrow> bool \<Rightarrow> smtpServer \<Rightarrow> err option \<times> smtpServer" where
  "sm_Stop close_err in_time s =
     (if \<not> sm_running s then (Some (ml_err ''SMTP server is not running''), s)
      else
        (let s1 = s\<lparr>sm_running := False, sm_cancelled := True\<rparr> in
         case close_err of
           Some e \<Rightarrow> (Wrap None (Some e), s1)
         | None \<Rightarrow> if in_time then (None, s1\<lparr>sm_workers := 0\<rparr>) else (Some (Plain ''context deadline exceeded''), s1)))"

section \<open>Sessions\<close>

datatype smtp_reply = Ok | ErrAuthUnsupported | ErrAuthFailed | ErrAuthRequired | ErrRead

definition NewSession :: smtpSession where
  "NewSession = \<lparr>ss_authenticated = False, ss_from = [], ss_to = []\<rparr>"

definition AuthPlain :: "ServerConfig \<Rightarrow> string \<Rightarrow> string \<Rightarrow> smtpSession \<Rightarrow> smtp_reply \<times> smtpSession" where
  "AuthPlain cfg username password ss =
     (if \<not> sc_Auth cfg then (ErrAuthUnsupported, ss)
      else if username = sc_Username cfg \<and> password = sc_Password cfg then (Ok, ss\<lparr>ss_authenticated := True\<rparr>)
      else (ErrAuthFailed, ss))"

definition ss_Mail :: "ServerConfig \<Rightarrow> string \<Rightarrow> smtpSession \<Rightarrow> smtp_reply \<times> smtpSession" where
  "ss_Mail cfg sender ss =
     (if sc_Auth cfg \<and> \<not> ss_authenticated ss then (ErrAuthRequired, ss) else (Ok, ss\<lparr>ss_from := sender\<rparr>))"

definition ss_Rcpt :: "ServerConfig \<Rightarrow> string \<Rightarrow> smtpSession \<Rightarrow> smtp_reply \<times> smtpSession" where
  "ss_Rcpt cfg to ss =
     (if sc_Auth cfg \<and> \<not> ss_authenticated ss then (ErrAuthRequired, ss) else (Ok, ss\<lparr>ss_to := ss_to ss @ [to]\<rparr>))"

definition ss_Reset :: "smtpSession \<Rightarrow> smtpSession" where
  "ss_Reset ss = ss\<lparr>ss_from := [], ss_to := []\<rparr>"

definition ss_Logout :: "smtpSession \<Rightarrow> smtpSession" where
  "ss_Logout ss = ss"

text \<open>The tasks \<open>notifyHandlers\<close> makes: one for each handler, in their order.\<close>

definition notify_tasks :: "nat \<Rightarrow> string \<Rightarrow> string list \<Rightarrow> bytes \<Rightarrow> handlerTask list" where
  "notify_tasks n sender to data = map (\<lambda>i. \<lparr>ht_handler = i, ht_from = sender, ht_to = to, ht_data = data\<rparr>) [0..<n]"

text \<open>\<open>Data\<close> up to the first wait in \<open>notifyHandlers\<close>; \<open>None\<close>: reading the message failed.\<close>

definition ss_Data :: "nat \<Rightarrow> bytes option \<Rightarrow> smtpSession \<Rightarrow> smtpServer \<Rightarrow> smtp_reply \<times> smtpServer" where
  "ss_Data sid input ss s =
     (if sc_Auth (sm_config s) \<and> \<not> ss_authenticated ss then (ErrAuthRequired, s)
      else case input of
        None \<Rightarrow> (ErrRead, s)
      | Some data \<Rightarrow>
          (let ts = notify_tasks (sm_handlers s) (ss_from ss) (ss_to ss) data
           in (Ok, s\<lparr>sm_received := sm_received s + 1,
                    sm_accepted := sm_accepted s @ [(sid, ss_from ss, ss_to ss, data)],
                    sm_created := sm_created s @ ts,
                    sm_pending := sm_pending s @ map (Pair sid) ts\<rparr>)))"

section \<open>Hand-over\<close>

text \<open>
  The next task of a session, and the three ways its \<open>select\<close> may go: queued, given up when the wait for a place in the
  queue ends (also where a place has become free just then), or ended by the shutdown.
\<close>

definition next_pending :: "nat \<Rightarrow> smtpServer \<Rightarrow> handlerTask option" where
  "next_pending sid s = map_option snd (find (\<lambda>p. fst p = sid) (sm_pending s))"

definition notify_queue :: "nat \<Rightarrow> handlerTask \<Rightarrow> smtpServer \<Rightarrow> smtpServer" where
  "notify_queue sid t s = s\<lparr>sm_queue := sm_queue s @ [t], sm_pending := remove1 (sid, t) (sm_pending s)\<rparr>"

definition notify_drop :: "nat \<Rightarrow> handlerTask \<Rightarrow> smtpServer \<Rightarrow> smtpServer" where
  "notify_drop sid t s = s\<lparr>sm_dropped := sm_dropped s @ [t], sm_pending := remove1 (sid, t) (sm_pending s)\<rparr>"

definition notify_shutdown :: "nat \<Rightarrow> smtpServer \<Rightarrow> smtpServer" where
  "notify_shutdown sid s =
     s\<lparr>sm_dropped := sm_dropped s @ map snd (filter (\<lambda>p. fst p = sid) (sm_pending s)),
       sm_pending := filter (\<lambda>p. fst p \<noteq> sid) (sm_pending s)\<rparr>"

definition worker_take :: "smtpServer \<Rightarrow> smtpServer" where
  "worker_take s = s\<lparr>sm_queue := tl (sm_queue s), sm_handled := sm_handled s @ [hd (sm_queue s)]\<rparr>"

definition on_session :: "nat \<Rightarrow> (smtpSession \<Rightarrow> smtp_reply \<times> smtpSession) \<Rightarrow> smtpSession \<Rightarrow> smtpServer \<Rightarrow> smtpServer" where
  "on_session sid f ss s = s\<lparr>sm_sessions := (sm_sessions s)(sid \<mapsto> snd (f ss))\<rparr>"

text \<open>
  The commands of all sessions, the hand-over and the workers, in any order. \<open>step_auth\<close> is the call that a library
  for SMTP makes for \<open>AUTH PLAIN\<close>; go-smtp 0.24 never calls \<open>AuthPlain\<close>, so with it fewer states are reached.
\<close>

inductive mail_step :: "smtpServer \<Rightarrow> smtpServer \<Rightarrow> bool" where
  step_new: "sm_sessions s sid = None \<Longrightarrow> mail_step s (s\<lparr>sm_sessions := (sm_sessions s)(sid \<mapsto> NewSession)\<rparr>)"
| step_auth: "sm_sessions s sid = Some ss \<Longrightarrow>
    mail_step s ((on_session sid (AuthPlain (sm_config s) u p) ss s)\<lparr>sm_attempts := sm_attempts s @ [(sid, u, p)]\<rparr>)"
| step_mail: "sm_sessions s sid = Some ss \<Longrightarrow> mail_step s (on_session sid (ss_Mail (sm_config s) x) ss s)"
| step_rcpt: "sm_sessions s sid = Some ss \<Longrightarrow> mail_step s (on_session sid (ss_Rcpt (sm_config s) x) ss s)"
| step_reset: "sm_sessions s sid = Some ss \<Longrightarrow> mail_step s (on_session sid (\<lambda>ss. (Ok, ss_Reset ss)) ss s)"
| step_data: "sm_sessions s sid = Some ss \<Longrightarrow> next_pending sid s = None \<Longrightarrow> mail_step s (snd (ss_Data sid input ss s))"
| step_queue: "next_pending sid s = Some t \<Longrightarrow> length (sm_queue s) < queue_cap s \<Longrightarrow> mail_step s (notify_queue sid t s)"
| step_drop: "next_pending sid s = Some t \<Longrightarrow> mail_step s (notify_drop sid t s)"
| step_shutdown: "sm_cancelled s \<Longrightarrow> mail_step s (notify_shutdown sid s)"
| step_work: "0 < sm_workers s \<Longrightarrow> sm_queue s \<noteq> [] \<Longrightarrow> mail_step s (worker_take s)"
| step_worker_stop: "sm_cancelled s \<Longrightarrow> 0 < sm_workers s \<Longrightarrow> mail_step s (s\<lparr>sm_workers := sm_workers s - 1\<rparr>)"
| step_handler: "mail_step s (sm_AddHandler s)"
| step_start: "mail_step s (snd (sm_Start tls_ok listen probes s))"
| step_stop: "mail_step s (snd (sm_Stop close_err in_time s))"

definition mail_reachable :: "ServerConfig \<Rightarrow> smtpServer \<Rightarrow> bool" where
  "mail_reachable cfg s \<longleftrightarrow> mail_step\<^sup>*\<^sup>* (NewSMTPServer cfg) s"

lemma reach_init: "mail_reachable cfg (NewSMTPServer cfg)"
  by (simp add: mail_reachable_def)

lemma reach_step: "mail_reachable cfg s \<Longrightarrow> mail_step s s' \<Longrightarrow> mail_reachable cfg s'"
  unfolding mail_reachable_def by (rule rtranclp.rtrancl_into_rtrancl)

inductive_cases mail_stepE: "mail_step s s'"

section \<open>Authentication\<close>

definition auth_inv :: "smtpServer \<Rightarrow> bool" where
  "auth_inv s \<longleftrightarrow>
     (let cfg = sm_config s; proof_of = (\<lambda>sid. (sid, sc_Username cfg, sc_Password cfg) \<in> set (sm_attempts s)) in
      (\<forall>sid ss. sm_sessions s sid = Some ss \<longrightarrow> ss_authenticated ss \<longrightarrow> proof_of sid)
      \<and> (sc_Auth cfg \<longrightarrow> (\<forall>sid m. (sid, m) \<in> set (sm_accepted s) \<longrightarrow> proof_of sid)))"

lemmas mail_step_defs = on_session_def AuthPlain_def ss_Mail_def ss_Rcpt_def ss_Reset_def ss_Data_def notify_queue_def
  notify_drop_def notify_shutdown_def worker_take_def sm_AddHandler_def sm_Start_def sm_Stop_def NewSession_def Let_def

lemma auth_inv_step: "mail_step s s' \<Longrightarrow> auth_inv s \<Longrightarrow> auth_inv s' \<and> sm_config s' = sm_config s"
  by (induction rule: mail_step.induct) (auto simp: auth_inv_def mail_step_defs split: if_splits option.splits, blast)

interpretation auth: state_machine "NewSMTPServer cfg" mail_step "\<lambda>s. auth_inv s \<and> sm_config s = sm_config (NewSMTPServer cfg)" for cfg
proof unfold_locales
  show "auth_inv (NewSMTPServer cfg) \<and> sm_config (NewSMTPServer cfg) = sm_config (NewSMTPServer cfg)"
    by (simp add: auth_inv_def NewSMTPServer_def Let_def)
qed (metis auth_inv_step)

text \<open>
  C13: On a server that requires authentication, every mail it ever accepts comes from a session that
  presented the configured user name and password, whatever the order of the commands of all sessions.
\<close>

theorem smtp_accepts_only_authenticated:
  assumes "mail_reachable cfg s" "sc_Auth cfg" "(sid, m) \<in> set (sm_accepted s)"
  shows "(sid, sc_Username cfg, sc_Password cfg) \<in> set (sm_attempts s)"
proof -
  have "sm_config s = sm_config (NewSMTPServer cfg)" "auth_inv s" using auth.reachable_I [OF assms(1) [unfolded mail_reachable_def]] by auto
  moreover have "sc_Auth (sm_config (NewSMTPServer cfg)) = sc_Auth cfg" "sc_Username (sm_config (NewSMTPServer cfg)) = sc_Username cfg"
    "sc_Password (sm_config (NewSMTPServer cfg)) = sc_Password cfg" by (simp_all add: NewSMTPServer_def)
  ultimately show ?thesis using assms(2,3) unfolding auth_inv_def Let_def by metis
qed

section \<open>Tasks\<close>

definition task_inv :: "smtpServer \<Rightarrow> bool" where
  "task_inv s \<longleftrightarrow>
     mset (sm_created s) = mset (sm_handled s) + mset (sm_queue s) + mset (map snd (sm_pending s)) + mset (sm_dropped s)
     \<and> length (sm_queue s) \<le> queue_cap s"

lemma mset_snd_remove1:
  "(sid, t) \<in> set ps \<Longrightarrow> mset (map snd ps) = add_mset t (mset (map snd (remove1 (sid, t) ps)))"
  by (induction ps) auto

lemma next_pending_in: "next_pending sid s = Some t \<Longrightarrow> (sid, t) \<in> set (sm_pending s)"
  by (auto simp: next_pending_def find_Some_iff) (metis nth_mem prod.collapse snd_conv)

lemma mset_filter_snd:
  "mset (map snd ps) = mset (map snd (filter (\<lambda>p. fst p = sid) ps)) + mset (map snd (filter (\<lambda>p. fst p \<noteq> sid) ps))"
  by (induction ps) auto

lemma task_inv_step: "mail_step s s' \<Longrightarrow> task_inv s \<Longrightarrow> task_inv s'"
proof (induction rule: mail_step.induct)
  case (step_data s sid ss input)
  then show ?case by (auto simp: task_inv_def ss_Data_def queue_cap_def Let_def comp_def multiset.map_comp split: option.splits)
next
  case (step_queue sid s t)
  then show ?case
    using mset_snd_remove1 [OF next_pending_in [OF step_queue(1)]] by (auto simp: task_inv_def notify_queue_def queue_cap_def)
next
  case (step_drop sid s t)
  then show ?case
    using mset_snd_remove1 [OF next_pending_in [OF step_drop(1)]] by (auto simp: task_inv_def notify_drop_def queue_cap_def)
next
  case (step_shutdown s sid)
  then show ?case
    using mset_filter_snd [of "sm_pending s" sid] by (simp add: task_inv_def notify_shutdown_def queue_cap_def)
next
  case (step_work s)
  then show ?case by (cases "sm_queue s") (auto simp: task_inv_def worker_take_def queue_cap_def)
qed (auto simp: task_inv_def queue_cap_def mail_step_defs split: option.splits)

interpretation tasks: state_machine "NewSMTPServer cfg" mail_step task_inv for cfg
  by unfold_locales (simp add: task_inv_def NewSMTPServer_def Let_def, rule task_inv_step)

text \<open>
  The lists of tasks account for every task: each is run by a worker, in the queue, held by its session, or
  given up.
\<close>

lemma smtp_tasks_conserved:
  assumes "mail_reachable cfg s"
  shows "mset (sm_created s) = mset (sm_handled s) + mset (sm_queue s) + mset (map snd (sm_pending s)) + mset (sm_dropped s)
    \<and> length (sm_queue s) \<le> queue_cap s"
  using tasks.reachable_I [OF assms [unfolded mail_reachable_def]] by (simp add: task_inv_def)

text \<open>Once stopped, the pool stays empty: a server started again accepts mail that no worker will ever hand on.\<close>

lemma restarted_server_never_notifies:
  "mail_step s s' \<Longrightarrow> sm_workers s = 0 \<Longrightarrow> sm_workers s' = 0 \<and> sm_handled s' = sm_handled s"
  by (induction rule: mail_step.induct) (auto simp: mail_step_defs split: option.splits)

section \<open>Witnesses\<close>

definition wit_cfg :: ServerConfig where
  "wit_cfg = (mc_Server ml_DefaultConfig)\<lparr>sc_Auth := True, sc_Username := ''u'', sc_Password := ''p''\<rparr>"

definition wit_fresh :: smtpServer where
  "wit_fresh = sm_AddHandler (NewSMTPServer wit_cfg)"

definition wit_open :: smtpServer where
  "wit_open = wit_fresh\<lparr>sm_sessions := (sm_sessions wit_fresh)(5 \<mapsto> NewSession)\<rparr>"

definition wit_authed :: smtpServer where
  "wit_authed = (on_session 5 (AuthPlain (sm_config wit_open) ''u'' ''p'') NewSession wit_open)\<lparr>sm_attempts := sm_attempts wit_open @ [(5, ''u'', ''p'')]\<rparr>"

definition wit_mail :: smtpServer where
  "wit_mail = snd (ss_Data 5 (Some ''hi'') (NewSession\<lparr>ss_authenticated := True\<rparr>) wit_authed)"

lemma wit_cfg_sel: "sc_Auth wit_cfg" "sc_Username wit_cfg = ''u''" "sc_Password wit_cfg = ''p''"
  by (simp_all add: wit_cfg_def)

lemma wit_open_sel:
  "sm_sessions wit_fresh = Map.empty" "sm_sessions wit_open = [5 \<mapsto> NewSession]" "sm_pending wit_open = []" "sm_handlers wit_open = 1"
  "sm_created wit_open = []" "sc_Auth (sm_config wit_open)" "sc_Username (sm_config wit_open) = ''u''" "sc_Password (sm_config wit_open) = ''p''"
  by (simp_all add: wit_open_def wit_fresh_def sm_AddHandler_def NewSMTPServer_def Let_def wit_cfg_sel)

lemma wit_authed_sel:
  "sm_sessions wit_authed = [5 \<mapsto> NewSession\<lparr>ss_authenticated := True\<rparr>]" "sm_pending wit_authed = []" "sm_handlers wit_authed = 1"
  "sm_created wit_authed = []"
  by (simp_all add: wit_authed_def on_session_def AuthPlain_def wit_open_sel)

lemma wit_mail_reachable: "mail_reachable wit_cfg wit_mail"
proof -
  have "mail_reachable wit_cfg wit_fresh" unfolding wit_fresh_def by (rule reach_step [OF reach_init step_handler])
  moreover have "mail_step wit_fresh wit_open" unfolding wit_open_def by (rule step_new) (simp add: wit_open_sel)
  ultimately have "mail_reachable wit_cfg wit_open" by (rule reach_step)
  moreover have "mail_step wit_open wit_authed" unfolding wit_authed_def by (rule step_auth) (simp add: wit_open_sel)
  ultimately have "mail_reachable wit_cfg wit_authed" by (rule reach_step)
  moreover have "mail_step wit_authed wit_mail" unfolding wit_mail_def by (rule step_data) (simp_all add: wit_authed_sel next_pending_def)
  ultimately show ?thesis by (rule reach_step)
qed

lemma wit_mail_accepted: "(5, [], [], ''hi'') \<in> set (sm_accepted wit_mail)"
  by (simp add: wit_mail_def ss_Data_def Let_def NewSession_def)

theorem smtp_accepts_only_authenticated_witness: "(5, ''u'', ''p'') \<in> set (sm_attempts wit_mail)"
  using smtp_accepts_only_authenticated [OF wit_mail_reachable wit_cfg_sel(1) wit_mail_accepted] by (simp add: wit_cfg_sel)

end
