(* ===== verification/MailManager.thy ===== *)
theory MailManager
  imports MailSender MailServer QueueManager
begin

text \<open>
  The mail manager of \<open>src/mail/mail.go\<close>: sending, queueing and processing of messages with the
  statistics, on top of the sender, the SMTP server and the queue manager of the queue package.
  \<open>encoding/json\<close> and RFC 3339 times are a record of functions with the laws the code relies on.
\<close>

section \<open>JSON\<close>

text \<open>
  \<open>js_marshal\<close> and \<open>js_unmarshal\<close> of an object, \<open>js_float\<close>: the float64 an integer is read back as,
  \<open>js_base64\<close>: the text of a byte slice, \<open>js_time\<close> and \<open>js_parse\<close>: printing a time and \<open>time.Parse(RFC3339)\<close>,
  \<open>js_attachments\<close>: the encoding of the attachments.
\<close>

record JsonLib =
  js_marshal :: "(string \<times> value) list \<Rightarrow> bytes option"
  js_unmarshal :: "bytes \<Rightarrow> (string \<times> value) list option"
  js_float :: "int \<Rightarrow> rat"
  js_base64 :: "bytes \<Rightarrow> string"
  js_time :: "time \<Rightarrow> string"
  js_parse :: "string \<Rightarrow> time option"
  js_attachments :: "Attachment list \<Rightarrow> value"

text \<open>
  How a value comes back from encoding and decoding into an \<open>interface{}\<close>. An empty list of strings or of bytes stands
  for the nil slice, which is encoded as null.
\<close>

fun json_trip :: "JsonLib \<Rightarrow> value \<Rightarrow> value"
and json_list :: "JsonLib \<Rightarrow> value list \<Rightarrow> value list"
and json_fields :: "JsonLib \<Rightarrow> (string \<times> value) list \<Rightarrow> (string \<times> value) list" where
  "json_trip js (VInt n) = VFloat (js_float js n)"
| "json_trip js (VBytes b) = (if b = [] then VNil else VString (js_base64 js b))"
| "json_trip js (VStrings xs) = (if xs = [] then VNil else VList (map VString xs))"
| "json_trip js (VList vs) = VList (json_list js vs)"
| "json_trip js (VMap kvs) = VMap (json_fields js kvs)"
| "json_trip js (VPtr v) = json_trip js v"
| "json_trip js v = v"
| "json_list js [] = []"
| "json_list js (v # vs) = json_trip js v # json_list js vs"
| "json_fields js [] = []"
| "json_fields js ((k, v) # kvs) = (k, json_trip js v) # json_fields js kvs"

text \<open>
  \<open>encoding/json\<close> replaces what is not UTF-8 in a string, so only texts that are come back as they were; this is Go's
  \<open>utf8.Valid\<close>, on the numbers of the bytes.
\<close>

definition cont_byte :: "nat \<Rightarrow> bool" where
  "cont_byte b \<longleftrightarrow> 0x80 \<le> b \<and> b \<le> 0xBF"

fun utf8_valid :: "nat list \<Rightarrow> bool" where
  "utf8_valid [] = True"
| "utf8_valid (a # bs) =
     (if a < 0x80 then utf8_valid bs
      else if 0xC2 \<le> a \<and> a \<le> 0xDF then (case bs of b # r \<Rightarrow> cont_byte b \<and> utf8_valid r | _ \<Rightarrow> False)
      else if 0xE0 \<le> a \<and> a \<le> 0xEF then
        (case bs of
           b # c # r \<Rightarrow> cont_byte b \<and> (a = 0xE0 \<longrightarrow> 0xA0 \<le> b) \<and> (a = 0xED \<longrightarrow> b \<le> 0x9F) \<and> cont_byte c \<and> utf8_valid r
         | _ \<Rightarrow> False)
      else if 0xF0 \<le> a \<and> a \<le> 0xF4 then
        (case bs of
           b # c # d # r \<Rightarrow> cont_byte b \<and> (a = 0xF0 \<longrightarrow> 0x90 \<le> b) \<and> (a = 0xF4 \<longrightarrow> b \<le> 0x8F) \<and> cont_byte c \<and> cont_byte d \<and> utf8_valid r
         | _ \<Rightarrow> False)
      else False)"

definition valid_text :: "string \<Rightarrow> bool" where
  "valid_text s = utf8_valid (map of_char s)"

fun key_less :: "string \<Rightarrow> string \<Rightarrow> bool" where
  "key_less _ [] = False"
| "key_less [] (b # bs) = True"
| "key_less (a # as) (b # bs) \<longleftrightarrow> (of_char a :: nat) < of_char b \<or> a = b \<and> key_less as bs"

text \<open>A value all of whose texts are UTF-8; its maps are their entries in the order of their keys, as they are encoded.\<close>

fun json_ok :: "value \<Rightarrow> bool"
and json_ok_list :: "value list \<Rightarrow> bool"
and json_ok_fields :: "(string \<times> value) list \<Rightarrow> bool" where
  "json_ok (VString s) = valid_text s"
| "json_ok (VStrings xs) = list_all valid_text xs"
| "json_ok (VList vs) = json_ok_list vs"
| "json_ok (VMap kvs) \<longleftrightarrow> sorted_wrt key_less (map fst kvs) \<and> json_ok_fields kvs"
| "json_ok (VPtr v) = json_ok v"
| "json_ok v = True"
| "json_ok_list [] = True"
| "json_ok_list (v # vs) \<longleftrightarrow> json_ok v \<and> json_ok_list vs"
| "json_ok_fields [] = True"
| "json_ok_fields ((k, v) # kvs) \<longleftrightarrow> valid_text k \<and> json_ok v \<and> json_ok_fields kvs"

text \<open>The instants whose year has at most four digits; RFC 3339 has no others.\<close>

definition json_time :: "time \<Rightarrow> bool" where
  "json_time t \<longleftrightarrow> 0 \<le> t \<and> t < 315537897600 * 10 ^ 9"

definition json_laws :: "JsonLib \<Rightarrow> bool" where
  "json_laws js \<longleftrightarrow>
     (\<forall>kvs b. json_ok_fields kvs \<longrightarrow> distinct (map fst kvs) \<longrightarrow> js_marshal js kvs = Some b \<longrightarrow>
        (\<exists>jd. js_unmarshal js b = Some jd \<and> map_of jd = map_of (json_fields js kvs)))
     \<and> (\<forall>n. \<bar>n\<bar> \<le> 2 ^ 53 \<longrightarrow> js_float js n = of_int n)
     \<and> (\<forall>t. json_time t \<longrightarrow> js_time js t \<noteq> [] \<and> js_parse js (js_time js t) = Some t)"

section \<open>Messages as job data\<close>

definition VOptMap :: "(string \<times> string) list option \<Rightarrow> value" where
  "VOptMap m = (case m of None \<Rightarrow> VNil | Some kvs \<Rightarrow> VMap (map (\<lambda>(k, v). (k, VString v)) kvs))"

text \<open>The map \<open>SendAsync\<close> builds; a time marshals as its text.\<close>

definition messageJobData :: "JsonLib \<Rightarrow> Message \<Rightarrow> (string \<times> value) list" where
  "messageJobData js m =
    [(''id'', VString (ms_ID m)), (''from'', VString (ms_From m)), (''to'', VStrings (ms_To m)), (''cc'', VStrings (ms_CC m)),
     (''bcc'', VStrings (ms_BCC m)), (''reply_to'', VString (ms_ReplyTo m)), (''subject'', VString (ms_Subject m)),
     (''text_body'', VString (ms_TextBody m)), (''html_body'', VString (ms_HTMLBody m)), (''template'', VString (ms_Template m)),
     (''template_data'', ms_TemplateData m), (''attachments'', js_attachments js (ms_Attachments m)),
     (''headers'', VOptMap (ms_Headers m)), (''priority'', VInt (ms_Priority m)),
     (''created_at'', VString (js_time js (ms_CreatedAt m))),
     (''schedule_at'', case ms_ScheduleAt m of None \<Rightarrow> VNil | Some t \<Rightarrow> VPtr (VString (js_time js t))),
     (''metadata'', VOptMap (ms_Metadata m))]"

fun convertToString :: "value \<Rightarrow> string" where
  "convertToString (VString s) = s"
| "convertToString (VBytes b) = b"
| "convertToString _ = []"

fun convertToStringSlice :: "value \<Rightarrow> string list" where
  "convertToStringSlice (VStrings xs) = xs"
| "convertToStringSlice (VList vs) = concat (map (\<lambda>v. case v of VString s \<Rightarrow> [s] | _ \<Rightarrow> []) vs)"
| "convertToStringSlice (VString s) = [s]"
| "convertToStringSlice VNil = []"
| "convertToStringSlice v = (if convertToString v \<noteq> [] then [convertToString v] else [])"

text \<open>Reading a field: the text if it is one; the string entries of a map, \<open>None\<close> if it is no map.\<close>

definition str_field :: "string \<Rightarrow> (string \<times> value) list \<Rightarrow> string" where
  "str_field k jd = (case map_of jd k of Some (VString s) \<Rightarrow> s | _ \<Rightarrow> [])"

definition slice_field :: "string \<Rightarrow> (string \<times> value) list \<Rightarrow> string list" where
  "slice_field k jd = (case map_of jd k of Some v \<Rightarrow> convertToStringSlice v | None \<Rightarrow> [])"

definition map_field :: "string \<Rightarrow> (string \<times> value) list \<Rightarrow> (string \<times> string) list option" where
  "map_field k jd =
     (case map_of jd k of
        Some (VMap kvs) \<Rightarrow> Some (concat (map (\<lambda>(k, v). case v of VString s \<Rightarrow> [(k, s)] | _ \<Rightarrow> []) kvs))
      | _ \<Rightarrow> None)"

definition jobDataToMessage :: "JsonLib \<Rightarrow> (string \<times> value) list \<Rightarrow> Message" where
  "jobDataToMessage js jd = Message_zero\<lparr>
     ms_ID := str_field ''id'' jd, ms_From := str_field ''from'' jd, ms_To := slice_field ''to'' jd,
     ms_CC := slice_field ''cc'' jd, ms_BCC := slice_field ''bcc'' jd, ms_ReplyTo := str_field ''reply_to'' jd,
     ms_Subject := str_field ''subject'' jd, ms_TextBody := str_field ''text_body'' jd,
     ms_HTMLBody := str_field ''html_body'' jd, ms_Template := str_field ''template'' jd,
     ms_TemplateData := (case map_of jd ''template_data'' of Some v \<Rightarrow> v | None \<Rightarrow> VNil),
     ms_Priority := (case map_of jd ''priority'' of Some (VFloat q) \<Rightarrow> int_of_float q | _ \<Rightarrow> 0),
     ms_Headers := map_field ''headers'' jd, ms_Metadata := map_field ''metadata'' jd,
     ms_CreatedAt := (case map_of jd ''created_at'' of
         Some (VString s) \<Rightarrow> (case js_parse js s of Some t \<Rightarrow> t | None \<Rightarrow> 0) | _ \<Rightarrow> 0),
     ms_ScheduleAt := (let s = str_field ''schedule_at'' jd in if s \<noteq> [] then js_parse js s else None)\<rparr>"

section \<open>The manager\<close>

record 't MailManager =
  mm_config :: MailConfig
  mm_server :: "smtpServer option"
  mm_templates :: "'t TemplateManager"
  mm_has_queue :: bool
  mm_stats :: MailStats
  mm_running :: bool
  mm_cancelled :: bool

definition NewMailManager :: "'t TemplateLib \<Rightarrow> Disk \<Rightarrow> MailConfig \<Rightarrow> bool \<Rightarrow> 't MailManager" where
  "NewMailManager lib dk config has_queue =
     \<lparr>mm_config = config,
      mm_server = (if sc_Enabled (mc_Server config) then Some (NewSMTPServer (mc_Server config)) else None),
      mm_templates = NewTemplateManager lib dk (mc_Templates config), mm_has_queue = has_queue,
      mm_stats = \<lparr>st_SentCount = 0, st_FailedCount = 0, st_QueuedCount = 0, st_ReceivedCount = 0, st_LastSent = None, st_LastReceived = None\<rparr>,
      mm_running = False, mm_cancelled = False\<rparr>"

text \<open>
  Start: whether the handler for mail jobs is registered (second component) and the server started in the
  background (third).
\<close>

definition mm_Start :: "'t MailManager \<Rightarrow> err option \<times> bool \<times> bool \<times> 't MailManager" where
  "mm_Start m =
     (if mm_running m then (Some (ml_err ''mail manager is already running''), False, False, m)
      else (None, qc_Enabled (mc_Queue (mm_config m)) \<and> mm_has_queue m,
            sc_Enabled (mc_Server (mm_config m)) \<and> mm_server m \<noteq> None, m\<lparr>mm_running := True\<rparr>))"

text \<open>\<open>in_time\<close>: whether the background goroutine ends before the context.\<close>

definition mm_Stop :: "err option \<Rightarrow> bool \<Rightarrow> bool \<Rightarrow> 't MailManager \<Rightarrow> err option \<times> 't MailManager" where
  "mm_Stop close_err workers_in_time in_time m =
     (if \<not> mm_running m then (Some (ml_err ''mail manager is not running''), m)
      else
        (let m1 = m\<lparr>mm_running := False, mm_cancelled := True,
              mm_server := map_option (\<lambda>s. if sm_IsRunning s then snd (sm_Stop close_err workers_in_time s) else s) (mm_server m)\<rparr>
         in (if in_time then None else Some (Plain ''context deadline exceeded''), m1)))"

definition upd_mail_stats :: "(MailStats \<Rightarrow> MailStats) \<Rightarrow> 't MailManager \<Rightarrow> 't MailManager" where
  "upd_mail_stats f m = m\<lparr>mm_stats := f (mm_stats m)\<rparr>"

definition incrementSentCount :: "MailStats \<Rightarrow> MailStats" where
  "incrementSentCount s = s\<lparr>st_SentCount := st_SentCount s + 1\<rparr>"

definition incrementFailedCount :: "MailStats \<Rightarrow> MailStats" where
  "incrementFailedCount s = s\<lparr>st_FailedCount := st_FailedCount s + 1\<rparr>"

definition incrementQueuedCount :: "MailStats \<Rightarrow> MailStats" where
  "incrementQueuedCount s = s\<lparr>st_QueuedCount := st_QueuedCount s + 1\<rparr>"

definition decrementQueuedCount :: "MailStats \<Rightarrow> MailStats" where
  "decrementQueuedCount s = (if st_QueuedCount s > 0 then s\<lparr>st_QueuedCount := st_QueuedCount s - 1\<rparr> else s)"

definition incrementReceivedCount :: "MailStats \<Rightarrow> MailStats" where
  "incrementReceivedCount s = s\<lparr>st_ReceivedCount := st_ReceivedCount s + 1\<rparr>"

definition updateLastSent :: "time \<Rightarrow> MailStats \<Rightarrow> MailStats" where
  "updateLastSent now s = s\<lparr>st_LastSent := Some now\<rparr>"

definition updateLastReceived :: "time \<Rightarrow> MailStats \<Rightarrow> MailStats" where
  "updateLastReceived now s = s\<lparr>st_LastReceived := Some now\<rparr>"

definition NotifyMessageReceived :: "time \<Rightarrow> MailStats \<Rightarrow> MailStats" where
  "NotifyMessageReceived now s = updateLastReceived now (incrementReceivedCount s)"

definition mm_GetStats :: "'t MailManager \<Rightarrow> MailStats" where
  "mm_GetStats m = mm_stats m"

definition with_id :: "string \<Rightarrow> Message \<Rightarrow> Message" where
  "with_id uuid msg = (if ms_ID msg = [] then msg\<lparr>ms_ID := uuid\<rparr> else msg)"

definition mm_Send ::
    "'t TemplateLib \<Rightarrow> Disk \<Rightarrow> 'n MailNet \<Rightarrow> (int \<Rightarrow> bool) \<Rightarrow> string \<Rightarrow> time \<Rightarrow> Message \<Rightarrow> 't MailManager \<Rightarrow> 'n \<Rightarrow>
     send_error option \<times> Message \<times> 't MailManager \<times> 'n" where
  "mm_Send lib dk net done uuid now msg m n =
     (if \<not> mm_running m then (Some (Failed (ml_err ''mail manager is not running'')), msg, m, n)
      else
        (let (r, msg1, tm1, n1) = sd_Send lib dk net (mc_Client (mm_config m)) done (with_id uuid msg) (mm_templates m) n;
             m1 = m\<lparr>mm_templates := tm1\<rparr>
         in case r of
              Some e \<Rightarrow> (Some e, msg1, upd_mail_stats incrementFailedCount m1, n1)
            | None \<Rightarrow> (None, msg1, upd_mail_stats (updateLastSent now \<circ> incrementSentCount) m1, n1)))"

definition test_message :: "ClientConfig \<Rightarrow> string \<Rightarrow> Message" where
  "test_message cfg to = Message_zero\<lparr>ms_From := cl_From cfg, ms_To := [to], ms_Subject := ''Test Email'',
     ms_TextBody := ''This is a test email from the mail manager.'',
     ms_HTMLBody := ''<p>This is a test email from the mail manager.</p>''\<rparr>"

definition SendTestEmail ::
    "'t TemplateLib \<Rightarrow> Disk \<Rightarrow> 'n MailNet \<Rightarrow> (int \<Rightarrow> bool) \<Rightarrow> string \<Rightarrow> time \<Rightarrow> string \<Rightarrow> 't MailManager \<Rightarrow> 'n \<Rightarrow>
     send_error option \<times> Message \<times> 't MailManager \<times> 'n" where
  "SendTestEmail lib dk net done uuid now to m n =
     mm_Send lib dk net done uuid now (test_message (mc_Client (mm_config m)) to) m n"

text \<open>The job for a message, as \<open>SendAsync\<close> builds it.\<close>

definition mail_job :: "JsonLib \<Rightarrow> time \<Rightarrow> MailConfig \<Rightarrow> Message \<Rightarrow> Job" where
  "mail_job js now cfg msg =
     (let j = jb_WithMaxAttempts (qc_MaxAttempts (mc_Queue cfg)) (jb_WithPriority (ms_Priority msg)
                (jb_WithPayload (js_marshal js) (messageJobData js msg) (NewJob now ''mail'')))
      in case ms_ScheduleAt msg of None \<Rightarrow> j | Some t \<Rightarrow> jb_WithScheduleAt t j)"

datatype async_error = NotRunning | QueueDisabled | EnqueueFailed qerr

text \<open>\<open>r\<close> is the address of the new job. The third component is the queue manager.\<close>

definition mm_SendAsync ::
    "JsonLib \<Rightarrow> string \<Rightarrow> time \<Rightarrow> ref \<Rightarrow> Message \<Rightarrow> 't MailManager \<Rightarrow> Manager \<Rightarrow> async_error option \<times> 't MailManager \<times> Manager" where
  "mm_SendAsync js uuid now r msg m q =
     (if \<not> mm_running m then (Some NotRunning, m, q)
      else if \<not> qc_Enabled (mc_Queue (mm_config m)) \<or> \<not> mm_has_queue m then (Some QueueDisabled, m, q)
      else
        (let j = mail_job js now (mm_config m) (with_id uuid msg) in
         case mg_Enqueue now r (upd_job r (\<lambda>_. j) q) of
           (Some e, q1) \<Rightarrow> (Some (EnqueueFailed e), m, q1)
         | (None, q1) \<Rightarrow> (None, upd_mail_stats incrementQueuedCount m, q1)))"

definition AddNotificationHandler :: "'t MailManager \<Rightarrow> err option \<times> 't MailManager" where
  "AddNotificationHandler m =
     (case mm_server m of
        None \<Rightarrow> (Some (ml_err ''SMTP server is not configured''), m)
      | Some s \<Rightarrow> (None, m\<lparr>mm_server := Some (sm_AddHandler s)\<rparr>))"

definition handleMailJob ::
    "'t TemplateLib \<Rightarrow> Disk \<Rightarrow> 'n MailNet \<Rightarrow> JsonLib \<Rightarrow> (int \<Rightarrow> bool) \<Rightarrow> time \<Rightarrow> Job \<Rightarrow> 't MailManager \<Rightarrow> 'n \<Rightarrow>
     send_error option \<times> 't MailManager \<times> 'n" where
  "handleMailJob lib dk net js done now j m n =
     (case Option.bind (j_Payload j) (js_unmarshal js) of
        None \<Rightarrow> (Some (Failed (ml_err ''invalid payload'')), m, n)
      | Some jd \<Rightarrow>
          (let (r, msg1, tm1, n1) = sd_Send lib dk net (mc_Client (mm_config m)) done (jobDataToMessage js jd) (mm_templates m) n;
               m1 = m\<lparr>mm_templates := tm1\<rparr>
           in case r of
                Some e \<Rightarrow> (Some e, upd_mail_stats incrementFailedCount m1, n1)
              | None \<Rightarrow> (None, upd_mail_stats (decrementQueuedCount \<circ> updateLastSent now \<circ> incrementSentCount) m1, n1)))"

definition mm_WithFS :: "'t TemplateLib \<Rightarrow> Disk \<Rightarrow> file_system option \<Rightarrow> 't MailManager \<Rightarrow> 't MailManager" where
  "mm_WithFS lib dk fs m = m\<lparr>mm_templates := tm_WithFS lib dk fs (mm_templates m)\<rparr>"

definition mm_WithFileServer :: "'t TemplateLib \<Rightarrow> Disk \<Rightarrow> string \<Rightarrow> 't MailManager \<Rightarrow> 't MailManager" where
  "mm_WithFileServer lib dk path m = m\<lparr>mm_templates := tm_WithFileServer lib dk path (mm_templates m)\<rparr>"

definition mm_ReloadTemplates :: "'t TemplateLib \<Rightarrow> Disk \<Rightarrow> 't MailManager \<Rightarrow> err option \<times> 't MailManager" where
  "mm_ReloadTemplates lib dk m = (let (e, tm) = ReloadTemplates lib dk (mm_templates m) in (e, m\<lparr>mm_templates := tm\<rparr>))"

section \<open>Queued messages\<close>

lemma json_laws_sel:
  assumes "json_laws js"
  shows "json_ok_fields kvs \<Longrightarrow> distinct (map fst kvs) \<Longrightarrow> js_marshal js kvs = Some b \<Longrightarrow>
      \<exists>jd. js_unmarshal js b = Some jd \<and> map_of jd = map_of (json_fields js kvs)"
    and "\<bar>n\<bar> \<le> 2 ^ 53 \<Longrightarrow> js_float js n = of_int n"
    and "json_time t \<Longrightarrow> js_time js t \<noteq> []" "json_time t \<Longrightarrow> js_parse js (js_time js t) = Some t"
  using assms by (auto simp: json_laws_def)

lemma int_of_float_of_int [simp]: "int_of_float (of_int n) = n"
  by (simp add: int_of_float_def)

lemma map_of_json_fields: "map_of (json_fields js kvs) k = map_option (json_trip js) (map_of kvs k)"
  by (induction kvs) auto

lemma concat_VString [simp]: "concat (map (\<lambda>v. case v of VString s \<Rightarrow> [s] | _ \<Rightarrow> []) (map VString xs)) = xs"
  by (induction xs) auto

lemma map_field_trip:
  "map_of kvs k = Some (VOptMap m) \<Longrightarrow> map_field k (json_fields js kvs) = m"
proof -
  have "concat (map (\<lambda>(k, v). case v of VString s \<Rightarrow> [(k, s)] | _ \<Rightarrow> []) (json_fields js (map (\<lambda>(k, v). (k, VString v)) xs))) = xs" for xs
    by (induction xs) auto
  then show "map_of kvs k = Some (VOptMap m) \<Longrightarrow> ?thesis"
    by (cases m) (simp_all add: map_field_def map_of_json_fields VOptMap_def)
qed

lemma str_field_trip: "map_of kvs k = Some (VString s) \<Longrightarrow> str_field k (json_fields js kvs) = s"
  by (simp add: str_field_def map_of_json_fields)

lemma slice_field_trip: "map_of kvs k = Some (VStrings xs) \<Longrightarrow> slice_field k (json_fields js kvs) = xs"
  by (simp add: slice_field_def map_of_json_fields concat_VString [unfolded map_map])

lemma jobDataToMessage_cong: "map_of jd = map_of jd' \<Longrightarrow> jobDataToMessage js jd = jobDataToMessage js jd'"
  by (simp add: jobDataToMessage_def str_field_def slice_field_def map_field_def)

text \<open>
  C26: A message that goes through the queue, with texts that are UTF-8, times within the years that RFC 3339 has and
  a priority that a \<open>float64\<close> holds, arrives with all its fields, except for the attachments, which are lost, and
  for the template data, which arrive as JSON gives them back: integers as floats, bytes as base64 text, pointers
  as what they point to, lists of strings as lists, nil slices as nil.
\<close>

theorem queued_message_round_trip:
  assumes "json_laws js" "\<bar>ms_Priority m\<bar> \<le> 2 ^ 53" "js_marshal js (messageJobData js m) = Some b"
    "json_ok_fields (messageJobData js m)" "json_time (ms_CreatedAt m)" "\<And>t. ms_ScheduleAt m = Some t \<Longrightarrow> json_time t"
  shows "map_option (jobDataToMessage js) (Option.bind (j_Payload (mail_job js now cfg m)) (js_unmarshal js))
    = Some (m\<lparr>ms_Attachments := [], ms_TemplateData := json_trip js (ms_TemplateData m)\<rparr>)"
proof -
  let ?kvs = "messageJobData js m"
  have payload: "j_Payload (mail_job js now cfg m) = Some b"
    using assms(3) by (simp add: mail_job_def Let_def jb_WithMaxAttempts_def jb_WithPriority_def jb_WithPayload_def jb_WithScheduleAt_def split: option.splits)
  have strs: "map_of ?kvs ''id'' = Some (VString (ms_ID m))" "map_of ?kvs ''from'' = Some (VString (ms_From m))"
    "map_of ?kvs ''reply_to'' = Some (VString (ms_ReplyTo m))" "map_of ?kvs ''subject'' = Some (VString (ms_Subject m))"
    "map_of ?kvs ''text_body'' = Some (VString (ms_TextBody m))" "map_of ?kvs ''html_body'' = Some (VString (ms_HTMLBody m))"
    "map_of ?kvs ''template'' = Some (VString (ms_Template m))"
    by (simp_all add: messageJobData_def)
  have slices: "map_of ?kvs ''to'' = Some (VStrings (ms_To m))" "map_of ?kvs ''cc'' = Some (VStrings (ms_CC m))"
    "map_of ?kvs ''bcc'' = Some (VStrings (ms_BCC m))"
    by (simp_all add: messageJobData_def)
  have maps: "map_of ?kvs ''headers'' = Some (VOptMap (ms_Headers m))" "map_of ?kvs ''metadata'' = Some (VOptMap (ms_Metadata m))"
    by (simp_all add: messageJobData_def)
  have others: "map_of ?kvs ''template_data'' = Some (ms_TemplateData m)" "map_of ?kvs ''priority'' = Some (VInt (ms_Priority m))"
    "map_of ?kvs ''created_at'' = Some (VString (js_time js (ms_CreatedAt m)))"
    "map_of ?kvs ''schedule_at'' = Some (case ms_ScheduleAt m of None \<Rightarrow> VNil | Some t \<Rightarrow> VPtr (VString (js_time js t)))"
    by (simp_all add: messageJobData_def)
  have sched: "(let s = str_field ''schedule_at'' (json_fields js ?kvs) in if s \<noteq> [] then js_parse js s else None) = ms_ScheduleAt m"
    using others(4) json_laws_sel(3,4) [OF assms(1)] assms(6) by (cases "ms_ScheduleAt m") (simp_all add: str_field_def map_of_json_fields Let_def)
  have "jobDataToMessage js (json_fields js ?kvs) = m\<lparr>ms_Attachments := [], ms_TemplateData := json_trip js (ms_TemplateData m)\<rparr>"
    unfolding jobDataToMessage_def sched
    by (simp add: strs [THEN str_field_trip] slices [THEN slice_field_trip] maps [THEN map_field_trip] map_of_json_fields others(1-3)
        json_laws_sel(2) [OF assms(1,2)] json_laws_sel(4) [OF assms(1,5)] Message_zero_def)
  moreover have "distinct (map fst ?kvs)" by (simp add: messageJobData_def)
  then obtain jd where "js_unmarshal js b = Some jd" "map_of jd = map_of (json_fields js ?kvs)"
    using json_laws_sel(1) [OF assms(1,4) _ assms(3)] by blast
  ultimately show ?thesis using jobDataToMessage_cong [of jd "json_fields js ?kvs" js] by (simp add: payload)
qed

section \<open>Scheduled messages\<close>

lemma mail_job_ID: "j_ID (mail_job js now cfg m) = []"
  by (simp add: mail_job_def Let_def jb_WithMaxAttempts_def jb_WithPriority_def jb_WithPayload_def jb_WithScheduleAt_def NewJob_def Job_zero_def
      split: option.splits)

lemma mail_job_scheduled: "ms_ScheduleAt m = Some t \<Longrightarrow> now' < t \<Longrightarrow> t \<noteq> 0 \<Longrightarrow> IsScheduled now' (mail_job js now cfg m)"
  by (simp add: mail_job_def jb_WithScheduleAt_def IsScheduled_def)

text \<open>What a successful \<open>SendAsync\<close> of a scheduled message does to the queue: its job goes under the empty ID.\<close>

lemma SendAsync_scheduled:
  assumes "mm_SendAsync js uuid now r m mm q = (None, mm1, q1)" "ms_ScheduleAt m = Some t" "now < t" "t \<noteq> 0"
    and "\<not> mq_closed (mg_queue q)"
  shows "mq_scheduledJobs (mg_queue q1) = (mq_scheduledJobs (mg_queue q))([] \<mapsto> r)" "mq_jobs (mg_queue q1) = (mq_jobs (mg_queue q))([] \<mapsto> r)"
    "mq_pendingJobs (mg_queue q1) = mq_pendingJobs (mg_queue q)" "\<not> mq_closed (mg_queue q1)" "mm_stats mm1 = incrementQueuedCount (mm_stats mm)"
proof -
  let ?j = "mail_job js now (mm_config mm) (with_id uuid m)"
  let ?q0 = "upd_job r (\<lambda>_. ?j) q"
  have run: "mg_running ?q0" and e: "mg_Enqueue now r ?q0 = (None, q1)" and s: "mm_stats mm1 = incrementQueuedCount (mm_stats mm)"
    using assms(1) by (auto simp: mm_SendAsync_def mg_Enqueue_def Let_def upd_mail_stats_def split: if_splits prod.splits option.splits)
  have sch: "ms_ScheduleAt (with_id uuid m) = Some t" using assms(2) by (simp add: with_id_def)
  let ?j1 = "if j_MaxAttempts ?j = 0 then ?j\<lparr>j_MaxAttempts := mg_maxRetries ?q0\<rparr> else ?j"
  have st: "mg_store (default_attempts r ?q0) r = ?j1" by (simp add: default_attempts_def upd_job_def)
  have "IsScheduled now ?j1" "j_ID ?j1 = []"
    using mail_job_scheduled [OF sch assms(3,4), of js now "mm_config mm"] mail_job_ID [of js now "mm_config mm" "with_id uuid m"]
    by (simp_all add: IsScheduled_def)
  moreover have "mg_queue (default_attempts r ?q0) = mg_queue q" by (simp add: default_attempts_def upd_job_def)
  ultimately show "mq_scheduledJobs (mg_queue q1) = (mq_scheduledJobs (mg_queue q))([] \<mapsto> r)" "mq_jobs (mg_queue q1) = (mq_jobs (mg_queue q))([] \<mapsto> r)"
    "mq_pendingJobs (mg_queue q1) = mq_pendingJobs (mg_queue q)" "\<not> mq_closed (mg_queue q1)"
    using e run st assms(5) by (auto simp: mg_Enqueue_def queue_enqueue_def mq_Enqueue_def Let_def)
  show "mm_stats mm1 = incrementQueuedCount (mm_stats mm)" by (rule s)
qed

text \<open>
  Of two messages scheduled for later, both accepted by \<open>SendAsync\<close> and both counted as queued, the
  queue keeps only the second: mail jobs have no ID, so the second replaces the first, which is then
  neither among the scheduled nor among the pending jobs.
\<close>

theorem second_scheduled_mail_replaces_first:
  assumes "mm_SendAsync js u1 now1 r1 m1 mm q = (None, mm1, q1)" "mm_SendAsync js u2 now2 r2 m2 mm1 q1 = (None, mm2, q2)"
    and "ms_ScheduleAt m1 = Some t1" "now1 < t1" "t1 \<noteq> 0" "ms_ScheduleAt m2 = Some t2" "now2 < t2" "t2 \<noteq> 0"
    and fresh: "\<not> mq_closed (mg_queue q)" "r1 \<noteq> r2" "r1 \<notin> set (mq_pendingJobs (mg_queue q))" "r1 \<notin> ran (mq_scheduledJobs (mg_queue q))"
  shows "r1 \<notin> set (mq_pendingJobs (mg_queue q2)) \<and> r1 \<notin> ran (mq_scheduledJobs (mg_queue q2))
    \<and> mq_jobs (mg_queue q2) [] = Some r2 \<and> st_QueuedCount (mm_stats mm2) = st_QueuedCount (mm_stats mm) + 2"
proof -
  note first = SendAsync_scheduled [OF assms(1,3,4,5) fresh(1)]
  note snd = SendAsync_scheduled [OF assms(2,6,7,8) first(4)]
  show ?thesis using fresh by (auto simp: first snd ran_def incrementQueuedCount_def split: if_splits)
qed

section \<open>Witnesses\<close>

text \<open>A JSON library whose encoding is the object itself, for one message.\<close>

definition wit_later :: Message where
  "wit_later = Message_zero\<lparr>ms_ID := ''m1'', ms_From := ''a@b'', ms_To := [''c@d''], ms_Subject := ''s'', ms_Priority := 1,
     ms_Headers := Some [(''X'', ''y'')], ms_ScheduleAt := Some 40\<rparr>"

fun unary_time :: "time \<Rightarrow> string" where
  "unary_time t = (if t < 0 then CHR ''-'' else CHR ''+'') # replicate (nat \<bar>t\<bar>) CHR ''1''"

fun unary_parse :: "string \<Rightarrow> time option" where
  "unary_parse [] = None"
| "unary_parse (c # cs) = Some (if c = CHR ''-'' then - int (length cs) else int (length cs))"

definition plain_json :: JsonLib where
  "plain_json = \<lparr>js_marshal = (\<lambda>kvs. if kvs = [] then Some ''{}'' else None), js_unmarshal = (\<lambda>b. if b = ''{}'' then Some [] else None),
     js_float = of_int, js_base64 = id, js_time = unary_time, js_parse = unary_parse, js_attachments = (\<lambda>_. VNil)\<rparr>"

definition wit_json :: JsonLib where
  "wit_json = plain_json\<lparr>js_marshal := (\<lambda>kvs. if kvs = messageJobData plain_json wit_later then Some ''{m}'' else None),
     js_unmarshal := (\<lambda>b. if b = ''{m}'' then Some (json_fields plain_json (messageJobData plain_json wit_later)) else None)\<rparr>"

lemma json_trip_cong:
  "js_float js = js_float js' \<Longrightarrow> js_base64 js = js_base64 js' \<Longrightarrow> json_trip js v = json_trip js' v"
  "js_float js = js_float js' \<Longrightarrow> js_base64 js = js_base64 js' \<Longrightarrow> json_list js vs = json_list js' vs"
  "js_float js = js_float js' \<Longrightarrow> js_base64 js = js_base64 js' \<Longrightarrow> json_fields js kvs = json_fields js' kvs"
  by (induction js v and js vs and js kvs rule: json_trip_json_list_json_fields.induct) auto

lemma wit_json_sel [simp]:
  "js_float wit_json = js_float plain_json" "js_base64 wit_json = js_base64 plain_json" "js_time wit_json = js_time plain_json"
  "js_parse wit_json = js_parse plain_json" "js_attachments wit_json = js_attachments plain_json"
  by (simp_all add: wit_json_def)

lemma wit_json_data: "messageJobData wit_json = messageJobData plain_json"
  by (rule ext) (simp add: messageJobData_def split: option.split)

lemma wit_json_laws: "json_laws wit_json"
proof -
  have "json_fields wit_json kvs = json_fields plain_json kvs" for kvs by (rule json_trip_cong(3)) simp_all
  then have "\<exists>jd. js_unmarshal wit_json b = Some jd \<and> map_of jd = map_of (json_fields wit_json kvs)" if "js_marshal wit_json kvs = Some b" for kvs b
    using that by (simp add: wit_json_def split: if_splits)
  moreover have "js_time plain_json t \<noteq> [] \<and> js_parse plain_json (js_time plain_json t) = Some t" "js_float plain_json n = of_int n" for t n
    by (simp_all add: plain_json_def)
  ultimately show ?thesis by (simp add: json_laws_def)
qed

lemma wit_text: "json_ok_fields (messageJobData plain_json wit_later)" "json_time (ms_CreatedAt wit_later)"
  by code_simp+

theorem queued_message_round_trip_witness:
  "map_option (jobDataToMessage wit_json) (Option.bind (j_Payload (mail_job wit_json 0 ml_DefaultConfig wit_later)) (js_unmarshal wit_json))
    = Some wit_later"
proof -
  have "\<bar>ms_Priority wit_later\<bar> \<le> 2 ^ 53" by (simp add: wit_later_def Message_zero_def)
  moreover have "js_marshal wit_json (messageJobData wit_json wit_later) = Some ''{m}''"
    unfolding wit_json_data by (simp add: wit_json_def)
  moreover have "json_ok_fields (messageJobData wit_json wit_later)" "json_time (ms_CreatedAt wit_later)"
    by (simp_all add: wit_json_data wit_text)
  moreover have "json_time t" if "ms_ScheduleAt wit_later = Some t" for t using that by (simp add: wit_later_def json_time_def)
  ultimately show ?thesis
    using queued_message_round_trip [OF wit_json_laws, of wit_later "''{m}''"] by (simp add: wit_later_def Message_zero_def)
qed

definition wit_mgr :: "unit MailManager" where
  "wit_mgr = \<lparr>mm_config = ml_DefaultConfig, mm_server = None,
     mm_templates = \<lparr>tm_config = mc_Templates ml_DefaultConfig, tm_templates = Map.empty, tm_funcs = Map.empty, tm_Error = None\<rparr>,
     mm_has_queue = True,
     mm_stats = \<lparr>st_SentCount = 0, st_FailedCount = 0, st_QueuedCount = 0, st_ReceivedCount = 0, st_LastSent = None, st_LastReceived = None\<rparr>,
     mm_running = True, mm_cancelled = False\<rparr>"

definition wit_q :: Manager where
  "wit_q = snd (mg_Start (NewManager (\<lambda>_. Job_zero)))"

definition wit_first :: "async_error option \<times> unit MailManager \<times> Manager" where
  "wit_first = mm_SendAsync wit_json ''u'' 20 7 wit_later wit_mgr wit_q"

definition wit_second :: "async_error option \<times> unit MailManager \<times> Manager" where
  "wit_second = mm_SendAsync wit_json ''u'' 30 8 wit_later (fst (snd wit_first)) (snd (snd wit_first))"

lemma SendAsync_succeeds:
  assumes "mm_running m" "qc_Enabled (mc_Queue (mm_config m))" "mm_has_queue m" "mg_running q" "\<not> mq_closed (mg_queue q)"
  shows "fst (mm_SendAsync js u now r msg m q) = None" "mm_running (fst (snd (mm_SendAsync js u now r msg m q)))"
    "mm_config (fst (snd (mm_SendAsync js u now r msg m q))) = mm_config m" "mm_has_queue (fst (snd (mm_SendAsync js u now r msg m q)))"
    "mg_running (snd (snd (mm_SendAsync js u now r msg m q)))" "\<not> mq_closed (mg_queue (snd (snd (mm_SendAsync js u now r msg m q))))"
  using assms
  by (auto simp: mm_SendAsync_def mg_Enqueue_def queue_enqueue_def mq_Enqueue_def default_attempts_def upd_job_def mq_notify_def
      mq_push_def upd_mail_stats_def Let_def split: prod.splits if_splits)

theorem second_scheduled_mail_replaces_first_witness:
  "fst wit_first = None \<and> fst wit_second = None \<and> (7 :: nat) \<notin> ran (mq_scheduledJobs (mg_queue (snd (snd wit_second))))
   \<and> st_QueuedCount (mm_stats (fst (snd wit_second))) = 2"
proof -
  have m: "mm_running wit_mgr" "qc_Enabled (mc_Queue (mm_config wit_mgr))" "mm_has_queue wit_mgr" "st_QueuedCount (mm_stats wit_mgr) = 0"
    by (simp_all add: wit_mgr_def ml_DefaultConfig_def)
  have q: "mg_running wit_q" "\<not> mq_closed (mg_queue wit_q)" "mq_pendingJobs (mg_queue wit_q) = []" "mq_scheduledJobs (mg_queue wit_q) = Map.empty"
    by (simp_all add: wit_q_def mg_Start_def NewManager_def NewMemoryQueue_def)
  note first = SendAsync_succeeds [OF m(1-3) q(1,2), of wit_json "''u''" 20 7 wit_later, folded wit_first_def]
  have en: "qc_Enabled (mc_Queue (mm_config (fst (snd wit_first))))" using first(3) m(2) by simp
  note second = SendAsync_succeeds [OF first(2) en first(4,5,6), of wit_json "''u''" 30 8 wit_later, folded wit_second_def]
  have s1: "mm_SendAsync wit_json ''u'' 20 7 wit_later wit_mgr wit_q = (None, fst (snd wit_first), snd (snd wit_first))"
    unfolding wit_first_def [symmetric] using first(1) by (simp add: prod_eq_iff)
  have s2: "mm_SendAsync wit_json ''u'' 30 8 wit_later (fst (snd wit_first)) (snd (snd wit_first)) = (None, fst (snd wit_second), snd (snd wit_second))"
    unfolding wit_second_def [symmetric] using second(1) by (simp add: prod_eq_iff)
  have t: "ms_ScheduleAt wit_later = Some 40" by (simp add: wit_later_def)
  show ?thesis
    using second_scheduled_mail_replaces_first [OF s1 s2 t _ _ t] first(1) second(1) m(4) q by simp
qed

end
