(* ===== verification/Encoding.thy ===== *)
theory Encoding
  imports GoStrings
begin

text \<open>
  What the security package uses of \<open>encoding/base64\<close> (the standard encoding with padding) and
  \<open>encoding/hex\<close>. A byte is a character. The decoder skips carriage returns and line feeds and ignores
  the unused bits of a padded group, as Go's does.
\<close>

section \<open>Base64\<close>

definition b64_alphabet :: string where
  "b64_alphabet = ''ABCDEFGHIJKLMNOPQRSTUVWXYZabcdefghijklmnopqrstuvwxyz0123456789+/''"

definition b64_char :: "nat \<Rightarrow> char" where
  "b64_char n = b64_alphabet ! n"

fun index_of :: "'a \<Rightarrow> 'a list \<Rightarrow> nat option" where
  "index_of c [] = None"
| "index_of c (x # xs) = (if x = c then Some 0 else map_option Suc (index_of c xs))"

definition b64_val :: "char \<Rightarrow> nat option" where
  "b64_val c = index_of c b64_alphabet"

definition byte_val :: "char \<Rightarrow> nat" where
  "byte_val c = of_char c"

definition byte_of :: "nat \<Rightarrow> char" where
  "byte_of n = char_of (n mod 256)"

fun b64_encode :: "bytes \<Rightarrow> string" where
  "b64_encode [] = []"
| "b64_encode [a] = (let n = byte_val a * 16 in [b64_char (n div 64), b64_char (n mod 64), CHR ''='', CHR ''=''])"
| "b64_encode [a, b] =
     (let n = (byte_val a * 256 + byte_val b) * 4
      in [b64_char (n div 4096), b64_char (n div 64 mod 64), b64_char (n mod 64), CHR ''=''])"
| "b64_encode (a # b # c # cs) =
     (let n = (byte_val a * 256 + byte_val b) * 256 + byte_val c
      in [b64_char (n div 262144), b64_char (n div 4096 mod 64), b64_char (n div 64 mod 64), b64_char (n mod 64)] @ b64_encode cs)"

text \<open>Groups of four; padding only in the last group, after two or three characters.\<close>

fun b64_groups :: "string \<Rightarrow> bytes option" where
  "b64_groups [] = Some []"
| "b64_groups (a # b # c # d # cs) =
     (case (b64_val a, b64_val b) of
        (Some x, Some y) \<Rightarrow>
          if c = CHR ''='' \<and> d = CHR ''='' \<and> cs = [] then Some [byte_of ((x * 64 + y) div 16)]
          else (case b64_val c of
                  None \<Rightarrow> None
                | Some z \<Rightarrow>
                    if d = CHR ''='' \<and> cs = []
                    then (let n = ((x * 64 + y) * 64 + z) div 4 in Some [byte_of (n div 256), byte_of n])
                    else (case b64_val d of
                            None \<Rightarrow> None
                          | Some w \<Rightarrow>
                              (let n = ((x * 64 + y) * 64 + z) * 64 + w
                               in map_option (\<lambda>bs. [byte_of (n div 65536), byte_of (n div 256), byte_of n] @ bs) (b64_groups cs))))
      | _ \<Rightarrow> None)"
| "b64_groups _ = None"

definition b64_decode :: "string \<Rightarrow> bytes option" where
  "b64_decode s = b64_groups (filter (\<lambda>c. c \<noteq> CHR 0x0A \<and> c \<noteq> CHR 0x0D) s)"

section \<open>Hex\<close>

definition hex_char :: "nat \<Rightarrow> char" where
  "hex_char n = ''0123456789abcdef'' ! n"

definition hex_encode :: "bytes \<Rightarrow> string" where
  "hex_encode bs = concat (map (\<lambda>b. [hex_char (byte_val b div 16), hex_char (byte_val b mod 16)]) bs)"

lemma length_hex_encode [simp]: "length (hex_encode bs) = 2 * length bs"
  by (induction bs) (simp_all add: hex_encode_def)

section \<open>The round trip\<close>

lemma b64_alphabet_nth: "n < 64 \<Longrightarrow> b64_val (b64_char n) = Some n \<and> b64_char n \<notin> {CHR ''='', CHR 0x0A, CHR 0x0D}"
proof -
  have "\<forall>n \<in> set [0..<64]. b64_val (b64_char n) = Some n \<and> b64_char n \<notin> {CHR ''='', CHR 0x0A, CHR 0x0D}" by code_simp
  then show "n < 64 \<Longrightarrow> ?thesis" by simp
qed

lemma b64_char_facts [simp]:
  assumes "n < 64"
  shows "b64_val (b64_char n) = Some n" "b64_char n \<noteq> CHR ''=''" "b64_char n \<noteq> CHR 0x0A" "b64_char n \<noteq> CHR 0x0D"
  using b64_alphabet_nth [OF assms] by simp_all

lemma byte_val_less [simp]: "byte_val c < 256"
  by (simp add: byte_val_def)

lemma byte_of_val: "n mod 256 = byte_val c \<Longrightarrow> byte_of n = c"
  by (simp add: byte_of_def byte_val_def)

text \<open>Splitting a number into sextets and putting it together again.\<close>

lemma sextets: "n div (m * 64) * 64 + n div m mod 64 = n div m" for n m :: nat
  by (simp add: div_mult2_eq)

lemma sextets2: "(n div 4096 * 64 + n div 64 mod 64) * 64 + n mod 64 = n" for n :: nat
  using sextets [of n 64] by simp

lemma sextets3: "((n div 262144 * 64 + n div 4096 mod 64) * 64 + n div 64 mod 64) * 64 + n mod 64 = n" for n :: nat
  using sextets [of n 4096] sextets [of n 64] by simp

lemma last_byte: "byte_of (x * 256 + byte_val c) = c" "(x * 256 + byte_val c) div 256 = x"
  using byte_val_less [of c] by (simp_all add: byte_of_val)

lemma first_byte: "byte_of (byte_val c) = c"
  by (simp add: byte_of_val)

lemma first_sextet:
  "byte_val a * 16 div 64 < 64" "(byte_val a * 256 + byte_val b) * 4 div 4096 < 64"
  "((byte_val a * 256 + byte_val b) * 256 + byte_val c) div 262144 < 64"
  using byte_val_less [of a] byte_val_less [of b] byte_val_less [of c] by (auto simp: div_less_iff_less_mult simp del: byte_val_less)

lemma bytes3:
  assumes "n = (byte_val a * 256 + byte_val b) * 256 + byte_val c"
  shows "byte_of (n div 65536) = a" "byte_of (n div 256) = b" "byte_of n = c"
proof -
  have "n div 65536 = n div 256 div 256" by (simp add: div_mult2_eq)
  then show "byte_of (n div 65536) = a" "byte_of (n div 256) = b" "byte_of n = c"
    by (simp_all only: assms last_byte first_byte)
qed

lemma b64_groups_encode: "b64_groups (b64_encode s) = Some s"
proof (induction s rule: b64_encode.induct)
  case (2 a)
  define n where "n = byte_val a * 16"
  then have "n div 64 < 64" "byte_of (n div 16) = a" using first_sextet(1) [of a] by (simp_all add: first_byte)
  then show ?case unfolding b64_encode.simps n_def [symmetric] Let_def b64_groups.simps by simp
next
  case (3 a b)
  define n where "n = (byte_val a * 256 + byte_val b) * 4"
  then have n: "n div 4096 < 64" "n div 4 = byte_val a * 256 + byte_val b" using first_sextet(2) [of a b] by simp_all
  have "byte_of (n div 4 div 256) = a" "byte_of (n div 4) = b" unfolding n(2) by (simp_all only: last_byte first_byte)
  then show ?case using n(1) unfolding b64_encode.simps n_def [symmetric] Let_def b64_groups.simps by (simp add: sextets2 del: distrib_right_numeral)
next
  case (4 a b c cs)
  define n where "n = (byte_val a * 256 + byte_val b) * 256 + byte_val c"
  note bytes3 [OF n_def] first_sextet(3) [of a b c, folded n_def]
  then show ?case using 4 unfolding b64_encode.simps n_def [symmetric] Let_def append_Cons append_Nil b64_groups.simps by (simp add: sextets3 del: distrib_right_numeral)
qed simp

lemma b64_encode_no_newline: "c \<in> set (b64_encode s) \<Longrightarrow> c \<noteq> CHR 0x0A \<and> c \<noteq> CHR 0x0D"
proof (induction s rule: b64_encode.induct)
  case (2 a)
  then show ?case using first_sextet(1) [of a] unfolding b64_encode.simps Let_def by auto
next
  case (3 a b)
  then show ?case using first_sextet(2) [of a b] unfolding b64_encode.simps Let_def by auto
next
  case (4 a b c cs)
  then show ?case using first_sextet(3) [of a b c] unfolding b64_encode.simps Let_def by auto
qed simp

theorem b64_round_trip: "b64_decode (b64_encode s) = Some s"
proof -
  have "filter (\<lambda>c. c \<noteq> CHR 0x0A \<and> c \<noteq> CHR 0x0D) (b64_encode s) = b64_encode s"
    using b64_encode_no_newline by (auto simp: filter_id_conv)
  then show ?thesis by (simp add: b64_decode_def b64_groups_encode)
qed

end
