(* ===== verification/Security.thy ===== *)
theory Security
  imports Encoding Calendar
begin

text \<open>
  The security package without PGP (\<open>security.go\<close>, \<open>aes.go\<close>, \<open>tls.go\<close> in \<open>src/security\<close>). Randomness, the
  primitives of \<open>crypto\<close>, files, certificates and the writer of the output are records of functions; what is
  assumed of them (\<open>gcm_law\<close>, \<open>file_laws\<close>, \<open>x509_laws\<close>) is what their documentation states.
\<close>

section \<open>The environment\<close>

record 'r Rand =
  rn_Read :: "nat \<Rightarrow> 'r \<Rightarrow> (string + bytes) \<times> 'r"
  rn_Int :: "nat \<Rightarrow> 'r \<Rightarrow> (string + nat) \<times> 'r"

datatype stat = Exists | NotExist | StatError string

record 'f Files =
  fs_Stat :: "string \<Rightarrow> 'f \<Rightarrow> stat"
  fs_WriteFile :: "string \<Rightarrow> bytes \<Rightarrow> 'f \<Rightarrow> string option \<times> 'f"
  fs_ReadFile :: "string \<Rightarrow> 'f \<Rightarrow> string + bytes"
  fs_Clean :: "string \<Rightarrow> string"

record Crypto =
  cr_SHA256 :: "bytes \<Rightarrow> bytes"
  cr_MD5 :: "bytes \<Rightarrow> bytes"
  cr_XX :: "bytes \<Rightarrow> nat"
  cr_NewGCM :: "bytes \<Rightarrow> string option"
  cr_Seal :: "bytes \<Rightarrow> bytes \<Rightarrow> bytes \<Rightarrow> bytes"
  cr_Open :: "bytes \<Rightarrow> bytes \<Rightarrow> bytes \<Rightarrow> string + bytes"

section \<open>Random bytes and hashes\<close>

definition GetRandomBytes :: "'r Rand \<Rightarrow> nat \<Rightarrow> 'r \<Rightarrow> (serr + bytes) \<times> 'r" where
  "GetRandomBytes rn n r =
     (case rn_Read rn n r of (Inl e, r) \<Rightarrow> (Inl (SWrap e), r) | (Inr bs, r) \<Rightarrow> (Inr bs, r))"

definition SHA256 :: "Crypto \<Rightarrow> bytes \<Rightarrow> string" where
  "SHA256 cr inp = hex_encode (cr_SHA256 cr inp)"

definition XX :: "Crypto \<Rightarrow> bytes \<Rightarrow> nat" where
  "XX cr inp = cr_XX cr inp"

text \<open>\<open>sprint\<close> is \<open>fmt.Sprintf\<close> with \<open>%v\<close>.\<close>

definition Md5 :: "Crypto \<Rightarrow> ('a \<Rightarrow> string) \<Rightarrow> 'a \<Rightarrow> string" where
  "Md5 cr sprint v = hex_encode (cr_MD5 cr (sprint v))"

definition StringToKey32Bytes :: "Crypto \<Rightarrow> string \<Rightarrow> bytes" where
  "StringToKey32Bytes cr inp = cr_SHA256 cr inp"

definition StringToKey32 :: "Crypto \<Rightarrow> string \<Rightarrow> string" where
  "StringToKey32 cr inp = take 32 (hex_encode (cr_SHA256 cr inp))"

definition GetRandomBytesBase64 :: "'r Rand \<Rightarrow> nat \<Rightarrow> 'r \<Rightarrow> (serr + string) \<times> 'r" where
  "GetRandomBytesBase64 rn n r =
     (case GetRandomBytes rn n r of (Inl e, r) \<Rightarrow> (Inl (SWrapErr e), r) | (Inr bs, r) \<Rightarrow> (Inr (b64_encode bs), r))"

section \<open>Passwords\<close>

definition password_letters :: string where
  "password_letters = ''abcdefghijklmnopqrstuvwxyzABCDEFGHIJKLMNOPQRSTUVWXYZ0123456789.-#!+/''"

fun gen_letters :: "'r Rand \<Rightarrow> nat \<Rightarrow> 'r \<Rightarrow> (serr + string) \<times> 'r" where
  "gen_letters rn 0 r = (Inr [], r)"
| "gen_letters rn (Suc n) r =
     (case rn_Int rn (length password_letters) r of
        (Inl e, r) \<Rightarrow> (Inl (SWrap e), r)
      | (Inr i, r) \<Rightarrow>
          (case gen_letters rn n r of
             (Inl e, r) \<Rightarrow> (Inl e, r)
           | (Inr cs, r) \<Rightarrow> (Inr (password_letters ! i # cs), r)))"

definition GenerateRandomPassword :: "'r Rand \<Rightarrow> int \<Rightarrow> 'r \<Rightarrow> (serr + string) \<times> 'r" where
  "GenerateRandomPassword rn n r =
     (if n < 0 then (Inl (SErr ''password length cannot be negative''), r)
      else if n = 0 then (Inr [], r)
      else gen_letters rn (nat n) r)"

text \<open>\<open>None\<close> is the panic of slicing with a negative length.\<close>

definition ReadOrSavePassphrase ::
    "'r Rand \<Rightarrow> 'f Files \<Rightarrow> string \<Rightarrow> int \<Rightarrow> 'r \<Rightarrow> 'f \<Rightarrow> ((serr + bytes) \<times> 'r \<times> 'f) option" where
  "ReadOrSavePassphrase rn fs file n r f =
     (case fs_Stat fs file f of
        NotExist \<Rightarrow>
          (case GenerateRandomPassword rn n r of
             (Inl e, r) \<Rightarrow> Some (Inl (SWrapErr e), r, f)
           | (Inr pw, r) \<Rightarrow>
               (case fs_WriteFile fs file pw f of
                  (Some e, f) \<Rightarrow> Some (Inl (SWrap e), r, f)
                | (None, f) \<Rightarrow> Some (Inr pw, r, f)))
      | StatError e \<Rightarrow> Some (Inl (SWrap e), r, f)
      | Exists \<Rightarrow>
          (case fs_ReadFile fs (fs_Clean fs file) f of
             Inl e \<Rightarrow> Some (Inl (SWrap e), r, f)
           | Inr pw \<Rightarrow>
               if int (length pw) < n then Some (Inl (SErr ''passphrase is too short''), r, f)
               else if n < 0 then None
               else Some (Inr (take (nat n) pw), r, f)))"

section \<open>AES\<close>

record AesCipher =
  ae_passphrase :: bytes
  ae_Error :: "serr option"

definition NewAesCipher :: AesCipher where
  "NewAesCipher = \<lparr>ae_passphrase = [], ae_Error = None\<rparr>"

definition with_random_key :: "nat \<Rightarrow> 'r Rand \<Rightarrow> AesCipher \<Rightarrow> 'r \<Rightarrow> AesCipher \<times> 'r" where
  "with_random_key n rn a r =
     (case GetRandomBytes rn n r of
        (Inl e, r) \<Rightarrow> (a\<lparr>ae_passphrase := [], ae_Error := Some (SWrapErr e)\<rparr>, r)
      | (Inr bs, r) \<Rightarrow> (a\<lparr>ae_passphrase := bs\<rparr>, r))"

definition WithAES128 :: "'r Rand \<Rightarrow> AesCipher \<Rightarrow> 'r \<Rightarrow> AesCipher \<times> 'r" where
  "WithAES128 rn a r = with_random_key 16 rn a r"

definition WithAES192 :: "'r Rand \<Rightarrow> AesCipher \<Rightarrow> 'r \<Rightarrow> AesCipher \<times> 'r" where
  "WithAES192 rn a r = with_random_key 24 rn a r"

definition WithAES256 :: "'r Rand \<Rightarrow> AesCipher \<Rightarrow> 'r \<Rightarrow> AesCipher \<times> 'r" where
  "WithAES256 rn a r = with_random_key 32 rn a r"

definition ae_WithPassphrase :: "bytes \<Rightarrow> AesCipher \<Rightarrow> AesCipher" where
  "ae_WithPassphrase p a = a\<lparr>ae_passphrase := p\<rparr>"

text \<open>\<open>aes.NewCipher\<close> accepts keys of 16, 24 and 32 bytes; the nonce of GCM has 12.\<close>

definition aes_NewCipher :: "bytes \<Rightarrow> string option" where
  "aes_NewCipher key =
     (if length key \<in> {16, 24, 32} then None else Some (''crypto/aes: invalid key size '' @ Itoa (int (length key))))"

definition NonceSize :: nat where [simp]: "NonceSize = 12"

text \<open>
  A writer: \<open>None\<close> is a nil interface, on which \<open>Write\<close> panics, so the operations return an option. \<open>wr\<close> is
  its \<open>Write\<close>.
\<close>

definition write_out :: "string \<Rightarrow> (bytes \<Rightarrow> 'w \<Rightarrow> string option \<times> 'w) \<Rightarrow> bytes \<Rightarrow> AesCipher \<Rightarrow> 'w option \<Rightarrow> (AesCipher \<times> 'w option) option" where
  "write_out msg wr bs a out =
     (case out of
        None \<Rightarrow> None
      | Some w \<Rightarrow>
          (case wr bs w of
             (Some e, w) \<Rightarrow> Some (a\<lparr>ae_Error := Some (SErrWith msg e)\<rparr>, Some w)
           | (None, w) \<Rightarrow> Some (a, Some w)))"

definition aes_gcm :: "Crypto \<Rightarrow> bytes \<Rightarrow> serr option" where
  "aes_gcm cr key =
     (case aes_NewCipher key of
        Some e \<Rightarrow> Some (SErrWith ''failed to create AES cipher'' e)
      | None \<Rightarrow> map_option (SErrWith ''failed to create GCM cipher'') (cr_NewGCM cr key))"

definition ae_Encrypt ::
    "Crypto \<Rightarrow> 'r Rand \<Rightarrow> (bytes \<Rightarrow> 'w \<Rightarrow> string option \<times> 'w) \<Rightarrow> string \<Rightarrow> AesCipher \<Rightarrow> 'w option \<Rightarrow> 'r \<Rightarrow>
       (AesCipher \<times> 'w option \<times> 'r) option" where
  "ae_Encrypt cr rn wr plaintext a out r =
     (if ae_Error a \<noteq> None then Some (a, out, r)
      else case aes_gcm cr (ae_passphrase a) of
             Some e \<Rightarrow> Some (a\<lparr>ae_Error := Some e\<rparr>, out, r)
           | None \<Rightarrow>
               (case rn_Read rn NonceSize r of
                  (Inl e, r) \<Rightarrow> Some (a\<lparr>ae_Error := Some (SErrWith ''failed to read nonce'' e)\<rparr>, out, r)
                | (Inr nonce, r) \<Rightarrow>
                    map_option (\<lambda>(a, out). (a, out, r))
                      (write_out ''failed to write encrypted data'' wr
                         (b64_encode (nonce @ cr_Seal cr (ae_passphrase a) nonce plaintext)) a out)))"

definition ae_Decrypt ::
    "Crypto \<Rightarrow> (bytes \<Rightarrow> 'w \<Rightarrow> string option \<times> 'w) \<Rightarrow> string \<Rightarrow> AesCipher \<Rightarrow> 'w option \<Rightarrow> (AesCipher \<times> 'w option) option" where
  "ae_Decrypt cr wr ciphertext a out =
     (case b64_decode ciphertext of
        None \<Rightarrow> Some (a\<lparr>ae_Error := Some (SErrWith ''failed to decode base64 string'' ''illegal base64 data'')\<rparr>, out)
      | Some bs \<Rightarrow>
          (case aes_gcm cr (ae_passphrase a) of
             Some e \<Rightarrow> Some (a\<lparr>ae_Error := Some e\<rparr>, out)
           | None \<Rightarrow>
               if length bs < NonceSize then Some (a\<lparr>ae_Error := Some (SErr ''ciphertext too short'')\<rparr>, out)
               else (case cr_Open cr (ae_passphrase a) (take NonceSize bs) (drop NonceSize bs) of
                       Inl e \<Rightarrow> Some (a\<lparr>ae_Error := Some (SErrWith ''failed to decrypt data'' e)\<rparr>, out)
                     | Inr plaintext \<Rightarrow> write_out ''failed to write decrypted data'' wr plaintext a out)))"

section \<open>Certificates\<close>

datatype KeyUse = KeyUsageDigitalSignature | KeyUsageKeyEncipherment | KeyUsageCertSign | ExtKeyUsageClientAuth | ExtKeyUsageServerAuth

text \<open>A \<open>pkix.Name\<close>: the attributes that are set.\<close>

type_synonym pkix_Name = "(string \<times> string list) list"

record X509Cert =
  xc_SerialNumber :: int
  xc_Subject :: pkix_Name
  xc_NotBefore :: time
  xc_NotAfter :: time
  xc_IsCA :: bool
  xc_ExtKeyUsage :: "KeyUse list"
  xc_KeyUsage :: "KeyUse list"
  xc_BasicConstraintsValid :: bool
  xc_IPAddresses :: "string list"
  xc_DNSNames :: "string list"

text \<open>A \<open>tls.Certificate\<close> is its chain of encoded certificates; a pool is a list of them.\<close>

record Certificate =
  ct_Certificate :: "bytes list"
  ct_PrivateKey :: bytes

record tls_Config =
  tc_Certificates :: "Certificate list"
  tc_ClientCAs :: "bytes list option"
  tc_ClientAuth :: int
  tc_MinVersion :: int

record 'r X509 =
  x5_LoadX509KeyPair :: "string \<Rightarrow> string \<Rightarrow> string + Certificate"
  x5_ReadFile :: "string \<Rightarrow> string + bytes"
  x5_Clean :: "string \<Rightarrow> string"
  x5_ParseCertificate :: "bytes \<Rightarrow> string + X509Cert"
  x5_GenerateKey :: "nat \<Rightarrow> 'r \<Rightarrow> (string + bytes) \<times> 'r"
  x5_CreateCertificate :: "X509Cert \<Rightarrow> bytes \<Rightarrow> 'r \<Rightarrow> (string + bytes) \<times> 'r"
  x5_PemEncode :: "string \<Rightarrow> bytes \<Rightarrow> string + bytes"
  x5_X509KeyPair :: "bytes \<Rightarrow> bytes \<Rightarrow> string + Certificate"
  x5_PemCertificates :: "bytes \<Rightarrow> bytes list"

definition VersionTLS12 :: int where
  "VersionTLS12 = 771"

definition NewTLSConfig :: "Certificate \<Rightarrow> bytes list option \<Rightarrow> int \<Rightarrow> tls_Config" where
  "NewTLSConfig cert caPool clientAuth =
     \<lparr>tc_Certificates = [cert], tc_ClientCAs = caPool, tc_ClientAuth = clientAuth, tc_MinVersion = VersionTLS12\<rparr>"

definition LoadCertificate :: "'r X509 \<Rightarrow> string \<Rightarrow> string \<Rightarrow> serr + Certificate" where
  "LoadCertificate x certFile keyFile =
     (case x5_LoadX509KeyPair x certFile keyFile of Inl e \<Rightarrow> Inl (SErrWith ''failed to load certificate'' e) | Inr c \<Rightarrow> Inr c)"

text \<open>\<open>AppendCertsFromPEM\<close> reports whether it found any certificate.\<close>

definition AppendCertsFromPEM :: "'r X509 \<Rightarrow> bytes \<Rightarrow> bytes list \<Rightarrow> bool \<times> bytes list" where
  "AppendCertsFromPEM x pem pool = (x5_PemCertificates x pem \<noteq> [], pool @ x5_PemCertificates x pem)"

definition LoadCACertPool :: "'r X509 \<Rightarrow> string \<Rightarrow> serr + bytes list" where
  "LoadCACertPool x caFile =
     (case x5_ReadFile x (x5_Clean x caFile) of
        Inl e \<Rightarrow> Inl (SErrWith ''failed to read CA certificate'' e)
      | Inr pem \<Rightarrow>
          (case AppendCertsFromPEM x pem [] of
             (False, _) \<Rightarrow> Inl (SErr ''failed to append CA certificate'')
           | (True, pool) \<Rightarrow> Inr pool))"

fun any_expired :: "'r X509 \<Rightarrow> time \<Rightarrow> bytes list \<Rightarrow> serr + bool" where
  "any_expired x now [] = Inr False"
| "any_expired x now (c # cs) =
     (case x5_ParseCertificate x c of
        Inl e \<Rightarrow> Inl (SErrWith ''failed to parse certificate'' e)
      | Inr cert \<Rightarrow> if xc_NotAfter cert < now then Inr True else any_expired x now cs)"

definition IsCertificateExpired :: "'r X509 \<Rightarrow> time \<Rightarrow> Certificate \<Rightarrow> serr + bool" where
  "IsCertificateExpired x now cert =
     (if ct_Certificate cert = [] then Inl (SErr ''certificate chain is empty'') else any_expired x now (ct_Certificate cert))"

text \<open>\<open>fmt_time\<close> prints an instant. The clock is read once for the chain.\<close>

fun validate_chain :: "'r X509 \<Rightarrow> (time \<Rightarrow> string) \<Rightarrow> time \<Rightarrow> bytes list \<Rightarrow> serr option" where
  "validate_chain x fmt_time now [] = None"
| "validate_chain x fmt_time now (c # cs) =
     (case x5_ParseCertificate x c of
        Inl e \<Rightarrow> Some (SErrWith ''failed to parse certificate'' e)
      | Inr cert \<Rightarrow>
          if now < xc_NotBefore cert then Some (SErr (''certificate not valid before '' @ fmt_time (xc_NotBefore cert)))
          else if xc_NotAfter cert < now then Some (SErr (''certificate expired on '' @ fmt_time (xc_NotAfter cert)))
          else validate_chain x fmt_time now cs)"

definition ValidateCertificate :: "'r X509 \<Rightarrow> (time \<Rightarrow> string) \<Rightarrow> time \<Rightarrow> Certificate \<Rightarrow> serr option" where
  "ValidateCertificate x fmt_time now cert =
     (if ct_Certificate cert = [] then Some (SErr ''certificate chain is empty'') else validate_chain x fmt_time now (ct_Certificate cert))"

definition LoadCertAndConfig ::
    "'r X509 \<Rightarrow> (time \<Rightarrow> string) \<Rightarrow> time \<Rightarrow> string \<Rightarrow> string \<Rightarrow> string \<Rightarrow> int \<Rightarrow> serr + tls_Config" where
  "LoadCertAndConfig x fmt_time now certFile keyFile caFile clientAuth =
     (case LoadCertificate x certFile keyFile of
        Inl e \<Rightarrow> Inl (SWrapErr e)
      | Inr cert \<Rightarrow>
          (case ValidateCertificate x fmt_time now cert of
             Some e \<Rightarrow> Inl (SWrapErr e)
           | None \<Rightarrow>
               if caFile \<noteq> [] then
                 (case LoadCACertPool x caFile of
                    Inl e \<Rightarrow> Inl (SWrapErr e)
                  | Inr pool \<Rightarrow> Inr (NewTLSConfig cert (Some pool) clientAuth))
               else Inr (NewTLSConfig cert None clientAuth)))"

text \<open>\<open>AddDate(1, 0, 0)\<close>: the same date and time a year later, where February 29 becomes March 1.\<close>

definition AddYear :: "time \<Rightarrow> time" where
  "AddYear t = (case to_civil t of (y, mo, d, h, mi, s) \<Rightarrow> Date (y + 1) mo d h mi s + t mod second)"

definition GenerateSelfSignedCertificate ::
    "'r X509 \<Rightarrow> time \<Rightarrow> pkix_Name \<Rightarrow> 'r \<Rightarrow> (serr + Certificate \<times> bytes list) \<times> 'r" where
  "GenerateSelfSignedCertificate x now subject r =
     (let ca = \<lparr>xc_SerialNumber = now div second - 62135596800, xc_Subject = subject, xc_NotBefore = now, xc_NotAfter = AddYear now,
                xc_IsCA = True, xc_ExtKeyUsage = [ExtKeyUsageClientAuth, ExtKeyUsageServerAuth],
                xc_KeyUsage = [KeyUsageDigitalSignature, KeyUsageCertSign], xc_BasicConstraintsValid = True, xc_IPAddresses = [], xc_DNSNames = []\<rparr> in
      case x5_GenerateKey x 4096 r of
        (Inl e, r) \<Rightarrow> (Inl (SErrWith ''failed to generate private key'' e), r)
      | (Inr priv, r) \<Rightarrow>
          (case x5_CreateCertificate x ca priv r of
             (Inl e, r) \<Rightarrow> (Inl (SErrWith ''failed to create certificate'' e), r)
           | (Inr der, r) \<Rightarrow>
               (case x5_PemEncode x ''CERTIFICATE'' der of
                  Inl e \<Rightarrow> (Inl (SErrWith ''failed to encode certificate'' e), r)
                | Inr caPEM \<Rightarrow>
                    (case x5_PemEncode x ''RSA PRIVATE KEY'' priv of
                       Inl e \<Rightarrow> (Inl (SErrWith ''failed to encode private key'' e), r)
                     | Inr keyPEM \<Rightarrow>
                         (case x5_X509KeyPair x caPEM keyPEM of
                            Inl e \<Rightarrow> (Inl (SErrWith ''failed to load X509 key pair'' e), r)
                          | Inr cert \<Rightarrow>
                              (case AppendCertsFromPEM x caPEM [] of
                                 (False, _) \<Rightarrow> (Inl (SErr ''failed to append CA certificate to pool''), r)
                               | (True, pool) \<Rightarrow> (Inr (cert, pool), r)))))))"

section \<open>Passwords and passphrases\<close>

lemma gen_letters_ok:
  assumes "\<And>r i r'. rn_Int rn (length password_letters) r = (Inr i, r') \<Longrightarrow> i < length password_letters"
  shows "gen_letters rn n r = (Inr pw, r') \<Longrightarrow> length pw = n \<and> set pw \<subseteq> set password_letters"
proof (induction n arbitrary: r pw)
  case (Suc n)
  then obtain i r1 cs r2 where "rn_Int rn (length password_letters) r = (Inr i, r1)" "gen_letters rn n r1 = (Inr cs, r2)"
    "pw = password_letters ! i # cs"
    by (auto split: prod.splits sum.splits)
  with Suc.IH [of r1 cs] Suc.prems assms show ?case by (fastforce split: prod.splits sum.splits)
qed simp

text \<open>What \<open>rand.Int\<close> and \<open>rand.Read\<close> promise, and what the operating system promises of a file just written.\<close>

definition rand_law :: "'r Rand \<Rightarrow> bool" where
  "rand_law rn \<longleftrightarrow> (\<forall>n r i r'. rn_Int rn n r = (Inr i, r') \<longrightarrow> i < n) \<and> (\<forall>n r bs r'. rn_Read rn n r = (Inr bs, r') \<longrightarrow> length bs = n)"

definition file_laws :: "'f Files \<Rightarrow> bool" where
  "file_laws fs \<longleftrightarrow> (\<forall>file bs f f'. fs_WriteFile fs file bs f = (None, f') \<longrightarrow>
     fs_Stat fs file f' = Exists \<and> fs_ReadFile fs (fs_Clean fs file) f' = Inr bs)"

text \<open>
  A passphrase is made once: the call that creates the file returns a password of the asked length over the
  alphabet, and every later call returns the same and leaves the file alone.
\<close>

theorem passphrase_stable:
  assumes "rand_law rn" "file_laws fs" "fs_Stat fs file f = NotExist"
    and first: "ReadOrSavePassphrase rn fs file n r f = Some (Inr pw, r1, f1)"
  shows "int (length pw) = n \<and> set pw \<subseteq> set password_letters \<and> ReadOrSavePassphrase rn fs file n r2 f1 = Some (Inr pw, r2, f1)"
proof -
  from first assms(3) have gen: "GenerateRandomPassword rn n r = (Inr pw, r1)" and w: "fs_WriteFile fs file pw f = (None, f1)"
    by (auto simp: ReadOrSavePassphrase_def split: prod.splits sum.splits option.splits)
  have "0 \<le> n \<and> length pw = nat n \<and> set pw \<subseteq> set password_letters"
    using gen gen_letters_ok [of rn "nat n" r pw r1] assms(1)
    by (auto simp: GenerateRandomPassword_def rand_law_def split: if_splits)
  moreover have "fs_Stat fs file f1 = Exists" "fs_ReadFile fs (fs_Clean fs file) f1 = Inr pw"
    using assms(2) w by (simp_all add: file_laws_def)
  ultimately show ?thesis by (auto simp: ReadOrSavePassphrase_def)
qed

section \<open>Encryption\<close>

text \<open>Opening with the key and nonce of the seal gives the plaintext back.\<close>

definition gcm_law :: "Crypto \<Rightarrow> bool" where
  "gcm_law cr \<longleftrightarrow> (\<forall>key nonce p. length nonce = NonceSize \<longrightarrow> cr_Open cr key nonce (cr_Seal cr key nonce p) = Inr p)"

text \<open>A \<open>bytes.Buffer\<close>.\<close>

definition buffer_write :: "bytes \<Rightarrow> bytes \<Rightarrow> string option \<times> bytes" where
  "buffer_write bs w = (None, w @ bs)"

lemma write_out_buffer [simp]: "write_out msg buffer_write bs a (Some w) = Some (a, Some (w @ bs))"
  by (simp add: write_out_def buffer_write_def)

text \<open>
  C24: A cipher that encrypts without error writes a text that a cipher with the same passphrase decrypts to
  the plaintext, whatever the nonce; a key of another size than 16, 24 or 32 bytes writes nothing and leaves
  an error; and with such a key and a source of randomness that does not fail, it encrypts without error.
\<close>

theorem aes_round_trip:
  assumes law: "gcm_law cr" and rnd: "rand_law rn"
    and enc: "ae_Encrypt cr rn buffer_write plain a (Some []) r = Some (a1, Some w, r1)" and fresh: "ae_Error a = None"
  shows "(ae_Error a1 = None \<longrightarrow> (\<forall>b out. ae_passphrase b = ae_passphrase a \<longrightarrow>
       ae_Decrypt cr buffer_write w b (Some out) = Some (b, Some (out @ plain)))) \<and>
    (length (ae_passphrase a) \<notin> {16, 24, 32} \<longrightarrow> ae_Error a1 \<noteq> None \<and> w = []) \<and>
    (length (ae_passphrase a) \<in> {16, 24, 32} \<and> cr_NewGCM cr (ae_passphrase a) = None \<and> rn_Read rn NonceSize r = (Inr nonce, r2) \<longrightarrow>
       ae_Error a1 = None)"
proof (intro conjI impI allI)
  fix b :: AesCipher and out assume ok: "ae_Error a1 = None" and key: "ae_passphrase b = ae_passphrase a"
  from enc fresh ok have gcm: "aes_gcm cr (ae_passphrase a) = None"
    by (auto simp: ae_Encrypt_def split: option.splits)
  with enc fresh ok obtain nonce r2 where n: "rn_Read rn NonceSize r = (Inr nonce, r2)"
    and w: "w = b64_encode (nonce @ cr_Seal cr (ae_passphrase a) nonce plain)"
    by (auto simp: ae_Encrypt_def simp del: NonceSize_def split: prod.splits sum.splits)
  have "length nonce = NonceSize" using rnd n unfolding rand_law_def by blast
  then show "ae_Decrypt cr buffer_write w b (Some out) = Some (b, Some (out @ plain))"
    using law gcm key by (simp add: ae_Decrypt_def w b64_round_trip gcm_law_def)
next
  assume "length (ae_passphrase a) \<notin> {16, 24, 32}"
  then have "ae_Encrypt cr rn buffer_write plain a (Some []) r = Some (a1, Some w, r1) \<Longrightarrow> ae_Error a1 \<noteq> None \<and> w = []"
    using fresh by (auto simp: ae_Encrypt_def aes_gcm_def aes_NewCipher_def)
  with enc show "ae_Error a1 \<noteq> None" "w = []" by simp_all
next
  assume "length (ae_passphrase a) \<in> {16, 24, 32} \<and> cr_NewGCM cr (ae_passphrase a) = None \<and> rn_Read rn NonceSize r = (Inr nonce, r2)"
  then show "ae_Error a1 = None"
    using enc fresh by (auto simp: ae_Encrypt_def aes_gcm_def aes_NewCipher_def simp del: NonceSize_def)
qed

text \<open>Nothing but authenticated plaintext is ever written by \<open>Decrypt\<close>.\<close>

theorem aes_decrypt_authentic:
  assumes "ae_Decrypt cr buffer_write c a (Some w) = Some (a1, Some w1)"
  shows "(ae_Error a1 = ae_Error a \<or> w1 = w) \<and> (w1 \<noteq> w \<longrightarrow> (\<exists>bs p. b64_decode c = Some bs \<and> NonceSize \<le> length bs \<and>
    cr_Open cr (ae_passphrase a) (take NonceSize bs) (drop NonceSize bs) = Inr p \<and> w1 = w @ p))"
  using assms by (auto simp: ae_Decrypt_def split: option.splits if_splits sum.splits)

section \<open>Certificates in use\<close>

definition cert_valid :: "'r X509 \<Rightarrow> time \<Rightarrow> bytes \<Rightarrow> bool" where
  "cert_valid x now c \<longleftrightarrow> (case x5_ParseCertificate x c of Inl e \<Rightarrow> False | Inr cert \<Rightarrow> xc_NotBefore cert \<le> now \<and> now \<le> xc_NotAfter cert)"

lemma validate_chain_None: "validate_chain x fmt now cs = None \<longleftrightarrow> (\<forall>c \<in> set cs. cert_valid x now c)"
  by (induction cs) (auto simp: cert_valid_def split: sum.splits)

lemma any_expired_valid: "\<forall>c \<in> set cs. cert_valid x now c \<Longrightarrow> any_expired x now cs = Inr False"
  by (induction cs) (auto simp: cert_valid_def split: sum.splits)

text \<open>
  C32: \<open>LoadCertAndConfig\<close> returns a configuration exactly when the certificate loads, its chain is not empty
  and every certificate of it is within its dates, and a CA file, if one is given, yields a certificate; the
  configuration then has that certificate and pool and asks for TLS 1.2 at least, and the certificate is not
  reported as expired.
\<close>

theorem tls_config_only_valid:
  "LoadCertAndConfig x fmt now certFile keyFile caFile auth = Inr cfg \<longleftrightarrow>
     (\<exists>cert. x5_LoadX509KeyPair x certFile keyFile = Inr cert \<and> ct_Certificate cert \<noteq> [] \<and>
        (\<forall>c \<in> set (ct_Certificate cert). cert_valid x now c) \<and> IsCertificateExpired x now cert = Inr False \<and>
        (if caFile = [] then cfg = NewTLSConfig cert None auth
         else \<exists>pem. x5_ReadFile x (x5_Clean x caFile) = Inr pem \<and> x5_PemCertificates x pem \<noteq> [] \<and>
                cfg = NewTLSConfig cert (Some (x5_PemCertificates x pem)) auth))"
proof -
  have ca: "LoadCACertPool x caFile = Inr pool \<longleftrightarrow>
      (\<exists>pem. x5_ReadFile x (x5_Clean x caFile) = Inr pem \<and> x5_PemCertificates x pem \<noteq> [] \<and> pool = x5_PemCertificates x pem)" for pool
    by (auto simp: LoadCACertPool_def AppendCertsFromPEM_def split: sum.splits bool.splits)
  have v: "ValidateCertificate x fmt now cert = None \<longleftrightarrow>
      ct_Certificate cert \<noteq> [] \<and> (\<forall>c \<in> set (ct_Certificate cert). cert_valid x now c) \<and> IsCertificateExpired x now cert = Inr False" for cert
    using any_expired_valid by (auto simp: ValidateCertificate_def IsCertificateExpired_def validate_chain_None)
  show ?thesis
  proof (cases "x5_LoadX509KeyPair x certFile keyFile")
    case (Inr cert)
    show ?thesis
    proof (cases "ValidateCertificate x fmt now cert")
      case None
      with v [of cert] Inr ca show ?thesis by (auto simp: LoadCertAndConfig_def LoadCertificate_def split: sum.splits) blast
    next
      case (Some e)
      with v [of cert] Inr show ?thesis by (auto simp: LoadCertAndConfig_def LoadCertificate_def)
    qed
  qed (simp add: LoadCertAndConfig_def LoadCertificate_def)
qed

text \<open>A year later is 365 or 366 days later.\<close>

lemma days_before_month_leap:
  assumes "1 \<le> m"
  shows "days_before_month y m = days_before_month 1 m + (if m > 2 \<and> leap y then 1 else 0)"
  using assms
proof (induction m rule: int_ge_induct)
  case (step m)
  have "\<not> leap 1" by (simp add: leap_def)
  then have "days_in_month y m = days_in_month 1 m + (if m = 2 \<and> leap y then 1 else 0)" by (simp add: days_in_month_def)
  with step show ?case by (simp add: days_before_month_rec)
qed simp

lemma AddYear_days: "AddYear t = t + 365 * 24 * hour \<or> AddYear t = t + 366 * 24 * hour"
proof -
  obtain y mo d h mi s where c: "to_civil t = (y, mo, d, h, mi, s)" by (cases "to_civil t")
  have "valid_civil (y, mo, d, h, mi, s)" using to_civil_valid [of t] c by simp
  then have mo: "1 \<le> mo" "mo \<le> 12" by auto
  have "Date y mo d h mi s = t - t mod second" using of_civil_to_civil [of t] c by simp
  moreover have "Date_day (y + 1) mo d - Date_day y mo d \<in> {365, 366}"
  proof -
    have "y mod 4 = 0 \<longrightarrow> (y + 1) mod 4 \<noteq> 0" by presburger
    then have "\<not> (leap y \<and> leap (y + 1))" by (auto simp: leap_def)
    then show ?thesis
      using days_before_month_leap [OF mo(1), of y] days_before_month_leap [OF mo(1), of "y + 1"]
      by (simp add: Date_day_valid [OF mo] days_before_year_Suc days_before_month_13)
  qed
  ultimately show ?thesis by (auto simp: AddYear_def c Date_def)
qed

text \<open>
  What \<open>crypto/x509\<close> and \<open>encoding/pem\<close> document: an encoded certificate parses to the dates of its template in
  whole seconds (years 1 to 9999), and PEM and key pairs keep the encoded certificate.
\<close>

definition x509_laws :: "'r X509 \<Rightarrow> bool" where
  "x509_laws x \<longleftrightarrow>
     (\<forall>t priv r der r'. x5_CreateCertificate x t priv r = (Inr der, r') \<longrightarrow> 0 \<le> xc_NotBefore t \<longrightarrow> xc_NotAfter t < Date 10000 1 1 0 0 0 \<longrightarrow>
        (\<exists>c. x5_ParseCertificate x der = Inr c \<and> xc_NotBefore c = Truncate (xc_NotBefore t) second \<and> xc_NotAfter c = Truncate (xc_NotAfter t) second)) \<and>
     (\<forall>der pem. x5_PemEncode x ''CERTIFICATE'' der = Inr pem \<longrightarrow> x5_PemCertificates x pem = [der]) \<and>
     (\<forall>pem key cert. x5_X509KeyPair x pem key = Inr cert \<longrightarrow> ct_Certificate cert = x5_PemCertificates x pem)"

text \<open>A self-signed certificate validates for 365 days, but for the last second, and is its own pool.\<close>

theorem self_signed_valid:
  assumes laws: "x509_laws x" and gen: "GenerateSelfSignedCertificate x now subject r = (Inr (cert, pool), r')"
    and range: "0 \<le> now" "AddYear now < Date 10000 1 1 0 0 0" and t: "now \<le> t" "t \<le> now + 365 * 24 * hour - second"
  shows "ValidateCertificate x fmt t cert = None \<and> pool = ct_Certificate cert"
proof -
  define ca where "ca = \<lparr>xc_SerialNumber = now div second - 62135596800, xc_Subject = subject, xc_NotBefore = now, xc_NotAfter = AddYear now,
     xc_IsCA = True, xc_ExtKeyUsage = [ExtKeyUsageClientAuth, ExtKeyUsageServerAuth],
     xc_KeyUsage = [KeyUsageDigitalSignature, KeyUsageCertSign], xc_BasicConstraintsValid = True, xc_IPAddresses = [], xc_DNSNames = []\<rparr>"
  from gen obtain priv r1 der r2 pem key where "x5_CreateCertificate x ca priv r1 = (Inr der, r2)" "x5_PemEncode x ''CERTIFICATE'' der = Inr pem"
    "x5_X509KeyPair x pem key = Inr cert" "pool = x5_PemCertificates x pem"
    unfolding GenerateSelfSignedCertificate_def Let_def ca_def [symmetric]
    by (auto simp: AppendCertsFromPEM_def split: prod.splits sum.splits bool.splits)
  then have der: "x5_CreateCertificate x ca priv r1 = (Inr der, r2)" and chain: "ct_Certificate cert = [der]" "pool = [der]"
    using laws by (simp_all add: x509_laws_def)
  have "0 \<le> xc_NotBefore ca" "xc_NotAfter ca < Date 10000 1 1 0 0 0" using range by (simp_all add: ca_def)
  then obtain c where c: "x5_ParseCertificate x der = Inr c" "xc_NotBefore c = Truncate now second" "xc_NotAfter c = Truncate (AddYear now) second"
    using laws der unfolding x509_laws_def by (metis ca_def X509Cert.select_convs(3,4))
  have "Truncate now second \<le> now" "AddYear now - second < Truncate (AddYear now) second"
    by (simp_all add: Truncate_def)
  then have "xc_NotBefore c \<le> t" "t \<le> xc_NotAfter c" using t c AddYear_days [of now] by auto
  then show ?thesis using c chain by (simp add: ValidateCertificate_def)
qed

section \<open>Witness\<close>

text \<open>A source that yields zeros and a seal that appends a mark to the plaintext.\<close>

definition zero_rand :: "unit Rand" where
  "zero_rand = \<lparr>rn_Read = (\<lambda>n r. (Inr (replicate n CHR ''0''), r)), rn_Int = (\<lambda>n r. (if 0 < n then Inr 0 else Inl ''no range'', r))\<rparr>"

definition mark_crypto :: Crypto where
  "mark_crypto = \<lparr>cr_SHA256 = (\<lambda>b. replicate 32 CHR ''0''), cr_MD5 = (\<lambda>b. replicate 16 CHR ''0''), cr_XX = length, cr_NewGCM = (\<lambda>k. None),
     cr_Seal = (\<lambda>k n p. p @ ''!''),
     cr_Open = (\<lambda>k n c. if c \<noteq> [] \<and> last c = CHR ''!'' then Inr (butlast c) else Inl ''cipher: message authentication failed'')\<rparr>"

theorem aes_round_trip_witness:
  "let a = ae_WithPassphrase ''0123456789abcdef'' NewAesCipher; w = b64_encode (replicate 12 CHR ''0'' @ ''hi!'')
   in ae_Encrypt mark_crypto zero_rand buffer_write ''hi'' a (Some []) () = Some (a, Some w, ()) \<and>
      ae_Decrypt mark_crypto buffer_write w a (Some []) = Some (a, Some ''hi'')"
proof -
  let ?a = "ae_WithPassphrase ''0123456789abcdef'' NewAesCipher" and ?w = "b64_encode (replicate 12 CHR ''0'' @ ''hi!'')"
  have a: "ae_Error ?a = None" "ae_passphrase ?a = ''0123456789abcdef''" by (simp_all add: ae_WithPassphrase_def NewAesCipher_def)
  have "aes_gcm mark_crypto ''0123456789abcdef'' = None" by (simp add: aes_gcm_def aes_NewCipher_def mark_crypto_def)
  moreover have "rn_Read zero_rand 12 () = (Inr (replicate 12 CHR ''0''), ())" by (simp add: zero_rand_def)
  moreover have "cr_Seal mark_crypto k n ''hi'' = ''hi!''" for k n by (simp add: mark_crypto_def)
  ultimately have e: "ae_Encrypt mark_crypto zero_rand buffer_write ''hi'' ?a (Some []) () = Some (?a, Some ?w, ())"
    by (simp only: ae_Encrypt_def a NonceSize_def prod.case sum.case option.case simp_thms if_False write_out_buffer append_Nil option.map)
  have law: "gcm_law mark_crypto" by (simp add: gcm_law_def mark_crypto_def)
  have rnd: "rand_law zero_rand" by (auto simp: rand_law_def zero_rand_def split: if_splits)
  have "ae_Decrypt mark_crypto buffer_write ?w ?a (Some []) = Some (?a, Some ([] @ ''hi''))"
    by (rule aes_round_trip [OF law rnd e a(1), THEN conjunct1, rule_format, OF a(1) refl])
  with e show ?thesis by (simp only: Let_def append_Nil simp_thms)
qed

text \<open>A file whose one certificate is valid at every instant from 0 to 100.\<close>

definition tiny_x509 :: "unit X509" where
  "tiny_x509 = \<lparr>x5_LoadX509KeyPair = (\<lambda>c k. Inr \<lparr>ct_Certificate = [c], ct_PrivateKey = k\<rparr>), x5_ReadFile = (\<lambda>f. Inr f), x5_Clean = (\<lambda>f. f),
     x5_ParseCertificate = (\<lambda>c. Inr \<lparr>xc_SerialNumber = 1, xc_Subject = [(''CommonName'', [c])], xc_NotBefore = 0, xc_NotAfter = 100, xc_IsCA = True,
       xc_ExtKeyUsage = [], xc_KeyUsage = [], xc_BasicConstraintsValid = True, xc_IPAddresses = [], xc_DNSNames = []\<rparr>),
     x5_GenerateKey = (\<lambda>n r. (Inr [], r)), x5_CreateCertificate = (\<lambda>t p r. (Inr [], r)), x5_PemEncode = (\<lambda>t b. Inr b),
     x5_X509KeyPair = (\<lambda>c k. Inr \<lparr>ct_Certificate = [c], ct_PrivateKey = k\<rparr>), x5_PemCertificates = (\<lambda>b. [b])\<rparr>"

theorem tls_config_only_valid_witness:
  "LoadCertAndConfig tiny_x509 (\<lambda>t. []) 50 ''c'' ''k'' ''ca'' 4 =
     Inr (NewTLSConfig \<lparr>ct_Certificate = [''c''], ct_PrivateKey = ''k''\<rparr> (Some [''ca'']) 4) \<and>
   (\<forall>cfg. LoadCertAndConfig tiny_x509 (\<lambda>t. []) 101 ''c'' ''k'' ''ca'' 4 \<noteq> Inr cfg)"
proof
  show "LoadCertAndConfig tiny_x509 (\<lambda>t. []) 50 ''c'' ''k'' ''ca'' 4 =
     Inr (NewTLSConfig \<lparr>ct_Certificate = [''c''], ct_PrivateKey = ''k''\<rparr> (Some [''ca'']) 4)"
    unfolding tls_config_only_valid by (simp add: tiny_x509_def cert_valid_def IsCertificateExpired_def)
  show "\<forall>cfg. LoadCertAndConfig tiny_x509 (\<lambda>t. []) 101 ''c'' ''k'' ''ca'' 4 \<noteq> Inr cfg"
    unfolding tls_config_only_valid by (simp add: tiny_x509_def cert_valid_def)
qed

end
