(* ===== verification/GoPath.thy ===== *)
theory GoPath
  imports GoStrings
begin

text \<open>
  The functions of Go's \<open>path/filepath\<close> that the library calls, where the separator is a slash, and
  \<open>strings.Trim\<close>.
\<close>

section \<open>Definitions\<close>

fun clean_parts :: "bool \<Rightarrow> string list \<Rightarrow> string list \<Rightarrow> string list" where
  "clean_parts rooted acc [] = rev acc"
| "clean_parts rooted acc (p # ps) =
     (if p = [] \<or> p = ''.'' then clean_parts rooted acc ps
      else if p = ''..'' then
        (case acc of
           [] \<Rightarrow> if rooted then clean_parts rooted [] ps else clean_parts rooted [p] ps
         | a # acc' \<Rightarrow> if a = ''..'' then clean_parts rooted (p # acc) ps else clean_parts rooted acc' ps)
      else clean_parts rooted (p # acc) ps)"

definition path_Clean :: "string \<Rightarrow> string" where
  "path_Clean p =
     (let rooted = HasPrefix p ''/''; body = Join (clean_parts rooted [] (Split_char (CHR ''/'') p)) ''/''
      in if rooted then CHR ''/'' # body else if body = [] then ''.'' else body)"

definition last_element :: "string \<Rightarrow> string" where
  "last_element p = rev (takeWhile (\<lambda>c. c \<noteq> CHR ''/'') (rev p))"

definition path_Base :: "string \<Rightarrow> string" where
  "path_Base p =
     (if p = [] then ''.''
      else let b = last_element (rev (dropWhile (\<lambda>c. c = CHR ''/'') (rev p))) in if b = [] then ''/'' else b)"

definition path_Dir :: "string \<Rightarrow> string" where
  "path_Dir p = path_Clean (rev (dropWhile (\<lambda>c. c \<noteq> CHR ''/'') (rev p)))"

definition path_Ext :: "string \<Rightarrow> string" where
  "path_Ext p =
     (let b = last_element p; e = takeWhile (\<lambda>c. c \<noteq> CHR ''.'') (rev b)
      in if length e = length b then [] else CHR ''.'' # rev e)"

text \<open>\<open>strings.Trim\<close>: the second argument is a set of characters.\<close>

definition Trim :: "string \<Rightarrow> string \<Rightarrow> string" where
  "Trim s cs = rev (dropWhile (\<lambda>c. c \<in> set cs) (rev (dropWhile (\<lambda>c. c \<in> set cs) s)))"

text \<open>\<open>filepath.Join\<close> of two elements.\<close>

definition path_Join :: "string \<Rightarrow> string \<Rightarrow> string" where
  "path_Join p q = (if p = [] \<and> q = [] then [] else path_Clean (if p = [] then q else if q = [] then p else p @ ''/'' @ q))"

section \<open>Lemmas\<close>

lemma Trim_keeps:
  assumes "s \<noteq> []" "hd s \<notin> set cs" "last s \<notin> set cs" "set e \<subseteq> set cs"
  shows "Trim (s @ e) cs = s"
proof -
  have "dropWhile (\<lambda>c. c \<in> set cs) (rev e @ rev s) = rev s"
    using assms by (subst dropWhile_append2) (auto simp: dropWhile_eq_self_iff hd_rev)
  moreover have "dropWhile (\<lambda>c. c \<in> set cs) (s @ e) = s @ e" using assms by (auto simp: dropWhile_eq_self_iff)
  ultimately show ?thesis by (simp add: Trim_def)
qed

lemma last_element_append: "CHR ''/'' \<notin> set b \<Longrightarrow> last_element (p @ CHR ''/'' # b) = b"
  by (simp add: last_element_def takeWhile_append)

lemma path_Base_append: "b \<noteq> [] \<Longrightarrow> CHR ''/'' \<notin> set b \<Longrightarrow> path_Base (p @ CHR ''/'' # b) = b"
  by (cases b rule: rev_cases) (auto simp: path_Base_def last_element_def takeWhile_append Let_def)

lemma path_Ext_append: "CHR ''/'' \<notin> set b \<Longrightarrow> CHR ''.'' \<notin> set e \<Longrightarrow> CHR ''/'' \<notin> set e \<Longrightarrow>
    path_Ext (p @ CHR ''/'' # b @ CHR ''.'' # e) = CHR ''.'' # e"
  using last_element_append [of "b @ CHR ''.'' # e" p] by (simp add: path_Ext_def takeWhile_append)

end
