(* ===== verification/MailCertificate.thy ===== *)
theory MailCertificate
  imports MailServer Security GoPath
begin

text \<open>
  The certificate of the SMTP server (\<open>loadTLSConfig\<close> and \<open>generateSelfSignedCert\<close> of \<open>src/mail/server.go\<close>): it is
  loaded from the configured files, or generated and saved there. The cryptography and the file system are
  the records of \<open>Security\<close>; \<open>mkdir\<close> is \<open>os.MkdirAll\<close>. Warnings are only logged.
\<close>

section \<open>Definitions\<close>

definition mail_template :: "time \<Rightarrow> string \<Rightarrow> X509Cert" where
  "mail_template now domain =
     \<lparr>xc_SerialNumber = 1,
      xc_Subject = [(''Organization'', [''Mail Server'']), (''Country'', [''US'']), (''Province'', [[]]), (''Locality'', [[]]),
        (''StreetAddress'', [[]]), (''PostalCode'', [[]])],
      xc_NotBefore = now, xc_NotAfter = AddYear now, xc_IsCA = False, xc_ExtKeyUsage = [ExtKeyUsageServerAuth],
      xc_KeyUsage = [KeyUsageKeyEncipherment, KeyUsageDigitalSignature], xc_BasicConstraintsValid = False,
      xc_IPAddresses = [''127.0.0.1'', ''::1''], xc_DNSNames = [''localhost'', domain]\<rparr>"

definition save_pair ::
    "'f Files \<Rightarrow> (string \<Rightarrow> 'f \<Rightarrow> string option \<times> 'f) \<Rightarrow> ServerConfig \<Rightarrow> bytes \<Rightarrow> bytes \<Rightarrow> 'f \<Rightarrow> 'f" where
  "save_pair fs mkdir c certPEM keyPEM f =
     (if sc_CertFile c \<noteq> [] \<and> sc_KeyFile c \<noteq> [] then
        (case mkdir (path_Dir (sc_CertFile c)) f of
           (Some e, f) \<Rightarrow> f
         | (None, f) \<Rightarrow> (let f = snd (fs_WriteFile fs (sc_CertFile c) certPEM f) in snd (fs_WriteFile fs (sc_KeyFile c) keyPEM f)))
      else f)"

definition generateSelfSignedCert ::
    "'r X509 \<Rightarrow> 'f Files \<Rightarrow> (string \<Rightarrow> 'f \<Rightarrow> string option \<times> 'f) \<Rightarrow> time \<Rightarrow> ServerConfig \<Rightarrow> 'r \<Rightarrow> 'f \<Rightarrow> (serr + Certificate) \<times> 'r \<times> 'f" where
  "generateSelfSignedCert x fs mkdir now c r f =
     (case x5_GenerateKey x 2048 r of
        (Inl e, r) \<Rightarrow> (Inl (SErrWith ''failed to generate private key'' e), r, f)
      | (Inr priv, r) \<Rightarrow>
          (case x5_CreateCertificate x (mail_template now (sc_Domain c)) priv r of
             (Inl e, r) \<Rightarrow> (Inl (SErrWith ''failed to create certificate'' e), r, f)
           | (Inr der, r) \<Rightarrow>
               (case x5_PemEncode x ''CERTIFICATE'' der of
                  Inl e \<Rightarrow> (Inl (SErrWith ''failed to encode certificate'' e), r, f)
                | Inr certPEM \<Rightarrow>
                    (case x5_PemEncode x ''RSA PRIVATE KEY'' priv of
                       Inl e \<Rightarrow> (Inl (SErrWith ''failed to encode private key'' e), r, f)
                     | Inr keyPEM \<Rightarrow>
                         (let f = save_pair fs mkdir c certPEM keyPEM f in
                          case x5_X509KeyPair x certPEM keyPEM of
                            Inl e \<Rightarrow> (Inl (SErrWith ''failed to create TLS certificate'' e), r, f)
                          | Inr cert \<Rightarrow> (Inr cert, r, f))))))"

text \<open>\<open>tls.LoadX509KeyPair\<close> reads the two files.\<close>

definition load_pair :: "'r X509 \<Rightarrow> 'f Files \<Rightarrow> string \<Rightarrow> string \<Rightarrow> 'f \<Rightarrow> string + Certificate" where
  "load_pair x fs certFile keyFile f =
     (case fs_ReadFile fs certFile f of
        Inl e \<Rightarrow> Inl e
      | Inr certPEM \<Rightarrow>
          (case fs_ReadFile fs keyFile f of Inl e \<Rightarrow> Inl e | Inr keyPEM \<Rightarrow> x5_X509KeyPair x certPEM keyPEM))"

definition loadTLSConfig ::
    "'r X509 \<Rightarrow> 'f Files \<Rightarrow> (string \<Rightarrow> 'f \<Rightarrow> string option \<times> 'f) \<Rightarrow> time \<Rightarrow> ServerConfig \<Rightarrow> 'r \<Rightarrow> 'f \<Rightarrow>
       (serr + TLSConfig \<times> Certificate) \<times> 'r \<times> 'f" where
  "loadTLSConfig x fs mkdir now c r f =
     (let loaded = (if sc_CertFile c \<noteq> [] \<and> sc_KeyFile c \<noteq> [] \<and> fs_Stat fs (sc_CertFile c) f = Exists \<and> fs_Stat fs (sc_KeyFile c) f = Exists
                    then load_pair x fs (sc_CertFile c) (sc_KeyFile c) f else Inl ''no files'')
      in case loaded of
           Inr cert \<Rightarrow> (Inr (sc_TLSConfig c, cert), r, f)
         | Inl _ \<Rightarrow>
             (case generateSelfSignedCert x fs mkdir now c r f of
                (Inl e, r, f) \<Rightarrow> (Inl (SWrapErr e), r, f)
              | (Inr cert, r, f) \<Rightarrow> (Inr (sc_TLSConfig c, cert), r, f)))"

section \<open>A generated certificate is used again\<close>

text \<open>What the file system promises of the two files: what was written is read, and writing the key leaves the certificate.\<close>

definition pair_laws :: "'f Files \<Rightarrow> ServerConfig \<Rightarrow> bool" where
  "pair_laws fs c \<longleftrightarrow>
     (\<forall>file \<in> {sc_CertFile c, sc_KeyFile c}. \<forall>bs f f'. fs_WriteFile fs file bs f = (None, f') \<longrightarrow>
        fs_Stat fs file f' = Exists \<and> fs_ReadFile fs file f' = Inr bs) \<and>
     (\<forall>bs f f'. fs_WriteFile fs (sc_KeyFile c) bs f = (None, f') \<longrightarrow>
        fs_Stat fs (sc_CertFile c) f' = fs_Stat fs (sc_CertFile c) f \<and> fs_ReadFile fs (sc_CertFile c) f' = fs_ReadFile fs (sc_CertFile c) f)"

lemma save_pair_load:
  assumes laws: "pair_laws fs c" and files: "sc_CertFile c \<noteq> []" "sc_KeyFile c \<noteq> []"
    and dir: "mkdir (path_Dir (sc_CertFile c)) f = (None, f0)" and wr: "\<forall>file bs f. fst (fs_WriteFile fs file bs f) = None"
  shows "fs_Stat fs (sc_CertFile c) (save_pair fs mkdir c cp kp f) = Exists"
    "fs_Stat fs (sc_KeyFile c) (save_pair fs mkdir c cp kp f) = Exists"
    "load_pair x fs (sc_CertFile c) (sc_KeyFile c) (save_pair fs mkdir c cp kp f) = x5_X509KeyPair x cp kp"
proof -
  obtain f1 where f1: "fs_WriteFile fs (sc_CertFile c) cp f0 = (None, f1)" using wr by (metis prod.collapse)
  obtain f2 where f2: "fs_WriteFile fs (sc_KeyFile c) kp f1 = (None, f2)" using wr by (metis prod.collapse)
  have s: "save_pair fs mkdir c cp kp f = f2" using files dir f1 f2 by (simp add: save_pair_def Let_def)
  have "fs_Stat fs (sc_CertFile c) f1 = Exists" "fs_ReadFile fs (sc_CertFile c) f1 = Inr cp"
    "fs_Stat fs (sc_KeyFile c) f2 = Exists" "fs_ReadFile fs (sc_KeyFile c) f2 = Inr kp"
    "fs_Stat fs (sc_CertFile c) f2 = fs_Stat fs (sc_CertFile c) f1" "fs_ReadFile fs (sc_CertFile c) f2 = fs_ReadFile fs (sc_CertFile c) f1"
    using laws f1 f2 unfolding pair_laws_def by blast+
  then show "fs_Stat fs (sc_CertFile c) (save_pair fs mkdir c cp kp f) = Exists"
    "fs_Stat fs (sc_KeyFile c) (save_pair fs mkdir c cp kp f) = Exists"
    "load_pair x fs (sc_CertFile c) (sc_KeyFile c) (save_pair fs mkdir c cp kp f) = x5_X509KeyPair x cp kp"
    by (simp_all add: s load_pair_def)
qed

lemma generateSelfSignedCert_Inr:
  assumes "generateSelfSignedCert x fs mkdir now c r f = (Inr cert, r1, f1)"
  obtains priv r0 der cp kp where "x5_CreateCertificate x (mail_template now (sc_Domain c)) priv r0 = (Inr der, r1)"
    "x5_PemEncode x ''CERTIFICATE'' der = Inr cp" "x5_X509KeyPair x cp kp = Inr cert" "f1 = save_pair fs mkdir c cp kp f"
  using assms by (auto simp: generateSelfSignedCert_def Let_def split: prod.splits sum.splits)

text \<open>
  The certificate the server starts with, loaded or generated, is the one it starts with the next time,
  without a new key and at any later time: its dates are not looked at.
\<close>

lemma mail_certificate_reused:
  assumes laws: "pair_laws fs c" and files: "sc_CertFile c \<noteq> []" "sc_KeyFile c \<noteq> []"
    and dir: "mkdir (path_Dir (sc_CertFile c)) f = (None, f0)" and wr: "\<forall>file bs f. fst (fs_WriteFile fs file bs f) = None"
    and first: "loadTLSConfig x fs mkdir now c r f = (Inr (t, cert), r1, f1)"
  shows "loadTLSConfig x fs mkdir now' c r2 f1 = (Inr (t, cert), r2, f1)"
proof (cases "fs_Stat fs (sc_CertFile c) f = Exists \<and> fs_Stat fs (sc_KeyFile c) f = Exists \<and>
    (\<exists>d. load_pair x fs (sc_CertFile c) (sc_KeyFile c) f = Inr d)")
  case True
  then show ?thesis using first files by (auto simp: loadTLSConfig_def Let_def)
next
  case False
  then have "generateSelfSignedCert x fs mkdir now c r f = (Inr cert, r1, f1)" "t = sc_TLSConfig c"
    using first by (auto simp: loadTLSConfig_def Let_def split: sum.splits prod.splits if_splits)
  from generateSelfSignedCert_Inr [OF this(1)] obtain cp kp where
    "x5_X509KeyPair x cp kp = Inr cert" "f1 = save_pair fs mkdir c cp kp f" by metis
  then show ?thesis using \<open>t = sc_TLSConfig c\<close> files save_pair_load(1,2) [where mkdir = mkdir and f = f, OF laws files dir wr]
      save_pair_load(3) [where x = x and mkdir = mkdir and f = f, OF laws files dir wr]
    by (simp add: loadTLSConfig_def)
qed

text \<open>So after a year the server goes on with an expired certificate.\<close>

lemma mail_certificate_expires:
  assumes laws: "x509_laws x" and gen: "generateSelfSignedCert x fs mkdir now c r f = (Inr cert, r1, f1)"
    and range: "0 \<le> now" "AddYear now < Date 10000 1 1 0 0 0" and t: "AddYear now < t"
  shows "IsCertificateExpired x t cert = Inr True"
proof -
  from generateSelfSignedCert_Inr [OF gen] obtain priv r0 der cp kp where
    der: "x5_CreateCertificate x (mail_template now (sc_Domain c)) priv r0 = (Inr der, r1)" and
    pem: "x5_PemEncode x ''CERTIFICATE'' der = Inr cp" "x5_X509KeyPair x cp kp = Inr cert" by metis
  have chain: "ct_Certificate cert = [der]" using laws pem by (simp add: x509_laws_def)
  have tm: "xc_NotBefore (mail_template now (sc_Domain c)) = now" "xc_NotAfter (mail_template now (sc_Domain c)) = AddYear now"
    by (simp_all add: mail_template_def)
  obtain k where "x5_ParseCertificate x der = Inr k" "xc_NotAfter k = Truncate (AddYear now) second"
    using laws der range unfolding x509_laws_def by (metis tm)
  moreover have "Truncate (AddYear now) second \<le> AddYear now" by (simp add: Truncate_def)
  ultimately show ?thesis using chain t by (simp add: IsCertificateExpired_def)
qed

end
