(* ===== verification/Pgp.thy ===== *)
theory Pgp
  imports Security
begin

text \<open>
  The PGP cipher (\<open>src/security/pgp.go\<close>). The library (\<open>gopenpgp\<close>) with a profile is a record of the calls
  the cipher makes; \<open>pgp_laws\<close> states what OpenPGP promises of them. A message is encrypted to, and
  decrypted with, a password or a key.
\<close>

section \<open>The library\<close>

datatype 'k party = ByPassword bytes | ByKey 'k

record ('k, 'm, 'r) PGPHandle =
  pg_NewKeyFromArmored :: "string \<Rightarrow> string + 'k"
  pg_NewPrivateKeyFromArmored :: "string \<Rightarrow> bytes \<Rightarrow> string + 'k"
  pg_NewEncryption :: "'k party \<Rightarrow> string option"
  pg_Encrypt :: "'k party \<Rightarrow> bytes \<Rightarrow> 'r \<Rightarrow> (string + 'm) \<times> 'r"
  pg_ArmorBytes :: "'m \<Rightarrow> string + bytes"
  pg_NewDecryption :: "'k party \<Rightarrow> string option"
  pg_Decrypt :: "'k party \<Rightarrow> bytes \<Rightarrow> string + bytes"
  pg_GenerateKey :: "string \<Rightarrow> string \<Rightarrow> 'r \<Rightarrow> (string + 'k) \<times> 'r"
  pg_ArmorKey :: "'k \<Rightarrow> string + string"
  pg_LockKey :: "'k \<Rightarrow> bytes \<Rightarrow> string + 'k"
  pg_ArmoredPublicKey :: "'k \<Rightarrow> string + string"

section \<open>The cipher\<close>

record ('k, 'm, 'r) PGPCipher =
  pc_handle :: "('k, 'm, 'r) PGPHandle"
  pc_passphrase :: bytes
  pc_privateKey :: string
  pc_publicKey :: string
  pc_Error :: "serr option"

text \<open>\<open>with_profile\<close> is \<open>crypto.PGPWithProfile\<close> and \<open>rfc4880\<close> the default profile.\<close>

definition NewPGPCipher :: "('p \<Rightarrow> ('k, 'm, 'r) PGPHandle) \<Rightarrow> 'p \<Rightarrow> 'p option \<Rightarrow> ('k, 'm, 'r) PGPCipher" where
  "NewPGPCipher with_profile rfc4880 p =
     \<lparr>pc_handle = with_profile (case p of None \<Rightarrow> rfc4880 | Some q \<Rightarrow> q), pc_passphrase = [], pc_privateKey = [], pc_publicKey = [],
      pc_Error = None\<rparr>"

definition pc_WithPassphrase :: "bytes \<Rightarrow> ('k, 'm, 'r) PGPCipher \<Rightarrow> ('k, 'm, 'r) PGPCipher" where
  "pc_WithPassphrase b p = p\<lparr>pc_passphrase := b\<rparr>"

definition WithPublicKey :: "string \<Rightarrow> ('k, 'm, 'r) PGPCipher \<Rightarrow> ('k, 'm, 'r) PGPCipher" where
  "WithPublicKey key p = p\<lparr>pc_publicKey := key\<rparr>"

definition WithPrivateKey :: "string \<Rightarrow> ('k, 'm, 'r) PGPCipher \<Rightarrow> ('k, 'm, 'r) PGPCipher" where
  "WithPrivateKey key p = p\<lparr>pc_privateKey := key\<rparr>"

definition WithPublicKeyFromFile :: "'f Files \<Rightarrow> 'f \<Rightarrow> string \<Rightarrow> ('k, 'm, 'r) PGPCipher \<Rightarrow> ('k, 'm, 'r) PGPCipher" where
  "WithPublicKeyFromFile fs f path p =
     (if path \<noteq> [] \<and> pc_Error p = None then
        (case fs_ReadFile fs (fs_Clean fs path) f of
           Inl e \<Rightarrow> p\<lparr>pc_Error := Some (SErrWith ''failed to read public key file'' e)\<rparr>
         | Inr key \<Rightarrow> p\<lparr>pc_publicKey := key\<rparr>)
      else p)"

definition WithPrivateKeyFromFile :: "'f Files \<Rightarrow> 'f \<Rightarrow> string \<Rightarrow> ('k, 'm, 'r) PGPCipher \<Rightarrow> ('k, 'm, 'r) PGPCipher" where
  "WithPrivateKeyFromFile fs f path p =
     (if path \<noteq> [] \<and> pc_Error p = None then
        (case fs_ReadFile fs (fs_Clean fs path) f of
           Inl e \<Rightarrow> p\<lparr>pc_Error := Some (SErrWith ''failed to read private key file'' e)\<rparr>
         | Inr key \<Rightarrow> p\<lparr>pc_privateKey := key\<rparr>)
      else p)"

definition GetPublicKey :: "('k, 'm, 'r) PGPCipher \<Rightarrow> serr + string" where
  "GetPublicKey p = (if pc_publicKey p = [] then Inl (SErr ''no public key set'') else Inr (pc_publicKey p))"

definition GetPrivateKey :: "('k, 'm, 'r) PGPCipher \<Rightarrow> serr + string" where
  "GetPrivateKey p = (if pc_privateKey p = [] then Inl (SErr ''no private key set'') else Inr (pc_privateKey p))"

section \<open>Encryption and decryption\<close>

text \<open>The state of a call: the cipher, the writer (\<open>None\<close> is nil) and the source of randomness. \<open>wr\<close> is the writer's \<open>Write\<close>.\<close>

definition set_err :: "serr \<Rightarrow> ('k, 'm, 'r) PGPCipher \<Rightarrow> ('k, 'm, 'r) PGPCipher" where
  "set_err e p = p\<lparr>pc_Error := Some e\<rparr>"

definition pgp_write ::
    "string \<Rightarrow> (bytes \<Rightarrow> 'w \<Rightarrow> string option \<times> 'w) \<Rightarrow> bytes \<Rightarrow> ('k, 'm, 'r) PGPCipher \<Rightarrow> 'w \<Rightarrow> ('k, 'm, 'r) PGPCipher \<times> 'w option" where
  "pgp_write msg wr bs p w =
     (case wr bs w of (Some e, w) \<Rightarrow> (set_err (SErrWith msg e) p, Some w) | (None, w) \<Rightarrow> (p, Some w))"

text \<open>The common end of both encryptions, from the creation of the handle.\<close>

definition encrypt_to ::
    "(bytes \<Rightarrow> 'w \<Rightarrow> string option \<times> 'w) \<Rightarrow> 'k party \<Rightarrow> bytes \<Rightarrow> ('k, 'm, 'r) PGPCipher \<Rightarrow> 'w \<Rightarrow> 'r \<Rightarrow>
       ('k, 'm, 'r) PGPCipher \<times> 'w option \<times> 'r" where
  "encrypt_to wr party plaintext p w r =
     (case pg_NewEncryption (pc_handle p) party of
        Some e \<Rightarrow> (set_err (SErrWith ''failed to create encryption handle'' e) p, Some w, r)
      | None \<Rightarrow>
          (case pg_Encrypt (pc_handle p) party plaintext r of
             (Inl e, r) \<Rightarrow> (set_err (SErrWith ''failed to encrypt message'' e) p, Some w, r)
           | (Inr m, r) \<Rightarrow>
               (case pg_ArmorBytes (pc_handle p) m of
                  Inl e \<Rightarrow> (set_err (SErrWith ''failed to armor message'' e) p, Some w, r)
                | Inr armored \<Rightarrow>
                    (case pgp_write ''failed to write encrypted message'' wr armored p w of (p, out) \<Rightarrow> (p, out, r)))))"

definition EncryptWithPassword ::
    "(bytes \<Rightarrow> 'w \<Rightarrow> string option \<times> 'w) \<Rightarrow> bytes \<Rightarrow> ('k, 'm, 'r) PGPCipher \<Rightarrow> 'w option \<Rightarrow> 'r \<Rightarrow>
       ('k, 'm, 'r) PGPCipher \<times> 'w option \<times> 'r" where
  "EncryptWithPassword wr plaintext p out r =
     (if pc_Error p \<noteq> None then (p, out, r)
      else if plaintext = [] then (set_err (SErr ''no plaintext provided'') p, out, r)
      else if pc_passphrase p = [] then (set_err (SErr ''no passphrase provided'') p, out, r)
      else case out of
             None \<Rightarrow> (set_err (SErr ''no output writer provided'') p, out, r)
           | Some w \<Rightarrow> encrypt_to wr (ByPassword (pc_passphrase p)) plaintext p w r)"

definition EncryptWithPublicKey ::
    "(bytes \<Rightarrow> 'w \<Rightarrow> string option \<times> 'w) \<Rightarrow> bytes \<Rightarrow> ('k, 'm, 'r) PGPCipher \<Rightarrow> 'w option \<Rightarrow> 'r \<Rightarrow>
       ('k, 'm, 'r) PGPCipher \<times> 'w option \<times> 'r" where
  "EncryptWithPublicKey wr plaintext p out r =
     (if pc_Error p \<noteq> None then (p, out, r)
      else if plaintext = [] then (set_err (SErr ''no plaintext provided'') p, out, r)
      else case out of
             None \<Rightarrow> (set_err (SErr ''no output writer provided'') p, out, r)
           | Some w \<Rightarrow>
               if pc_publicKey p = [] then (set_err (SErr ''no public key provided'') p, out, r)
               else (case pg_NewKeyFromArmored (pc_handle p) (pc_publicKey p) of
                       Inl e \<Rightarrow> (set_err (SErrWith ''failed to create public key'' e) p, out, r)
                     | Inr k \<Rightarrow> encrypt_to wr (ByKey k) plaintext p w r))"

definition pgp_Encrypt ::
    "(bytes \<Rightarrow> 'w \<Rightarrow> string option \<times> 'w) \<Rightarrow> bytes \<Rightarrow> ('k, 'm, 'r) PGPCipher \<Rightarrow> 'w option \<Rightarrow> 'r \<Rightarrow>
       ('k, 'm, 'r) PGPCipher \<times> 'w option \<times> 'r" where
  "pgp_Encrypt wr plaintext p out r =
     (if pc_publicKey p \<noteq> [] then EncryptWithPublicKey wr plaintext p out r
      else if pc_passphrase p \<noteq> [] then EncryptWithPassword wr plaintext p out r
      else (set_err (SErr ''no public key or passphrase provided'') p, out, r))"

definition decrypt_with ::
    "(bytes \<Rightarrow> 'w \<Rightarrow> string option \<times> 'w) \<Rightarrow> 'k party \<Rightarrow> bytes \<Rightarrow> ('k, 'm, 'r) PGPCipher \<Rightarrow> 'w \<Rightarrow> ('k, 'm, 'r) PGPCipher \<times> 'w option" where
  "decrypt_with wr party ciphertext p w =
     (case pg_NewDecryption (pc_handle p) party of
        Some e \<Rightarrow> (set_err (SErrWith ''failed to create decryption handle'' e) p, Some w)
      | None \<Rightarrow>
          (case pg_Decrypt (pc_handle p) party ciphertext of
             Inl e \<Rightarrow> (set_err (SErrWith ''failed to decrypt message'' e) p, Some w)
           | Inr plain \<Rightarrow> pgp_write ''failed to write decrypted message'' wr plain p w))"

definition DecryptWithPassword ::
    "(bytes \<Rightarrow> 'w \<Rightarrow> string option \<times> 'w) \<Rightarrow> bytes \<Rightarrow> ('k, 'm, 'r) PGPCipher \<Rightarrow> 'w option \<Rightarrow> ('k, 'm, 'r) PGPCipher \<times> 'w option" where
  "DecryptWithPassword wr ciphertext p out =
     (if pc_Error p \<noteq> None then (p, out)
      else if ciphertext = [] then (set_err (SErr ''no ciphertext provided'') p, out)
      else if pc_passphrase p = [] then (set_err (SErr ''no passphrase provided'') p, out)
      else case out of
             None \<Rightarrow> (set_err (SErr ''no output writer provided'') p, out)
           | Some w \<Rightarrow> decrypt_with wr (ByPassword (pc_passphrase p)) ciphertext p w)"

definition DecryptWithPrivateKey ::
    "(bytes \<Rightarrow> 'w \<Rightarrow> string option \<times> 'w) \<Rightarrow> bytes \<Rightarrow> ('k, 'm, 'r) PGPCipher \<Rightarrow> 'w option \<Rightarrow> ('k, 'm, 'r) PGPCipher \<times> 'w option" where
  "DecryptWithPrivateKey wr ciphertext p out =
     (if pc_Error p \<noteq> None then (p, out)
      else if ciphertext = [] then (set_err (SErr ''no ciphertext provided'') p, out)
      else if pc_privateKey p = [] then (set_err (SErr ''no private key provided'') p, out)
      else case out of
             None \<Rightarrow> (set_err (SErr ''no output writer provided'') p, out)
           | Some w \<Rightarrow>
               (case pg_NewPrivateKeyFromArmored (pc_handle p) (pc_privateKey p) (pc_passphrase p) of
                  Inl e \<Rightarrow> (set_err (SErrWith ''failed to create private key'' e) p, out)
                | Inr k \<Rightarrow> decrypt_with wr (ByKey k) ciphertext p w))"

definition pgp_Decrypt ::
    "(bytes \<Rightarrow> 'w \<Rightarrow> string option \<times> 'w) \<Rightarrow> bytes \<Rightarrow> ('k, 'm, 'r) PGPCipher \<Rightarrow> 'w option \<Rightarrow> ('k, 'm, 'r) PGPCipher \<times> 'w option" where
  "pgp_Decrypt wr ciphertext p out =
     (if pc_privateKey p \<noteq> [] then DecryptWithPrivateKey wr ciphertext p out
      else if pc_passphrase p \<noteq> [] then DecryptWithPassword wr ciphertext p out
      else (set_err (SErr ''no private key or passphrase provided'') p, out))"

text \<open>
  \<open>GenerateKeyPair\<close> returns its error and does not store it; the private key is set before the public key is
  asked for.
\<close>

definition GenerateKeyPair ::
    "string \<Rightarrow> string \<Rightarrow> ('k, 'm, 'r) PGPCipher \<Rightarrow> 'r \<Rightarrow> serr option \<times> ('k, 'm, 'r) PGPCipher \<times> 'r" where
  "GenerateKeyPair name email p r =
     (let h = pc_handle p in
      if name = [] then (Some (SErr ''no name provided''), p, r)
      else if email = [] then (Some (SErr ''no email provided''), p, r)
      else case pg_GenerateKey h name email r of
             (Inl e, r) \<Rightarrow> (Some (SErrWith ''failed to generate key pair'' e), p, r)
           | (Inr k, r) \<Rightarrow>
               (case pg_ArmorKey h k of
                  Inl e \<Rightarrow> (Some (SErrWith ''failed to armor private key'' e), p, r)
                | Inr armored \<Rightarrow>
                    (case (if pc_passphrase p = [] then Inr armored
                           else case pg_LockKey h k (pc_passphrase p) of
                                  Inl e \<Rightarrow> Inl (SErrWith ''failed to lock private key'' e)
                                | Inr locked \<Rightarrow>
                                    (case pg_ArmorKey h locked of
                                       Inl e \<Rightarrow> Inl (SErrWith ''failed to armor private key'' e)
                                     | Inr armored \<Rightarrow> Inr armored)) of
                       Inl e \<Rightarrow> (Some e, p, r)
                     | Inr armored \<Rightarrow>
                         (let p = p\<lparr>pc_privateKey := armored\<rparr> in
                          case pg_ArmoredPublicKey h k of
                            Inl e \<Rightarrow> (Some (SErrWith ''failed to get public key'' e), p, r)
                          | Inr pub \<Rightarrow> (None, p\<lparr>pc_publicKey := pub\<rparr>, r)))))"

section \<open>Properties\<close>

text \<open>
  OpenPGP: what is encrypted to a password is decrypted with it, and what is encrypted to the public part of a key that
  the library generated with that key, unlocked as it is generated. Such a key is read back from its armored form, or
  from the armored form of its locked copy with the passphrase that locked it. Armored keys and messages are not
  empty. Nothing is said of decrypting with a locked or a public key.
\<close>

definition generated :: "('k, 'm, 'r) PGPHandle \<Rightarrow> 'k \<Rightarrow> bool" where
  "generated h k \<longleftrightarrow> (\<exists>name email r r'. pg_GenerateKey h name email r = (Inr k, r'))"

definition law_password :: "('k, 'm, 'r) PGPHandle \<Rightarrow> bool" where
  "law_password h \<longleftrightarrow> (\<forall>pw bs r m r' a. pw \<noteq> [] \<longrightarrow> pg_Encrypt h (ByPassword pw) bs r = (Inr m, r') \<longrightarrow> pg_ArmorBytes h m = Inr a \<longrightarrow>
     a \<noteq> [] \<and> pg_NewDecryption h (ByPassword pw) = None \<and> pg_Decrypt h (ByPassword pw) a = Inr bs)"

definition law_key :: "('k, 'm, 'r) PGPHandle \<Rightarrow> bool" where
  "law_key h \<longleftrightarrow> (\<forall>k pub kp bs r m r' a. generated h k \<longrightarrow> pg_ArmoredPublicKey h k = Inr pub \<longrightarrow> pg_NewKeyFromArmored h pub = Inr kp \<longrightarrow>
     pg_Encrypt h (ByKey kp) bs r = (Inr m, r') \<longrightarrow> pg_ArmorBytes h m = Inr a \<longrightarrow>
     a \<noteq> [] \<and> pg_NewDecryption h (ByKey k) = None \<and> pg_Decrypt h (ByKey k) a = Inr bs)"

definition law_armor :: "('k, 'm, 'r) PGPHandle \<Rightarrow> bool" where
  "law_armor h \<longleftrightarrow> (\<forall>k a. generated h k \<longrightarrow> pg_ArmorKey h k = Inr a \<longrightarrow> a \<noteq> [] \<and> pg_NewPrivateKeyFromArmored h a [] = Inr k)"

definition law_lock :: "('k, 'm, 'r) PGPHandle \<Rightarrow> bool" where
  "law_lock h \<longleftrightarrow> (\<forall>k pw l a. generated h k \<longrightarrow> pw \<noteq> [] \<longrightarrow> pg_LockKey h k pw = Inr l \<longrightarrow> pg_ArmorKey h l = Inr a \<longrightarrow>
     a \<noteq> [] \<and> pg_NewPrivateKeyFromArmored h a pw = Inr k)"

definition law_public :: "('k, 'm, 'r) PGPHandle \<Rightarrow> bool" where
  "law_public h \<longleftrightarrow> (\<forall>k pub. generated h k \<longrightarrow> pg_ArmoredPublicKey h k = Inr pub \<longrightarrow> pub \<noteq> [])"

definition pgp_laws :: "('k, 'm, 'r) PGPHandle \<Rightarrow> bool" where
  "pgp_laws h \<longleftrightarrow> law_password h \<and> law_key h \<and> law_armor h \<and> law_lock h \<and> law_public h"

lemma pgp_lawsD:
  assumes "pgp_laws h"
  shows "pw \<noteq> [] \<Longrightarrow> pg_Encrypt h (ByPassword pw) bs r = (Inr m, r') \<Longrightarrow> pg_ArmorBytes h m = Inr a \<Longrightarrow>
      a \<noteq> [] \<and> pg_NewDecryption h (ByPassword pw) = None \<and> pg_Decrypt h (ByPassword pw) a = Inr bs"
    "generated h k \<Longrightarrow> pg_ArmoredPublicKey h k = Inr pub \<Longrightarrow> pg_NewKeyFromArmored h pub = Inr kp \<Longrightarrow> pg_Encrypt h (ByKey kp) bs r = (Inr m, r') \<Longrightarrow>
      pg_ArmorBytes h m = Inr a \<Longrightarrow> a \<noteq> [] \<and> pg_NewDecryption h (ByKey k) = None \<and> pg_Decrypt h (ByKey k) a = Inr bs"
    "generated h k \<Longrightarrow> pg_ArmorKey h k = Inr a \<Longrightarrow> a \<noteq> [] \<and> pg_NewPrivateKeyFromArmored h a [] = Inr k"
    "generated h k \<Longrightarrow> pw \<noteq> [] \<Longrightarrow> pg_LockKey h k pw = Inr l \<Longrightarrow> pg_ArmorKey h l = Inr a \<Longrightarrow> a \<noteq> [] \<and> pg_NewPrivateKeyFromArmored h a pw = Inr k"
    "generated h k \<Longrightarrow> pg_ArmoredPublicKey h k = Inr pub \<Longrightarrow> pub \<noteq> []"
  using assms unfolding pgp_laws_def by (metis law_password_def, metis law_key_def, metis law_armor_def, metis law_lock_def, metis law_public_def)

lemma set_err_Error [simp]: "pc_Error (set_err e p) = Some e"
  by (simp add: set_err_def)

lemma pgp_write_buffer [simp]: "pgp_write msg buffer_write bs p w = (p, Some (w @ bs))"
  by (simp add: pgp_write_def buffer_write_def)

lemma encrypt_to_ok:
  assumes "encrypt_to buffer_write party plain p [] r = (p2, Some w, r3)" "pc_Error p2 = None"
  obtains m where "pg_Encrypt (pc_handle p) party plain r = (Inr m, r3)" "pg_ArmorBytes (pc_handle p) m = Inr w" "p2 = p"
  using assms by (auto simp: encrypt_to_def split: option.splits prod.splits sum.splits)

lemma decrypt_with_ok:
  assumes "pg_NewDecryption (pc_handle p) party = None" "pg_Decrypt (pc_handle p) party c = Inr plain"
  shows "decrypt_with buffer_write party c p out = (p, Some (out @ plain))"
  using assms by (simp add: decrypt_with_def)

text \<open>The key pair that \<open>GenerateKeyPair\<close> leaves in the cipher fits together.\<close>

lemma GenerateKeyPair_keys:
  assumes laws: "pgp_laws (pc_handle p)" and gen: "GenerateKeyPair name email p r = (None, p1, r1)"
  obtains k where "generated (pc_handle p) k" "pg_ArmoredPublicKey (pc_handle p) k = Inr (pc_publicKey p1)"
    "pg_NewPrivateKeyFromArmored (pc_handle p) (pc_privateKey p1) (pc_passphrase p1) = Inr k"
    "pc_publicKey p1 \<noteq> []" "pc_privateKey p1 \<noteq> []" "pc_handle p1 = pc_handle p" "pc_Error p1 = pc_Error p"
proof -
  let ?h = "pc_handle p"
  from gen obtain k a where k: "pg_GenerateKey ?h name email r = (Inr k, r1)" "pg_ArmorKey ?h k = Inr a" "pg_ArmoredPublicKey ?h k = Inr (pc_publicKey p1)"
    and p1: "pc_handle p1 = pc_handle p" "pc_Error p1 = pc_Error p" "pc_passphrase p1 = pc_passphrase p"
    and priv: "if pc_passphrase p = [] then pc_privateKey p1 = a
      else \<exists>l. pg_LockKey ?h k (pc_passphrase p) = Inr l \<and> pg_ArmorKey ?h l = Inr (pc_privateKey p1)"
    by (auto simp: GenerateKeyPair_def Let_def split: if_splits prod.splits sum.splits)
  have g: "generated ?h k" using k(1) unfolding generated_def by blast
  have "pc_privateKey p1 \<noteq> [] \<and> pg_NewPrivateKeyFromArmored ?h (pc_privateKey p1) (pc_passphrase p1) = Inr k"
    using priv pgp_lawsD(3) [OF laws g k(2)] pgp_lawsD(4) [OF laws g] p1(3) by (auto split: if_splits)
  with g k(3) p1 pgp_lawsD(5) [OF laws g k(3)] show thesis by (intro that) simp_all
qed

text \<open>
  C34: After \<open>GenerateKeyPair\<close> succeeded, with a passphrase or without, whatever the cipher encrypts without an
  error it also decrypts, to exactly the plaintext.
\<close>

theorem pgp_key_pair_round_trip:
  assumes laws: "pgp_laws (pc_handle p)" and gen: "GenerateKeyPair name email p r = (None, p1, r1)"
    and enc: "pgp_Encrypt buffer_write plain p1 (Some []) r2 = (p2, Some w, r3)" and ok: "pc_Error p2 = None"
  shows "pgp_Decrypt buffer_write w p2 (Some out) = (p2, Some (out @ plain))"
proof -
  from GenerateKeyPair_keys [OF laws gen] obtain k where g: "generated (pc_handle p) k"
    and k: "pg_ArmoredPublicKey (pc_handle p) k = Inr (pc_publicKey p1)" "pg_NewPrivateKeyFromArmored (pc_handle p) (pc_privateKey p1) (pc_passphrase p1) = Inr k"
    and p1: "pc_publicKey p1 \<noteq> []" "pc_privateKey p1 \<noteq> []" "pc_handle p1 = pc_handle p" by metis
  from enc ok p1 obtain kp where kp: "pg_NewKeyFromArmored (pc_handle p) (pc_publicKey p1) = Inr kp"
    and to: "encrypt_to buffer_write (ByKey kp) plain p1 [] r2 = (p2, Some w, r3)"
    by (auto simp: pgp_Encrypt_def EncryptWithPublicKey_def split: if_splits sum.splits)
  from encrypt_to_ok [OF to ok] obtain m where m: "pg_Encrypt (pc_handle p1) (ByKey kp) plain r2 = (Inr m, r3)" "pg_ArmorBytes (pc_handle p1) m = Inr w" "p2 = p1"
    by metis
  then have "w \<noteq> [] \<and> pg_NewDecryption (pc_handle p1) (ByKey k) = None \<and> pg_Decrypt (pc_handle p1) (ByKey k) w = Inr plain"
    using pgp_lawsD(2) [OF laws g k(1) kp] p1(3) by simp
  then show ?thesis using k(2) p1 ok m(3) by (simp add: pgp_Decrypt_def DecryptWithPrivateKey_def decrypt_with_ok)
qed

theorem pgp_password_round_trip:
  assumes laws: "pgp_laws (pc_handle p)" and keys: "pc_publicKey p = []" "pc_privateKey p = []"
    and enc: "pgp_Encrypt buffer_write plain p (Some []) r = (p2, Some w, r2)" and ok: "pc_Error p2 = None"
  shows "pgp_Decrypt buffer_write w p2 (Some out) = (p2, Some (out @ plain))"
proof -
  from enc ok keys have to: "encrypt_to buffer_write (ByPassword (pc_passphrase p)) plain p [] r = (p2, Some w, r2)" and pw: "pc_passphrase p \<noteq> []"
    by (auto simp: pgp_Encrypt_def EncryptWithPassword_def split: if_splits)
  from encrypt_to_ok [OF to ok] obtain m where "pg_Encrypt (pc_handle p) (ByPassword (pc_passphrase p)) plain r = (Inr m, r2)" "pg_ArmorBytes (pc_handle p) m = Inr w" "p2 = p"
    by metis
  then show ?thesis using pgp_lawsD(1) [OF laws pw] keys pw ok by (simp add: pgp_Decrypt_def DecryptWithPassword_def decrypt_with_ok)
qed

text \<open>An error sticks: no later call writes anything or clears it.\<close>

theorem pgp_error_sticks:
  assumes "pc_Error p \<noteq> None"
  shows "fst (snd (pgp_Encrypt wr plain p out r)) = out \<and> pc_Error (fst (pgp_Encrypt wr plain p out r)) \<noteq> None \<and>
    snd (pgp_Decrypt wr c p out) = out \<and> pc_Error (fst (pgp_Decrypt wr c p out)) \<noteq> None"
  using assms by (simp add: pgp_Encrypt_def pgp_Decrypt_def EncryptWithPublicKey_def EncryptWithPassword_def DecryptWithPrivateKey_def
      DecryptWithPassword_def)

text \<open>
  With a public key and a passphrase but no private key the cipher encrypts to the key and decrypts with the
  passphrase: it cannot read its own messages.
\<close>

lemma pgp_mixed_modes:
  assumes "pc_Error p = None" "pc_publicKey p \<noteq> []" "pc_privateKey p = []" "pc_passphrase p \<noteq> []" "plain \<noteq> []" "c \<noteq> []"
    "pg_NewKeyFromArmored (pc_handle p) (pc_publicKey p) = Inr k"
  shows "pgp_Encrypt wr plain p (Some w) r = encrypt_to wr (ByKey k) plain p w r"
    "pgp_Decrypt wr c p (Some w) = decrypt_with wr (ByPassword (pc_passphrase p)) c p w"
  using assms by (simp_all add: pgp_Encrypt_def pgp_Decrypt_def EncryptWithPublicKey_def DecryptWithPassword_def)

section \<open>Witness\<close>

text \<open>
  A library whose keys are private, public or locked, and whose messages name the key or password they are for; only
  the private key, or the password, opens them.
\<close>

datatype demo_key = DPriv string | DPub string | DLocked string bytes

definition frame :: "string \<Rightarrow> string" where
  "frame n = replicate (length n) CHR ''x'' @ CHR ''-'' # n"

definition unframe :: "string \<Rightarrow> string \<Rightarrow> string + string" where
  "unframe n c = (if take (length (frame n)) c = frame n then Inr (drop (length (frame n)) c) else Inl ''wrong'')"

lemma unframe_frame [simp]: "unframe n (frame n @ bs) = Inr bs"
  by (simp add: unframe_def)

fun demo_encrypt :: "demo_key party \<Rightarrow> bytes \<Rightarrow> string + bytes" where
  "demo_encrypt (ByPassword pw) bs = Inr (frame (CHR ''w'' # pw) @ bs)"
| "demo_encrypt (ByKey (DPub n)) bs = Inr (frame (CHR ''k'' # n) @ bs)"
| "demo_encrypt (ByKey _) bs = Inl ''not a public key''"

fun demo_decrypt :: "demo_key party \<Rightarrow> bytes \<Rightarrow> string + bytes" where
  "demo_decrypt (ByPassword pw) c = unframe (CHR ''w'' # pw) c"
| "demo_decrypt (ByKey (DPriv n)) c = unframe (CHR ''k'' # n) c"
| "demo_decrypt (ByKey _) c = Inl ''no unlocked private key''"

fun demo_armor :: "demo_key \<Rightarrow> string" where
  "demo_armor (DPriv n) = CHR ''s'' # n"
| "demo_armor (DPub n) = CHR ''p'' # n"
| "demo_armor (DLocked n pw) = CHR ''l'' # frame pw @ n"

fun demo_public :: "string \<Rightarrow> string + demo_key" where
  "demo_public (c # n) = (if c = CHR ''p'' then Inr (DPub n) else Inl ''no public key'')"
| "demo_public [] = Inl ''empty''"

fun demo_private :: "string \<Rightarrow> bytes \<Rightarrow> string + demo_key" where
  "demo_private (c # a) pw =
     (if c = CHR ''s'' then Inr (DPriv a)
      else if c = CHR ''l'' then (case unframe pw a of Inl e \<Rightarrow> Inl e | Inr n \<Rightarrow> Inr (DPriv n))
      else Inl ''no private key'')"
| "demo_private [] pw = Inl ''empty''"

definition demo_pgp :: "(demo_key, bytes, unit) PGPHandle" where
  "demo_pgp = \<lparr>pg_NewKeyFromArmored = demo_public, pg_NewPrivateKeyFromArmored = demo_private,
     pg_NewEncryption = (\<lambda>q. None), pg_Encrypt = (\<lambda>q bs r. (demo_encrypt q bs, r)), pg_ArmorBytes = Inr,
     pg_NewDecryption = (\<lambda>q. case q of ByKey (DPriv n) \<Rightarrow> None | ByPassword pw \<Rightarrow> None | _ \<Rightarrow> Some ''no unlocked private key''),
     pg_Decrypt = demo_decrypt, pg_GenerateKey = (\<lambda>n e r. (Inr (DPriv (n @ e)), r)), pg_ArmorKey = (\<lambda>k. Inr (demo_armor k)),
     pg_LockKey = (\<lambda>k pw. case k of DPriv n \<Rightarrow> Inr (DLocked n pw) | _ \<Rightarrow> Inl ''cannot lock''),
     pg_ArmoredPublicKey = (\<lambda>k. case k of DPriv n \<Rightarrow> Inr (CHR ''p'' # n) | DPub n \<Rightarrow> Inr (CHR ''p'' # n) | DLocked n pw \<Rightarrow> Inr (CHR ''p'' # n))\<rparr>"

lemma demo_pgp_sel:
  "pg_NewKeyFromArmored demo_pgp = demo_public" "pg_NewPrivateKeyFromArmored demo_pgp = demo_private"
  "pg_Encrypt demo_pgp q bs r = (demo_encrypt q bs, r)" "pg_ArmorBytes demo_pgp = Inr" "pg_Decrypt demo_pgp = demo_decrypt"
  "pg_NewDecryption demo_pgp (ByPassword pw) = None" "pg_NewDecryption demo_pgp (ByKey (DPriv n)) = None"
  "pg_ArmorKey demo_pgp k = Inr (demo_armor k)" "pg_LockKey demo_pgp (DPriv n) pw = Inr (DLocked n pw)"
  "pg_ArmoredPublicKey demo_pgp (DPriv n) = Inr (CHR ''p'' # n)"
  by (simp_all add: demo_pgp_def)

lemma demo_generated: "generated demo_pgp k \<Longrightarrow> \<exists>n. k = DPriv n"
  by (auto simp: generated_def demo_pgp_def)

lemma demo_pgp_laws: "pgp_laws demo_pgp"
proof -
  have f [simp]: "frame n \<noteq> []" for n by (simp add: frame_def)
  have "law_password demo_pgp" by (auto simp: law_password_def demo_pgp_sel)
  moreover have "law_key demo_pgp" unfolding law_key_def by (auto dest!: demo_generated simp: demo_pgp_sel)
  moreover have "law_armor demo_pgp" "law_lock demo_pgp" "law_public demo_pgp"
    unfolding law_armor_def law_lock_def law_public_def by (auto dest!: demo_generated simp: demo_pgp_sel)
  ultimately show ?thesis by (simp add: pgp_laws_def)
qed

theorem pgp_key_pair_round_trip_witness:
  "let p = pc_WithPassphrase ''pw'' (NewPGPCipher (\<lambda>_. demo_pgp) () None); p1 = fst (snd (GenerateKeyPair ''n'' ''e'' p ()));
       (p2, out, _) = pgp_Encrypt buffer_write ''hi'' p1 (Some []) ()
   in out = Some ''xxx-knehi'' \<and> pgp_Decrypt buffer_write ''xxx-knehi'' p2 (Some []) = (p2, Some ''hi'')"
proof -
  let ?p = "pc_WithPassphrase ''pw'' (NewPGPCipher (\<lambda>_. demo_pgp) () None)"
  let ?p1 = "fst (snd (GenerateKeyPair ''n'' ''e'' ?p ()))"
  note defs = pc_WithPassphrase_def NewPGPCipher_def GenerateKeyPair_def demo_pgp_def
  have laws: "pgp_laws (pc_handle ?p)" using demo_pgp_laws by (simp add: pc_WithPassphrase_def NewPGPCipher_def)
  have gen: "GenerateKeyPair ''n'' ''e'' ?p () = (None, ?p1, ())" by (simp add: defs)
  have enc: "pgp_Encrypt buffer_write ''hi'' ?p1 (Some []) () = (?p1, Some ''xxx-knehi'', ())" and ok: "pc_Error ?p1 = None"
    by (simp_all add: defs pgp_Encrypt_def EncryptWithPublicKey_def encrypt_to_def frame_def)
  show ?thesis using enc pgp_key_pair_round_trip [OF laws gen enc ok, of "[]"] by (simp add: Let_def)
qed

end
