(* ===== verification/ConfigFile.thy ===== *)
theory ConfigFile
  imports GoStrings
begin

text \<open>
  The configuration package (\<open>src/config/core.go\<close>): flags and defaults declared from a struct by reflection,
  reading, validating, applying and saving the configuration, and the filter on file events. \<open>viper\<close>,
  \<open>pflag\<close>, YAML and the file system are a record of calls on an environment. A configuration is its
  reflected value.
\<close>

section \<open>Reflected values\<close>

record rfield =
  rf_Name :: string
  rf_Exported :: bool
  rf_usage :: string

text \<open>
  \<open>RLeaf\<close>: a value whose type is in the list of \<open>declareFlag\<close> (strings, booleans, numbers, string slices);
  \<open>ROther\<close>: a value of any other type that is neither a struct nor a pointer; \<open>RPtr\<close>: what a pointer
  points to, if anything, and the zero value of its element type.
\<close>

datatype rval = RLeaf "value" | ROther "value" | RStruct "(rfield \<times> rval) list" | RPtr "rval option" rval

text \<open>
  \<open>vi_SetEnv\<close> stands for the settings of the environment in \<open>Register\<close>, \<open>vi_Kebab\<close> is \<open>strcase.KebabCase\<close>, \<open>vi_Define\<close> the
  definition of a flag of the value's type, \<open>vi_ReadInConfig\<close> reads the file of a name in a directory, and \<open>vi_Abs\<close>
  is the absolute path of a file in it.
\<close>

record 'v Env =
  vi_SetEnv :: "string \<Rightarrow> 'v \<Rightarrow> 'v"
  vi_SetDefault :: "string \<Rightarrow> value \<Rightarrow> 'v \<Rightarrow> 'v"
  vi_Kebab :: "string \<Rightarrow> string"
  vi_Lookup :: "string \<Rightarrow> 'v \<Rightarrow> bool"
  vi_Define :: "string \<Rightarrow> value \<Rightarrow> string \<Rightarrow> 'v \<Rightarrow> 'v"
  vi_BindPFlag :: "string \<Rightarrow> string \<Rightarrow> 'v \<Rightarrow> string option \<times> 'v"
  vi_ReadInConfig :: "string \<Rightarrow> string \<Rightarrow> 'v \<Rightarrow> string option \<times> 'v"
  vi_ElemIsConfig :: "rval \<Rightarrow> bool option"
  vi_Unmarshal :: "rval \<Rightarrow> 'v \<Rightarrow> string + rval"
  vi_MkdirAll :: "string \<Rightarrow> 'v \<Rightarrow> string option \<times> 'v"
  vi_Abs :: "string \<Rightarrow> string \<Rightarrow> string + string"
  vi_OpenTruncate :: "string \<Rightarrow> 'v \<Rightarrow> string option \<times> 'v"
  vi_Marshal :: "rval \<Rightarrow> string + bytes"
  vi_Write :: "string \<Rightarrow> bytes \<Rightarrow> 'v \<Rightarrow> string option \<times> 'v"
  vi_Close :: "string \<Rightarrow> 'v \<Rightarrow> string option \<times> 'v"
  vi_Reset :: "'v \<Rightarrow> 'v"

section \<open>Declaring flags\<close>

definition declareFlag :: "'v Env \<Rightarrow> bool \<Rightarrow> string \<Rightarrow> string \<Rightarrow> value \<Rightarrow> 'v \<Rightarrow> serr option \<times> 'v" where
  "declareFlag vi known label usage dflt v =
     (let v = vi_SetDefault vi label dflt v;
          flag = vi_Kebab vi label;
          label = map to_lower_char label
      in if vi_Lookup vi flag v then
           (case vi_BindPFlag vi label flag v of
              (Some e, v) \<Rightarrow> (Some (SErrWith (''binding existing flag '' @ label @ '' to viper failed'') e), v)
            | (None, v) \<Rightarrow> (None, v))
         else if \<not> known then (None, v)
         else
           (case vi_BindPFlag vi label flag (vi_Define vi flag dflt usage v) of
              (Some e, v) \<Rightarrow> (Some (SErrWith (''binding flag '' @ label @ '' to viper failed'') e), v)
            | (None, v) \<Rightarrow> (None, v)))"

datatype ('a, 'v) parsed = POk 'a 'v | PErr serr 'v | PPanic

fun pbind :: "('a, 'v) parsed \<Rightarrow> ('a \<Rightarrow> 'v \<Rightarrow> ('b, 'v) parsed) \<Rightarrow> ('b, 'v) parsed" where
  "pbind (POk a v) k = k a v"
| "pbind (PErr e v) k = PErr e v"
| "pbind PPanic k = PPanic"

fun pwrap :: "('a, 'v) parsed \<Rightarrow> ('a, 'v) parsed" where
  "pwrap (PErr e v) = PErr (SWrapErr e) v"
| "pwrap x = x"

definition declare_leaf :: "'v Env \<Rightarrow> bool \<Rightarrow> string \<Rightarrow> rfield \<Rightarrow> value \<Rightarrow> rval \<Rightarrow> 'v \<Rightarrow> (rval, 'v) parsed" where
  "declare_leaf vi known label f x w v =
     (case declareFlag vi known label (rf_usage f) x v of (Some e, v) \<Rightarrow> PErr (SWrapErr e) v | (None, v) \<Rightarrow> POk w v)"

definition field_label :: "string \<Rightarrow> rfield \<Rightarrow> string" where
  "field_label base f = (if base \<noteq> [] then base @ ''.'' else []) @ rf_Name f"

text \<open>
  \<open>parseStructTags\<close>: it returns the value with its nil pointers set and the environment. It goes through one
  pointer; anything that is then no struct panics, and so does a nil pointer.
\<close>

fun parse_struct :: "'v Env \<Rightarrow> string \<Rightarrow> rval \<Rightarrow> 'v \<Rightarrow> (rval, 'v) parsed"
and parse_struct_fields :: "'v Env \<Rightarrow> string \<Rightarrow> (rfield \<times> rval) list \<Rightarrow> 'v \<Rightarrow> ((rfield \<times> rval) list, 'v) parsed"
and parseStructTags :: "'v Env \<Rightarrow> string \<Rightarrow> rval \<Rightarrow> 'v \<Rightarrow> (rval, 'v) parsed"
and parse_field :: "'v Env \<Rightarrow> string \<Rightarrow> rfield \<Rightarrow> rval \<Rightarrow> 'v \<Rightarrow> (rval, 'v) parsed" where
  "parse_struct vi base (RStruct fs) v = pbind (parse_struct_fields vi base fs v) (\<lambda>fs. POk (RStruct fs))"
| "parse_struct vi base _ v = PPanic"
| "parse_struct_fields vi base [] v = POk [] v"
| "parse_struct_fields vi base ((f, x) # fs) v =
     (if \<not> rf_Exported f then pbind (parse_struct_fields vi base fs v) (\<lambda>fs. POk ((f, x) # fs))
      else pbind (parse_field vi base f x v) (\<lambda>x v. pbind (parse_struct_fields vi base fs v) (\<lambda>fs. POk ((f, x) # fs))))"
| "parseStructTags vi base (RPtr (Some x) z) v = pbind (parse_struct vi base x v) (\<lambda>x. POk (RPtr (Some x) z))"
| "parseStructTags vi base (RPtr None z) v = PPanic"
| "parseStructTags vi base x v = parse_struct vi base x v"
| "parse_field vi base f (RPtr (Some x) z) v = pwrap (pbind (parseStructTags vi (rf_Name f) x v) (\<lambda>x. POk (RPtr (Some x) z)))"
| "parse_field vi base f (RPtr None z) v = pwrap (pbind (parseStructTags vi (rf_Name f) z v) (\<lambda>x. POk (RPtr (Some x) z)))"
| "parse_field vi base f (RStruct fs) v = pwrap (parse_struct vi (field_label base f) (RStruct fs) v)"
| "parse_field vi base f (RLeaf x) v = declare_leaf vi True (field_label base f) f x (RLeaf x) v"
| "parse_field vi base f (ROther x) v = declare_leaf vi False (field_label base f) f x (ROther x) v"

section \<open>The package state\<close>

text \<open>
  \<open>cs_config\<close> is the current configuration, nil at first, as a value; a caller that writes through the pointer it
  shares with the package changes that value (\<open>cfg_caller_writes\<close> below). A handler is called with it and may work
  on the environment; one that writes to it or calls this package again is outside the model.
\<close>

record 'v ConfigState =
  cs_config :: "rval option"
  cs_configname :: string
  cs_onChange :: "(rval option \<Rightarrow> 'v \<Rightarrow> string option \<times> 'v) list"
  cs_lastChange :: int
  cs_env :: 'v

definition cf_apply :: "rval \<Rightarrow> 'v ConfigState \<Rightarrow> 'v ConfigState" where
  "cf_apply c s = s\<lparr>cs_config := Some c\<rparr>"

definition cf_Get :: "'v ConfigState \<Rightarrow> rval option" where
  "cf_Get s = cs_config s"

definition cf_OnChange :: "(rval option \<Rightarrow> 'v \<Rightarrow> string option \<times> 'v) \<Rightarrow> 'v ConfigState \<Rightarrow> 'v ConfigState" where
  "cf_OnChange f s = s\<lparr>cs_onChange := cs_onChange s @ [f]\<rparr>"

text \<open>The results are \<open>None\<close> for a panic.\<close>

fun is_struct :: "rval \<Rightarrow> bool" where
  "is_struct (RStruct fs) = True"
| "is_struct _ = False"

definition cf_Register :: "'v Env \<Rightarrow> string \<Rightarrow> rval option \<Rightarrow> 'v ConfigState \<Rightarrow> (serr option \<times> 'v ConfigState) option" where
  "cf_Register vi name c s =
     (case c of
        None \<Rightarrow> Some (Some (SErr ''the configuration provided is nil''), s)
      | Some c \<Rightarrow>
          (case c of
             RPtr t z \<Rightarrow>
               if \<not> is_struct z then Some (Some (SErr ''the configuration provided is not a pointer to a struct''), s)
               else
                 let s = s\<lparr>cs_configname := name, cs_env := vi_SetEnv vi (ReplaceAll name ''-'' ''_'') (cs_env s)\<rparr>
                 in (case parseStructTags vi [] c (cs_env s) of
                       PPanic \<Rightarrow> None
                     | PErr e v \<Rightarrow> Some (Some (SWrapErr e), s\<lparr>cs_env := v\<rparr>)
                     | POk c v \<Rightarrow> Some (None, cf_apply c (s\<lparr>cs_env := v\<rparr>)))
           | _ \<Rightarrow> Some (Some (SErr ''the configuration provided is not a pointer to a struct''), s)))"

text \<open>\<open>path\<close> is \<open>flag.Path\<close>. The file is truncated before the configuration is encoded.\<close>

definition cf_save :: "'v Env \<Rightarrow> string \<Rightarrow> 'v ConfigState \<Rightarrow> serr option \<times> 'v ConfigState" where
  "cf_save vi path s =
     (case vi_MkdirAll vi path (cs_env s) of
        (Some e, v) \<Rightarrow> (Some (SErrWith ''creating configuration directory failed'' e), s\<lparr>cs_env := v\<rparr>)
      | (None, v) \<Rightarrow>
          (case vi_Abs vi path (cs_configname s @ ''.yaml'') of
             Inl e \<Rightarrow> (Some (SErrWith ''building absolute path of configuration file failed'' e), s\<lparr>cs_env := v\<rparr>)
           | Inr file \<Rightarrow>
               (case vi_OpenTruncate vi file v of
                  (Some e, v) \<Rightarrow> (Some (SErrWith ''opening configuration file failed'' e), s\<lparr>cs_env := v\<rparr>)
                | (None, v) \<Rightarrow>
                    (case (case cs_config s of None \<Rightarrow> Inr (''null'' @ [CHR 0x0A]) | Some c \<Rightarrow> vi_Marshal vi c) of
                       Inl e \<Rightarrow> (Some (SErrWith ''marshalling configuration data failed'' e), s\<lparr>cs_env := v\<rparr>)
                     | Inr data \<Rightarrow>
                         (case vi_Write vi file data v of
                            (Some e, v) \<Rightarrow> (Some (SErrWith ''writing configuration data to file failed'' e), s\<lparr>cs_env := v\<rparr>)
                          | (None, v) \<Rightarrow>
                              (case vi_Close vi file v of
                                 (Some e, v) \<Rightarrow> (Some (SErrWith ''closing configuration file failed'' e), s\<lparr>cs_env := v\<rparr>)
                               | (None, v) \<Rightarrow> (None, s\<lparr>cs_env := v\<rparr>)))))))"

fun run_on_change :: "(rval option \<Rightarrow> 'v \<Rightarrow> string option \<times> 'v) list \<Rightarrow> 'v ConfigState \<Rightarrow> serr option \<times> 'v ConfigState" where
  "run_on_change [] s = (None, s)"
| "run_on_change (f # fs) s =
     (case f (cs_config s) (cs_env s) of
        (Some e, v) \<Rightarrow> (Some (SWrap e), s\<lparr>cs_env := v\<rparr>)
      | (None, v) \<Rightarrow> run_on_change fs (s\<lparr>cs_env := v\<rparr>))"

text \<open>
  \<open>reflect.New(reflect.TypeOf(config).Elem()).Interface().(Config)\<close>: whether the new instance is a configuration,
  \<open>None\<close> for a panic. A pointer gives one; the type of a struct has no element type; for a value of another kind it
  depends on a type the reflected value does not keep.
\<close>

fun new_instance :: "'v Env \<Rightarrow> rval option \<Rightarrow> bool option" where
  "new_instance vi None = None"
| "new_instance vi (Some (RPtr t z)) = Some True"
| "new_instance vi (Some (RStruct fs)) = None"
| "new_instance vi (Some c) = vi_ElemIsConfig vi c"

text \<open>What follows the reading of the file; \<open>validate\<close> is the method of the configuration's type.\<close>

definition read_apply :: "'v Env \<Rightarrow> (rval \<Rightarrow> string option) \<Rightarrow> 'v ConfigState \<Rightarrow> (serr option \<times> 'v ConfigState) option" where
  "read_apply vi validate s =
     (case new_instance vi (cs_config s) of
        None \<Rightarrow> None
      | Some False \<Rightarrow> Some (Some (SErr ''creating new instance failed''), s)
      | Some True \<Rightarrow>
          (case vi_Unmarshal vi (the (cs_config s)) (cs_env s) of
             Inl e \<Rightarrow> Some (Some (SErrWith ''unmarshalling configuration data failed'' e), s)
           | Inr change \<Rightarrow>
               (case validate change of
                  Some e \<Rightarrow> Some (Some (SWrap e), s)
                | None \<Rightarrow> Some (run_on_change (cs_onChange s) (cf_apply change s)))))"

definition cf_Read :: "'v Env \<Rightarrow> (rval \<Rightarrow> string option) \<Rightarrow> string \<Rightarrow> 'v ConfigState \<Rightarrow> (serr option \<times> 'v ConfigState) option" where
  "cf_Read vi validate path s =
     (case vi_ReadInConfig vi (cs_configname s) path (cs_env s) of
        (None, v) \<Rightarrow> read_apply vi validate (s\<lparr>cs_env := v\<rparr>)
      | (Some _, v) \<Rightarrow>
          (case vi_MkdirAll vi path v of
             (Some e, v) \<Rightarrow> Some (Some (SErrWith ''creating configuration directory failed'' e), s\<lparr>cs_env := v\<rparr>)
           | (None, v) \<Rightarrow>
               (case cf_save vi path (s\<lparr>cs_env := v\<rparr>) of
                  (Some e, s) \<Rightarrow> Some (Some (SErrOf ''writing default configuration file failed'' e), s)
                | (None, s) \<Rightarrow> read_apply vi validate s)))"

definition cf_Write :: "'v Env \<Rightarrow> (rval \<Rightarrow> string option) \<Rightarrow> string \<Rightarrow> rval option \<Rightarrow> 'v ConfigState \<Rightarrow> serr option \<times> 'v ConfigState" where
  "cf_Write vi validate path change s =
     (case change of
        None \<Rightarrow> (Some (SErr ''the configuration provided is nil''), s)
      | Some c \<Rightarrow>
          (case validate c of
             Some e \<Rightarrow> (Some (SWrap e), s)
           | None \<Rightarrow>
               (case cf_save vi path (cf_apply c s) of
                  (Some e, s) \<Rightarrow> (Some (SWrapErr e), s)
                | (None, s) \<Rightarrow> run_on_change (cs_onChange s) s)))"

text \<open>The callback of \<open>Watch\<close> at a time in milliseconds: whether the caller's function is called.\<close>

definition cf_watch_event :: "int \<Rightarrow> 'v ConfigState \<Rightarrow> bool \<times> 'v ConfigState" where
  "cf_watch_event ms s = (if ms - cs_lastChange s < 1000 then (False, s) else (True, s\<lparr>cs_lastChange := ms\<rparr>))"

definition cf_Reset :: "'v Env \<Rightarrow> 'v ConfigState \<Rightarrow> 'v ConfigState" where
  "cf_Reset vi s = \<lparr>cs_config = None, cs_configname = [], cs_onChange = [], cs_lastChange = 0, cs_env = vi_Reset vi (cs_env s)\<rparr>"

section \<open>Nil pointers are set\<close>

fun filled :: "rval \<Rightarrow> rval"
and filled_fields :: "(rfield \<times> rval) list \<Rightarrow> (rfield \<times> rval) list" where
  "filled (RStruct fs) = RStruct (filled_fields fs)"
| "filled (RPtr (Some x) z) = RPtr (Some (filled x)) z"
| "filled (RPtr None z) = RPtr (Some (filled z)) z"
| "filled x = x"
| "filled_fields [] = []"
| "filled_fields ((f, x) # fs) = (f, if rf_Exported f then filled x else x) # filled_fields fs"

lemma pbind_POk: "pbind p k = POk y v' \<longleftrightarrow> (\<exists>x v. p = POk x v \<and> k x v = POk y v')"
  by (cases p) auto

lemma pwrap_POk [simp]: "pwrap p = POk y v' \<longleftrightarrow> p = POk y v'"
  by (cases p) auto

lemma parse_filled:
  "parse_struct vi base x v = POk x' v' \<Longrightarrow> x' = filled x"
  "parse_struct_fields vi base fs v = POk fs' v' \<Longrightarrow> fs' = filled_fields fs"
  "parseStructTags vi base x v = POk x' v' \<Longrightarrow> x' = filled x"
  "parse_field vi base f x v = POk x' v' \<Longrightarrow> x' = filled x"
proof (induction vi base x v and vi base fs v and vi base x v and vi base f x v
    arbitrary: x' v' and fs' v' and x' v' and x' v'
    rule: parse_struct_parse_struct_fields_parseStructTags_parse_field.induct)
qed (auto simp: pbind_POk declare_leaf_def split: if_splits prod.splits option.splits)

section \<open>Which flags are declared\<close>

text \<open>
  The exported leaves with their labels, in order. The label of a leaf is the dotted path of field names that leads to
  it, counted from the last pointer field on the way: a pointer starts its label anew with its own name.
  A nil pointer counts as its zero value.
\<close>

fun leaf_paths :: "string \<Rightarrow> (rfield \<times> rval) list \<Rightarrow> (string \<times> string \<times> value \<times> bool) list"
and leaf_paths_at :: "string \<Rightarrow> rval \<Rightarrow> (string \<times> string \<times> value \<times> bool) list" where
  "leaf_paths base [] = []"
| "leaf_paths base ((f, RLeaf d) # fs) = (if rf_Exported f then [(field_label base f, rf_usage f, d, True)] else []) @ leaf_paths base fs"
| "leaf_paths base ((f, ROther d) # fs) = (if rf_Exported f then [(field_label base f, rf_usage f, d, False)] else []) @ leaf_paths base fs"
| "leaf_paths base ((f, RStruct gs) # fs) = (if rf_Exported f then leaf_paths (field_label base f) gs else []) @ leaf_paths base fs"
| "leaf_paths base ((f, RPtr (Some x) z) # fs) = (if rf_Exported f then leaf_paths_at (rf_Name f) x else []) @ leaf_paths base fs"
| "leaf_paths base ((f, RPtr None z) # fs) = (if rf_Exported f then leaf_paths_at (rf_Name f) z else []) @ leaf_paths base fs"
| "leaf_paths_at base (RStruct gs) = leaf_paths base gs"
| "leaf_paths_at base (RPtr (Some (RStruct gs)) z) = leaf_paths base gs"
| "leaf_paths_at base _ = []"

text \<open>
  What the parse accepts: every pointer field leads to a struct, through at most one more pointer that is not nil. On
  anything else (a pointer to an \<open>int\<close>, say) it panics.
\<close>

fun parseable :: "(rfield \<times> rval) list \<Rightarrow> bool"
and parseable_at :: "rval \<Rightarrow> bool" where
  "parseable [] = True"
| "parseable ((f, RLeaf d) # fs) = parseable fs"
| "parseable ((f, ROther d) # fs) = parseable fs"
| "parseable ((f, RStruct gs) # fs) \<longleftrightarrow> (rf_Exported f \<longrightarrow> parseable gs) \<and> parseable fs"
| "parseable ((f, RPtr (Some x) z) # fs) \<longleftrightarrow> (rf_Exported f \<longrightarrow> parseable_at x) \<and> parseable fs"
| "parseable ((f, RPtr None z) # fs) \<longleftrightarrow> (rf_Exported f \<longrightarrow> parseable_at z) \<and> parseable fs"
| "parseable_at (RStruct gs) = parseable gs"
| "parseable_at (RPtr (Some (RStruct gs)) z) = parseable gs"
| "parseable_at _ = False"

fun no_pointers :: "(rfield \<times> rval) list \<Rightarrow> bool" where
  "no_pointers [] = True"
| "no_pointers ((f, x) # fs) \<longleftrightarrow>
     (rf_Exported f \<longrightarrow> (case x of RPtr t z \<Rightarrow> False | RStruct gs \<Rightarrow> no_pointers gs | _ \<Rightarrow> True)) \<and> no_pointers fs"

fun declare_all :: "'v Env \<Rightarrow> (string \<times> string \<times> value \<times> bool) list \<Rightarrow> 'v \<Rightarrow> serr option \<times> 'v" where
  "declare_all vi [] v = (None, v)"
| "declare_all vi ((l, u, d, known) # ds) v =
     (case declareFlag vi known l u d v of (Some e, v) \<Rightarrow> (Some e, v) | (None, v) \<Rightarrow> declare_all vi ds v)"

text \<open>The error without the wrapping that each level adds.\<close>

fun unwrap :: "serr \<Rightarrow> serr" where
  "unwrap (SWrapErr e) = unwrap e"
| "unwrap e = e"

lemma declareFlag_unwrap: "declareFlag vi known l u d v = (Some e, v') \<Longrightarrow> unwrap e = e"
  by (auto simp: declareFlag_def Let_def split: if_splits prod.splits option.splits)

lemma declare_all_unwrap: "declare_all vi ds v = (Some e, v') \<Longrightarrow> unwrap e = e"
  by (induction vi ds v rule: declare_all.induct) (auto split: prod.splits option.splits dest: declareFlag_unwrap)

lemma declare_all_append:
  "declare_all vi (xs @ ys) v = (case declare_all vi xs v of (Some e, v) \<Rightarrow> (Some e, v) | (None, v) \<Rightarrow> declare_all vi ys v)"
  by (induction vi xs v rule: declare_all.induct) (auto split: prod.splits option.splits)

text \<open>What a parse amounts to: the same environment, and either the value it was given or the first error.\<close>

definition amounts_to :: "('a, 'v) parsed \<Rightarrow> 'a \<Rightarrow> serr option \<times> 'v \<Rightarrow> bool" where
  "amounts_to p x r \<longleftrightarrow> (case r of (None, v) \<Rightarrow> p = POk x v | (Some e, v) \<Rightarrow> \<exists>e'. p = PErr e' v \<and> unwrap e' = e)"

lemma amounts_to_wrap: "amounts_to p x r \<Longrightarrow> amounts_to (pwrap p) x r"
  by (auto simp: amounts_to_def split: prod.splits option.splits)

lemma amounts_to_map: "amounts_to p x r \<Longrightarrow> amounts_to (pbind p (\<lambda>y. POk (g y))) (g x) r"
  by (auto simp: amounts_to_def split: prod.splits option.splits)

lemma amounts_to_bind:
  assumes "amounts_to p x r" "\<And>v. r = (None, v) \<Longrightarrow> amounts_to (k x v) y (h v)"
  shows "amounts_to (pbind p k) y (case r of (Some e, v) \<Rightarrow> (Some e, v) | (None, v) \<Rightarrow> h v)"
  using assms by (auto simp: amounts_to_def split: prod.splits option.splits)

lemma declare_leaf_amounts: "amounts_to (declare_leaf vi known l f d x v) x (declare_all vi [(l, rf_usage f, d, known)] v)"
  by (auto simp: amounts_to_def declare_leaf_def split: prod.splits option.splits dest: declareFlag_unwrap)

lemma field_amounts:
  assumes "rf_Exported f \<Longrightarrow> amounts_to (parse_field vi base f x v) (filled x) (declare_all vi here v)"
    "\<And>v. amounts_to (parse_struct_fields vi base fs v) (filled_fields fs) (declare_all vi (leaf_paths base fs) v)"
  shows "amounts_to (parse_struct_fields vi base ((f, x) # fs) v) (filled_fields ((f, x) # fs))
    (declare_all vi ((if rf_Exported f then here else []) @ leaf_paths base fs) v)"
proof (cases "rf_Exported f")
  case False
  then show ?thesis using amounts_to_map [OF assms(2), where g = "\<lambda>fs. (f, x) # fs"] by simp
next
  case True
  show ?thesis
    using amounts_to_bind [OF assms(1) [OF True], of "\<lambda>x v. pbind (parse_struct_fields vi base fs v) (\<lambda>fs. POk ((f, x) # fs))"
        "(f, filled x) # filled_fields fs" "declare_all vi (leaf_paths base fs)"]
      amounts_to_map [OF assms(2), where g = "\<lambda>fs. (f, filled x) # fs"] True
    by (simp add: declare_all_append)
qed

lemma parse_amounts:
  "parseable fs \<Longrightarrow> amounts_to (parse_struct_fields vi base fs v) (filled_fields fs) (declare_all vi (leaf_paths base fs) v)"
  "parseable_at x \<Longrightarrow> amounts_to (parseStructTags vi base x v) (filled x) (declare_all vi (leaf_paths_at base x) v)"
proof (induction base fs and base x arbitrary: v and v rule: leaf_paths_leaf_paths_at.induct)
  case (1 base)
  then show ?case by (simp add: amounts_to_def)
next
  case (2 base f d fs)
  then show ?case unfolding leaf_paths.simps by (intro field_amounts) (auto simp: declare_leaf_amounts simp del: declare_all.simps)
next
  case (3 base f d fs)
  then show ?case unfolding leaf_paths.simps by (intro field_amounts) (auto simp: declare_leaf_amounts simp del: declare_all.simps)
next
  case (4 base f gs fs)
  then show ?case unfolding leaf_paths.simps
    by (intro field_amounts) (auto intro!: amounts_to_wrap amounts_to_map)
next
  case (5 base f x z fs)
  then show ?case unfolding leaf_paths.simps
    by (intro field_amounts) (auto intro!: amounts_to_wrap amounts_to_map [where g = "\<lambda>x. RPtr (Some x) z"])
next
  case (6 base f z fs)
  then show ?case unfolding leaf_paths.simps
    by (intro field_amounts) (auto intro!: amounts_to_wrap amounts_to_map [where g = "\<lambda>x. RPtr (Some x) z"])
next
  case (7 base gs)
  then show ?case by (auto intro!: amounts_to_map)
next
  case (8 base gs z)
  then show ?case
    using amounts_to_map [OF amounts_to_map [of "parse_struct_fields vi base gs v" "filled_fields gs" _ RStruct], where g = "\<lambda>x. RPtr (Some x) z"] by simp
qed simp_all

text \<open>The names of the exported fields of every struct: identifiers, so without a dot, and distinct.\<close>

fun wf_names :: "(rfield \<times> rval) list \<Rightarrow> bool" where
  "wf_names [] = True"
| "wf_names ((f, x) # fs) \<longleftrightarrow>
     rf_Name f \<noteq> [] \<and> CHR ''.'' \<notin> set (rf_Name f) \<and> rf_Name f \<notin> (\<lambda>(g, y). rf_Name g) ` set fs \<and>
     (case x of RStruct gs \<Rightarrow> wf_names gs | _ \<Rightarrow> True) \<and> wf_names fs"

definition segments :: "string \<Rightarrow> string list" where
  "segments l = (if l = [] then [] else Split_char (CHR ''.'') l)"

lemma segments_field_label:
  "rf_Name f \<noteq> [] \<Longrightarrow> CHR ''.'' \<notin> set (rf_Name f) \<Longrightarrow> segments (field_label base f) = segments base @ [rf_Name f]"
  by (simp add: segments_def field_label_def Split_char_append_sep Split_char_single)

lemma field_label_nonempty: "rf_Name f \<noteq> [] \<Longrightarrow> field_label base f \<noteq> []"
  by (simp add: field_label_def)

lemma leaf_paths_Cons: "leaf_paths base ((f, x) # fs) = leaf_paths base [(f, x)] @ leaf_paths base fs"
proof (cases x)
  case (RPtr t z)
  then show ?thesis by (cases t) simp_all
qed simp_all

lemma leaf_paths_plain:
  "no_pointers [(f, x)] \<Longrightarrow> leaf_paths base [(f, x)] =
     (if \<not> rf_Exported f then []
      else case x of
             RLeaf d \<Rightarrow> [(field_label base f, rf_usage f, d, True)]
           | ROther d \<Rightarrow> [(field_label base f, rf_usage f, d, False)]
           | RStruct gs \<Rightarrow> leaf_paths (field_label base f) gs
           | RPtr t z \<Rightarrow> [])"
proof (cases x)
  case (RPtr t z)
  moreover assume "no_pointers [(f, x)]"
  ultimately show ?thesis by (cases t) simp_all
qed simp_all

lemma leaf_paths_segments:
  "no_pointers fs \<Longrightarrow> wf_names fs \<Longrightarrow> l \<in> fst ` set (leaf_paths base fs) \<Longrightarrow>
   \<exists>n \<in> (\<lambda>(g, y). rf_Name g) ` set fs. \<exists>rest. segments l = segments base @ n # rest"
proof (induction fs arbitrary: base rule: no_pointers.induct)
  case (2 f x fs)
  have name: "rf_Name f \<noteq> []" "CHR ''.'' \<notin> set (rf_Name f)" and fs: "no_pointers fs" "wf_names fs" and x: "no_pointers [(f, x)]"
    using "2.prems" by simp_all
  show ?case
  proof (cases "l \<in> fst ` set (leaf_paths base fs)")
    case True
    then show ?thesis using "2.IH"(2) [OF fs] by simp
  next
    case False
    then have "l \<in> fst ` set (leaf_paths base [(f, x)])" using "2.prems"(3) by (simp only: leaf_paths_Cons [of base f x fs] set_append image_Un) blast
    then consider (leaf) "l = field_label base f"
      | (sub) gs where "x = RStruct gs" "l \<in> fst ` set (leaf_paths (field_label base f) gs)" "rf_Exported f"
      unfolding leaf_paths_plain [OF x] by (auto split: rval.splits if_splits)
    then show ?thesis
    proof cases
      case leaf
      then show ?thesis by (simp add: segments_field_label [OF name])
    next
      case (sub gs)
      then have "no_pointers gs" "wf_names gs" using "2.prems" by simp_all
      from "2.IH"(1) [OF sub(3,1) this sub(2)] show ?thesis by (auto simp: segments_field_label [OF name])
    qed
  qed
qed simp

lemma leaf_paths_distinct: "no_pointers fs \<Longrightarrow> wf_names fs \<Longrightarrow> distinct (map fst (leaf_paths base fs))"
proof (induction fs arbitrary: base rule: no_pointers.induct)
  case (2 f x fs)
  have fs: "no_pointers fs" "wf_names fs" "rf_Name f \<notin> (\<lambda>(g, y). rf_Name g) ` set fs" and x: "no_pointers [(f, x)]" "wf_names [(f, x)]"
    using "2.prems" by simp_all
  have "distinct (map fst (leaf_paths base [(f, x)]))"
    unfolding leaf_paths_plain [OF x(1)] using "2.IH"(1) x by (auto split: rval.split)
  moreover have "fst ` set (leaf_paths base [(f, x)]) \<inter> fst ` set (leaf_paths base fs) = {}"
  proof (rule equals0I)
    fix l assume "l \<in> fst ` set (leaf_paths base [(f, x)]) \<inter> fst ` set (leaf_paths base fs)"
    then have l: "l \<in> fst ` set (leaf_paths base [(f, x)])" "l \<in> fst ` set (leaf_paths base fs)" by simp_all
    obtain r where "segments l = segments base @ rf_Name f # r" using leaf_paths_segments [OF x l(1)] by auto
    moreover obtain n r' where "n \<in> (\<lambda>(g, y). rf_Name g) ` set fs" "segments l = segments base @ n # r'"
      using leaf_paths_segments [OF fs(1,2) l(2)] by blast
    ultimately show False using fs(3) by simp
  qed
  ultimately show ?case using "2.IH"(2) [OF fs(1,2)] unfolding leaf_paths_Cons [of base f x fs]
    by (simp del: leaf_paths.simps)
qed simp

text \<open>
  C18: Register, on a pointer to a struct whose pointer fields lead to structs, declares a default and a flag for
  every exported leaf, in order of the fields, with its usage tag and current value, under the dotted path of
  field names that leads to it, counted from the last pointer field on the way, where a nil pointer is first
  set to its zero value. It stops at the first flag that cannot be bound and leaves the configuration as it was;
  when all are declared it takes the struct, with its nil pointers set, as the configuration. In a struct without
  pointer fields whose field names are identifiers, no two leaves get the same label.
\<close>

theorem register_declares_paths:
  assumes "parseable fs" "is_struct z"
  shows "(case declare_all vi (leaf_paths [] fs) (vi_SetEnv vi (ReplaceAll name ''-'' ''_'') (cs_env s)) of
        (None, v) \<Rightarrow> cf_Register vi name (Some (RPtr (Some (RStruct fs)) z)) s =
          Some (None, s\<lparr>cs_config := Some (RPtr (Some (RStruct (filled_fields fs))) z), cs_configname := name, cs_env := v\<rparr>)
      | (Some e, v) \<Rightarrow> \<exists>e'. unwrap e' = e \<and> cf_Register vi name (Some (RPtr (Some (RStruct fs)) z)) s =
          Some (Some e', s\<lparr>cs_configname := name, cs_env := v\<rparr>)) \<and>
    (no_pointers fs \<longrightarrow> wf_names fs \<longrightarrow> distinct (map fst (leaf_paths [] fs)))"
proof
  let ?v = "vi_SetEnv vi (ReplaceAll name ''-'' ''_'') (cs_env s)"
  have "amounts_to (parseStructTags vi [] (RPtr (Some (RStruct fs)) z) ?v) (RPtr (Some (RStruct (filled_fields fs))) z)
      (declare_all vi (leaf_paths [] fs) ?v)"
    using parse_amounts(2) [of "RPtr (Some (RStruct fs)) z" vi "[]" ?v] assms(1) by simp
  then show "case declare_all vi (leaf_paths [] fs) ?v of
        (None, v) \<Rightarrow> cf_Register vi name (Some (RPtr (Some (RStruct fs)) z)) s =
          Some (None, s\<lparr>cs_config := Some (RPtr (Some (RStruct (filled_fields fs))) z), cs_configname := name, cs_env := v\<rparr>)
      | (Some e, v) \<Rightarrow> \<exists>e'. unwrap e' = e \<and> cf_Register vi name (Some (RPtr (Some (RStruct fs)) z)) s =
          Some (Some e', s\<lparr>cs_configname := name, cs_env := v\<rparr>)"
    using assms(2)
    by (auto simp: amounts_to_def cf_Register_def Let_def cf_apply_def simp del: parseStructTags.simps
        split: prod.splits option.splits)
qed (simp add: leaf_paths_distinct)

text \<open>
  A pointer field starts its label anew with its own name, so equally named pointers in two structs
  declare their leaves under the same label.
\<close>

lemma pointer_drops_path: "parse_field vi base f (RPtr t z) v = parse_field vi [] f (RPtr t z) v"
  by (cases t) simp_all

lemma pointer_labels_collide:
  assumes "rf_Exported a" "rf_Exported b" "rf_Exported p" "rf_Exported x" "rf_Name p = ''TLS''" "rf_Name x = ''Key''"
  shows "parse_struct_fields vi [] [(a, RStruct [(p, RPtr (Some (RStruct [(x, RLeaf d)])) z)]), (b, RStruct [(p, RPtr (Some (RStruct [(x, RLeaf d')])) z)])] v =
    POk ps v2 \<Longrightarrow> \<exists>v1. declareFlag vi True ''TLS.Key'' (rf_usage x) d v = (None, v1) \<and>
      declareFlag vi True ''TLS.Key'' (rf_usage x) d' v1 = (None, v2)"
  using assms by (auto simp: declare_leaf_def field_label_def split: prod.splits option.splits)

section \<open>Only validated configurations\<close>

text \<open>
  The calls of the package in any order, whatever the file, the environment and the handlers do, and writes of the
  callers through the pointer they share with the package. \<open>F\<close> collects the values that only the callers answer
  for, since nothing validates them: what they registered, with its nil pointers set, and what they wrote.
\<close>

inductive cfg_step :: "'v Env \<Rightarrow> (rval \<Rightarrow> string option) \<Rightarrow> string \<Rightarrow> 'v ConfigState \<times> rval set \<Rightarrow> 'v ConfigState \<times> rval set \<Rightarrow> bool"
  for vi validate path where
  cfg_register: "cf_Register vi name c s = Some (r, s') \<Longrightarrow> cfg_step vi validate path (s, F) (s', filled ` set_option c \<union> F)"
| cfg_caller_writes: "cf_Get s \<noteq> None \<Longrightarrow> cfg_step vi validate path (s, F) (s\<lparr>cs_config := Some c\<rparr>, insert c F)"
| cfg_on_change: "cfg_step vi validate path (s, F) (cf_OnChange f s, F)"
| cfg_read: "cf_Read vi validate path s = Some (r, s') \<Longrightarrow> cfg_step vi validate path (s, F) (s', F)"
| cfg_write: "cfg_step vi validate path (s, F) (snd (cf_Write vi validate path c s), F)"
| cfg_watch: "cfg_step vi validate path (s, F) (snd (cf_watch_event ms s), F)"
| cfg_env: "cfg_step vi validate path (s, F) (s\<lparr>cs_env := v\<rparr>, F)"
| cfg_reset: "cfg_step vi validate path (s, F) (cf_Reset vi s, F)"

definition cfg_start :: "'v \<Rightarrow> 'v ConfigState" where
  "cfg_start v = \<lparr>cs_config = None, cs_configname = [], cs_onChange = [], cs_lastChange = 0, cs_env = v\<rparr>"

definition cfg_inv :: "(rval \<Rightarrow> string option) \<Rightarrow> 'v ConfigState \<times> rval set \<Rightarrow> bool" where
  "cfg_inv validate t \<longleftrightarrow> (\<forall>c. cf_Get (fst t) = Some c \<longrightarrow> validate c = None \<or> c \<in> snd t)"

lemma run_on_change_config [simp]: "cs_config (snd (run_on_change fs s)) = cs_config s"
  by (induction fs s rule: run_on_change.induct) (auto split: prod.splits option.splits)

lemma cf_save_config [simp]: "cs_config (snd (cf_save vi path s)) = cs_config s"
  by (auto simp: cf_save_def split: prod.splits option.splits sum.splits)

lemma run_on_change_config': "run_on_change fs s = (r, s') \<Longrightarrow> cs_config s' = cs_config s"
  by (metis run_on_change_config snd_conv)

lemma cf_save_config': "cf_save vi path s = (r, s') \<Longrightarrow> cs_config s' = cs_config s"
  by (metis cf_save_config snd_conv)

lemma read_apply_config:
  "read_apply vi validate s = Some (r, s') \<Longrightarrow>
   cs_config s' = cs_config s \<or> (\<exists>c. cs_config s' = Some c \<and> validate c = None)"
  by (auto simp: read_apply_def cf_apply_def split: option.splits bool.splits sum.splits dest!: run_on_change_config')

lemma cf_Read_config:
  "cf_Read vi validate path s = Some (r, s') \<Longrightarrow>
   cs_config s' = cs_config s \<or> (\<exists>c. cs_config s' = Some c \<and> validate c = None)"
  by (auto simp: cf_Read_def split: option.splits prod.splits dest!: read_apply_config cf_save_config')

lemma read_apply_success:
  "read_apply vi validate s = Some (None, s') \<Longrightarrow> \<exists>c. cs_config s' = Some c \<and> validate c = None"
  by (auto simp: read_apply_def cf_apply_def split: option.splits bool.splits sum.splits dest!: run_on_change_config')

lemma cf_Read_success:
  "cf_Read vi validate path s = Some (None, s') \<Longrightarrow> \<exists>c. cs_config s' = Some c \<and> validate c = None"
  by (auto simp: cf_Read_def split: option.splits prod.splits dest!: read_apply_success)

lemma cf_Write_success:
  "cf_Write vi validate path (Some c) s = (None, s') \<Longrightarrow> cs_config s' = Some c \<and> validate c = None"
  by (auto simp: cf_Write_def cf_apply_def split: option.splits prod.splits dest!: run_on_change_config' cf_save_config')

lemma cf_Register_config:
  "cf_Register vi name c s = Some (r, s') \<Longrightarrow>
   cs_config s' = cs_config s \<or> (\<exists>d. c = Some d \<and> cs_config s' = Some (filled d))"
  by (auto simp: cf_Register_def cf_apply_def Let_def simp del: parseStructTags.simps
      split: option.splits rval.splits if_splits parsed.splits dest: parse_filled(3))

text \<open>
  \<open>Write\<close>: a configuration that does not validate changes nothing; one that does is the current configuration
  from then on, whether or not it could be saved, and the handlers run only when it was.
\<close>

lemma cf_Write_outcome:
  "cf_Write vi validate path (Some c) s =
     (case validate c of
        Some e \<Rightarrow> (Some (SWrap e), s)
      | None \<Rightarrow>
          (case cf_save vi path (s\<lparr>cs_config := Some c\<rparr>) of
             (Some e, s') \<Rightarrow> (Some (SWrapErr e), s')
           | (None, s') \<Rightarrow> run_on_change (cs_onChange s) s'))"
  "validate c = None \<Longrightarrow> cs_config (snd (cf_Write vi validate path (Some c) s)) = Some c"
proof -
  have "cs_onChange s' = cs_onChange (s\<lparr>cs_config := Some c\<rparr>)" if "cf_save vi path (s\<lparr>cs_config := Some c\<rparr>) = (r, s')" for r s'
    using that by (auto simp: cf_save_def split: prod.splits option.splits sum.splits)
  then show "cf_Write vi validate path (Some c) s =
     (case validate c of
        Some e \<Rightarrow> (Some (SWrap e), s)
      | None \<Rightarrow>
          (case cf_save vi path (s\<lparr>cs_config := Some c\<rparr>) of
             (Some e, s') \<Rightarrow> (Some (SWrapErr e), s')
           | (None, s') \<Rightarrow> run_on_change (cs_onChange s) s'))"
    by (auto simp: cf_Write_def cf_apply_def split: option.split prod.split)
  show "validate c = None \<Longrightarrow> cs_config (snd (cf_Write vi validate path (Some c) s)) = Some c"
    by (auto simp: cf_Write_def cf_apply_def split: option.split prod.split dest!: cf_save_config')
qed

text \<open>Without a registered configuration, \<open>Read\<close> panics once it has the file, and so it does after a \<open>Write\<close> of a struct.\<close>

lemma cf_Read_unregistered:
  "vi_ReadInConfig vi (cs_configname s) path (cs_env s) = (None, v) \<Longrightarrow>
   cs_config s = None \<or> (\<exists>fs. cs_config s = Some (RStruct fs)) \<Longrightarrow> cf_Read vi validate path s = None"
  by (auto simp: cf_Read_def read_apply_def)

lemma cfg_inv_step:
  assumes "cfg_inv validate t" "cfg_step vi validate path t t'"
  shows "cfg_inv validate t'"
  using assms(2,1)
proof (induction rule: cfg_step.induct)
  case (cfg_register name c s r s' F)
  then show ?case using cf_Register_config by (fastforce simp: cfg_inv_def cf_Get_def)
next
  case (cfg_read s r s' F)
  then show ?case using cf_Read_config by (fastforce simp: cfg_inv_def cf_Get_def)
next
  case (cfg_write s F c)
  then show ?case
    by (auto simp: cfg_inv_def cf_Get_def cf_Write_def cf_apply_def split: option.split prod.split dest!: cf_save_config')
qed (auto simp: cfg_inv_def cf_Get_def cf_OnChange_def cf_watch_event_def cf_Reset_def)

interpretation cfg: state_machine "(cfg_start v, {})" "cfg_step vi validate path" "cfg_inv validate" for v vi validate path
  by unfold_locales (simp add: cfg_inv_def cfg_start_def cf_Get_def, rule cfg_inv_step)

text \<open>
  C22: The package itself never makes an invalid configuration the current one. From the start of the program,
  through any sequence of Register, OnChange, Read, Write, file events, Reset and writes of the callers through
  the shared pointer, with any file contents, environment and handlers, and whichever of the calls fail:
  what Get returns passes validation, or is a value that a caller registered or wrote, which nothing
  validates. Whatever came before, after a Read or Write that succeeds it passes validation, and after a Write
  it is the value written.
\<close>

theorem config_always_valid:
  assumes "(cfg_step vi validate path)\<^sup>*\<^sup>* (cfg_start v, {}) (s, F)"
  shows "(\<forall>c. cf_Get s = Some c \<longrightarrow> validate c = None \<or> c \<in> F) \<and>
    (\<forall>s'. cf_Read vi validate path s = Some (None, s') \<longrightarrow> (\<exists>c. cf_Get s' = Some c \<and> validate c = None)) \<and>
    (\<forall>c s'. cf_Write vi validate path (Some c) s = (None, s') \<longrightarrow> cf_Get s' = Some c \<and> validate c = None)"
  using cfg.reachable_I [OF assms] cf_Read_success cf_Write_success unfolding cfg_inv_def cf_Get_def fst_conv snd_conv by blast

section \<open>File events\<close>

text \<open>The events of the watched file at their times: those that reach the caller's function.\<close>

fun watch_run :: "int list \<Rightarrow> 'v ConfigState \<Rightarrow> int list" where
  "watch_run [] s = []"
| "watch_run (t # ts) s = (case cf_watch_event t s of (fire, s) \<Rightarrow> (if fire then [t] else []) @ watch_run ts s)"

lemma watch_run_after: "t \<in> set (watch_run ts s) \<Longrightarrow> cs_lastChange s + 1000 \<le> t"
  by (induction ts arbitrary: s) (force simp: cf_watch_event_def split: if_splits)+

lemma watch_run_spaced: "sorted_wrt (\<lambda>a b. a + 1000 \<le> b) (watch_run ts s)"
  by (induction ts arbitrary: s) (auto simp: cf_watch_event_def dest: watch_run_after)

section \<open>Witnesses\<close>

text \<open>An environment that logs the labels of the defaults that were set and accepts every call.\<close>

definition log_env :: "string list Env" where
  "log_env = \<lparr>vi_SetEnv = (\<lambda>p v. v), vi_SetDefault = (\<lambda>l d v. v @ [l]), vi_Kebab = (\<lambda>l. l), vi_Lookup = (\<lambda>l v. False),
     vi_Define = (\<lambda>l d u v. v), vi_BindPFlag = (\<lambda>l f v. (None, v)), vi_ReadInConfig = (\<lambda>n p v. (None, v)),
     vi_ElemIsConfig = (\<lambda>c. None), vi_Unmarshal = (\<lambda>c v. Inr c), vi_MkdirAll = (\<lambda>p v. (None, v)), vi_Abs = (\<lambda>p n. Inr (p @ n)),
     vi_OpenTruncate = (\<lambda>f v. (None, v)), vi_Marshal = (\<lambda>c. Inr []), vi_Write = (\<lambda>f d v. (None, v)),
     vi_Close = (\<lambda>f v. (None, v)), vi_Reset = (\<lambda>v. [])\<rparr>"

definition tiny_field :: "string \<Rightarrow> rfield" where
  "tiny_field n = \<lparr>rf_Name = n, rf_Exported = True, rf_usage = []\<rparr>"

definition tiny_fields :: "(rfield \<times> rval) list" where
  "tiny_fields = [(tiny_field ''Host'', RLeaf (VInt 0)), (tiny_field ''Log'', RStruct [(tiny_field ''Level'', RLeaf (VInt 1)),
     (tiny_field ''TLS'', RPtr None (RStruct [(tiny_field ''Key'', RLeaf (VInt 2))]))])]"

theorem register_declares_paths_witness:
  "cf_Register log_env ''app'' (Some (RPtr (Some (RStruct tiny_fields)) (RStruct tiny_fields))) (cfg_start []) =
     Some (None, (cfg_start [])\<lparr>cs_config := Some (RPtr (Some (RStruct (filled_fields tiny_fields))) (RStruct tiny_fields)), cs_configname := ''app'',
       cs_env := [''Host'', ''Log.Level'', ''TLS.Key'']\<rparr>)"
proof -
  have "parseable tiny_fields" "is_struct (RStruct tiny_fields)" by (simp_all add: tiny_fields_def tiny_field_def)
  moreover have "declare_all log_env (leaf_paths [] tiny_fields) [] = (None, [''Host'', ''Log.Level'', ''TLS.Key''])"
    by (simp add: tiny_fields_def tiny_field_def field_label_def log_env_def declareFlag_def)
  ultimately show ?thesis
    using register_declares_paths [of tiny_fields "RStruct tiny_fields" log_env "''app''" "cfg_start []"]
    by (simp add: log_env_def cfg_start_def)
qed

theorem config_always_valid_witness:
  "\<exists>s. (cfg_step log_env (\<lambda>c. if c = RLeaf (VInt 0) then Some ''bad'' else None) [])\<^sup>*\<^sup>* (cfg_start [], {}) (s, {}) \<and>
    cf_Get s = Some (RLeaf (VInt 1)) \<and> (if RLeaf (VInt 1) = RLeaf (VInt 0) then Some ''bad'' else None) = None"
proof -
  let ?val = "\<lambda>c. if c = RLeaf (VInt 0) then Some ''bad'' else (None :: string option)"
  let ?s = "snd (cf_Write log_env ?val [] (Some (RLeaf (VInt 1))) (cfg_start []))"
  have "(cfg_step log_env ?val [])\<^sup>*\<^sup>* (cfg_start [], {}) (?s, {})" by (rule r_into_rtranclp) (rule cfg_write)
  moreover have "cf_Get ?s = Some (RLeaf (VInt 1))"
    by (simp add: cf_Get_def cf_Write_def cf_apply_def cf_save_def log_env_def cfg_start_def)
  ultimately show ?thesis using config_always_valid [of log_env ?val "[]" "[]" ?s "{}"] by blast
qed

end
