(* ===== verification/Interruption.thy ===== *)
theory Interruption
  imports GoPath
begin

text \<open>
  Panic recovery and shutdown on signals (\<open>src/interruption/interruption.go\<close>). A handler is a
  function on a world; the goroutine of \<open>OnSignal\<close> is run step by step, so that signals may arrive at any point.
\<close>

section \<open>Recovered panics\<close>

text \<open>
  The report of a recovered panic: where \<open>runtime.Caller\<close> says it came from, the debug flag, the stack and the
  panic's value as it prints.
\<close>

definition catch_caller :: "string \<Rightarrow> string" where
  "catch_caller file = path_Base (path_Dir file) @ ''/'' @ Trim (path_Base file) (path_Ext file)"

definition interruption_Catch :: "(string \<times> int) option \<Rightarrow> bool \<Rightarrow> string \<Rightarrow> string \<Rightarrow> string" where
  "interruption_Catch origin debug stack err =
     (let caller = (case origin of None \<Rightarrow> ''unknown'' | Some (file, line) \<Rightarrow> catch_caller file);
          line = (case origin of None \<Rightarrow> 0 | Some (file, line) \<Rightarrow> line);
          msg = ''[Interrupt] '' @ caller @ '' code: '' @ Itoa line @ '' => '' @ err
      in if debug then msg @ '' '' @ [CHR 0x0A] @ '' '' @ stack else msg)"

section \<open>Shutdown on a signal\<close>

datatype handler_outcome = Returned | Failed string | Panicked string

text \<open>The handler in its own function with the deferred \<open>Catch\<close>: the world it leaves and what is logged.\<close>

definition run_handler :: "(string \<Rightarrow> string) \<Rightarrow> ('w \<Rightarrow> handler_outcome \<times> 'w) \<Rightarrow> 'w \<times> string list \<Rightarrow> 'w \<times> string list" where
  "run_handler catch h wl =
     (case h (fst wl) of
        (Returned, w) \<Rightarrow> (w, snd wl)
      | (Failed e, w) \<Rightarrow> (w, snd wl @ [''[Signal] handler failed: '' @ e])
      | (Panicked e, w) \<Rightarrow> (w, snd wl @ [catch e]))"

datatype 'w phase = Started | Handling "('w \<Rightarrow> handler_outcome \<times> 'w) list" | Stopped

record 'w SignalState =
  sg_handlers :: "('w \<Rightarrow> handler_outcome \<times> 'w) list"
  sg_signals :: "int list"
  sg_notify :: bool
  sg_chan :: "int list"
  sg_phase :: "'w phase"
  sg_done :: bool
  sg_world :: "'w \<times> string list"

definition OnSignal :: "('w \<Rightarrow> handler_outcome \<times> 'w) list \<Rightarrow> int list \<Rightarrow> 'w \<times> string list \<Rightarrow> 'w SignalState" where
  "OnSignal handlers signals w = \<lparr>sg_handlers = handlers, sg_signals = signals, sg_notify = True, sg_chan = [],
     sg_phase = Started, sg_done = False, sg_world = w\<rparr>"

text \<open>
  The runtime passes on a signal that the channel is registered for, every signal when none was named,
  and drops it when the channel, which holds one, is full.
\<close>

definition deliver :: "int \<Rightarrow> 'w SignalState \<Rightarrow> 'w SignalState" where
  "deliver n s =
     (if sg_notify s \<and> (sg_signals s = [] \<or> n \<in> set (sg_signals s)) \<and> sg_chan s = [] then s\<lparr>sg_chan := [n]\<rparr> else s)"

text \<open>The deferred function of the goroutine.\<close>

definition stop_and_cancel :: "'w SignalState \<Rightarrow> 'w SignalState" where
  "stop_and_cancel s = s\<lparr>sg_notify := False, sg_done := True, sg_phase := Stopped\<rparr>"

text \<open>A step of the goroutine; \<open>None\<close> while it waits for a signal and when it has returned.\<close>

definition signal_step :: "(string \<Rightarrow> string) \<Rightarrow> 'w SignalState \<Rightarrow> 'w SignalState option" where
  "signal_step catch s =
     (case sg_phase s of
        Started \<Rightarrow>
          if sg_handlers s = [] then Some (stop_and_cancel s)
          else (case sg_chan s of [] \<Rightarrow> None | n # ns \<Rightarrow> Some (s\<lparr>sg_chan := ns, sg_phase := Handling (sg_handlers s)\<rparr>))
      | Handling [] \<Rightarrow> Some (stop_and_cancel s)
      | Handling (h # hs) \<Rightarrow> Some (s\<lparr>sg_phase := Handling hs, sg_world := run_handler catch h (sg_world s)\<rparr>)
      | Stopped \<Rightarrow> None)"

text \<open>Whether a wait on the context returns; a nil context is not waited for.\<close>

definition WaitForShutdown :: "'w SignalState option \<Rightarrow> bool" where
  "WaitForShutdown ctx \<longleftrightarrow> (case ctx of None \<Rightarrow> True | Some s \<Rightarrow> sg_done s)"

text \<open>The function that \<open>SetupGracefulShutdown\<close> returns waits on the context it made.\<close>

definition SetupGracefulShutdown ::
  "('w \<Rightarrow> handler_outcome \<times> 'w) list \<Rightarrow> int list \<Rightarrow> 'w \<times> string list \<Rightarrow> 'w SignalState \<times> ('w SignalState \<Rightarrow> bool)" where
  "SetupGracefulShutdown handlers signals w = (OnSignal handlers signals w, \<lambda>s. WaitForShutdown (Some s))"

inductive shutdown_step :: "(string \<Rightarrow> string) \<Rightarrow> 'w SignalState \<Rightarrow> 'w SignalState \<Rightarrow> bool" for catch where
  arrive: "shutdown_step catch s (deliver n s)"
| proceed: "signal_step catch s = Some s' \<Longrightarrow> shutdown_step catch s s'"

section \<open>What a recovered panic is reported as\<close>

text \<open>
  The report names the file without its extension only when the name neither begins nor ends with a
  character of the extension: the extension is used as a set of characters.
\<close>

lemma catch_caller_exact:
  assumes "name \<noteq> []" "CHR ''/'' \<notin> set name" "hd name \<notin> {CHR ''.'', CHR ''g'', CHR ''o''}" "last name \<notin> {CHR ''.'', CHR ''g'', CHR ''o''}"
  shows "catch_caller (dir @ ''/'' @ name @ ''.go'') = path_Base (path_Dir (dir @ ''/'' @ name @ ''.go'')) @ ''/'' @ name"
proof -
  have "path_Base (dir @ ''/'' @ name @ ''.go'') = name @ ''.go''" using path_Base_append [of "name @ ''.go''" dir] assms(2) by simp
  moreover have "path_Ext (dir @ ''/'' @ name @ ''.go'') = ''.go''" using path_Ext_append [of name "''go''" dir] assms(2) by simp
  moreover have "Trim (name @ ''.go'') ''.go'' = name" using assms by (intro Trim_keeps) auto
  ultimately show ?thesis by (simp add: catch_caller_def)
qed

lemma catch_caller_cut: "catch_caller ''/app/config/config.go'' = ''config/confi'' \<and> catch_caller ''/app/zlog/zlog.go'' = ''zlog/zl''"
  by code_simp

section \<open>Every handler runs before the context is done\<close>

text \<open>The goroutine alone, for at most some number of steps.\<close>

fun signal_run :: "(string \<Rightarrow> string) \<Rightarrow> nat \<Rightarrow> 'w SignalState \<Rightarrow> 'w SignalState" where
  "signal_run catch 0 s = s"
| "signal_run catch (Suc k) s = (case signal_step catch s of None \<Rightarrow> s | Some s' \<Rightarrow> signal_run catch k s')"

definition shutdown_inv :: "(string \<Rightarrow> string) \<Rightarrow> ('w \<Rightarrow> handler_outcome \<times> 'w) list \<Rightarrow> int list \<Rightarrow> 'w \<times> string list \<Rightarrow> 'w SignalState \<Rightarrow> bool" where
  "shutdown_inv catch hs sigs wl s \<longleftrightarrow>
     sg_handlers s = hs \<and> sg_signals s = sigs \<and> (sg_done s \<longleftrightarrow> sg_phase s = Stopped) \<and>
     (case sg_phase s of
        Started \<Rightarrow> sg_world s = wl
      | Handling rest \<Rightarrow> \<exists>ran. hs = ran @ rest \<and> sg_world s = fold (run_handler catch) ran wl
      | Stopped \<Rightarrow> sg_world s = fold (run_handler catch) hs wl)"

lemma shutdown_inv_proceed:
  assumes "shutdown_inv catch hs sigs wl s" "signal_step catch s = Some s'"
  shows "shutdown_inv catch hs sigs wl s'"
proof (cases "sg_phase s")
  case Started
  then show ?thesis
    using assms by (auto simp: shutdown_inv_def signal_step_def stop_and_cancel_def split: if_splits list.splits)
next
  case (Handling rest)
  with assms(1) obtain ran where ran: "hs = ran @ rest" "sg_world s = fold (run_handler catch) ran wl"
    by (auto simp: shutdown_inv_def)
  show ?thesis
  proof (cases rest)
    case Nil
    then show ?thesis using assms ran Handling by (auto simp: shutdown_inv_def signal_step_def stop_and_cancel_def)
  next
    case (Cons h hs')
    then have s': "s' = s\<lparr>sg_phase := Handling hs', sg_world := run_handler catch h (sg_world s)\<rparr>"
      using assms(2) Handling by (simp add: signal_step_def)
    have "\<exists>ran'. hs = ran' @ hs' \<and> sg_world s' = fold (run_handler catch) ran' wl"
      by (rule exI [of _ "ran @ [h]"]) (simp add: ran Cons s')
    then show ?thesis using assms(1) Handling by (simp add: shutdown_inv_def s')
  qed
next
  case Stopped
  then show ?thesis using assms(2) by (simp add: signal_step_def)
qed

lemma shutdown_inv_step:
  assumes "shutdown_inv catch hs sigs wl s" "shutdown_step catch s s'"
  shows "shutdown_inv catch hs sigs wl s'"
  using assms(2,1)
proof (induction rule: shutdown_step.induct)
  case (arrive s n)
  then show ?case by (auto simp: shutdown_inv_def deliver_def split: phase.splits)
next
  case (proceed s s')
  then show ?case by (rule shutdown_inv_proceed [rotated])
qed

interpretation shutdown: state_machine "OnSignal hs sigs wl" "shutdown_step catch" "shutdown_inv catch hs sigs wl" for hs sigs wl catch
  by unfold_locales (simp add: shutdown_inv_def OnSignal_def, rule shutdown_inv_step)

lemma signal_run_stopped: "sg_phase s = Stopped \<Longrightarrow> signal_run catch k s = s"
  by (cases k) (simp_all add: signal_step_def)

lemma signal_run_handling: "sg_phase s = Handling rest \<Longrightarrow> sg_phase (signal_run catch (Suc (length rest)) s) = Stopped"
  by (induction rest arbitrary: s) (simp_all add: signal_step_def stop_and_cancel_def)

lemma signal_run_add: "signal_run catch (j + k) s = signal_run catch k (signal_run catch j s)"
proof (induction j arbitrary: s)
  case (Suc j)
  show ?case
  proof (cases "signal_step catch s")
    case None
    then show ?thesis by (cases k) simp_all
  qed (simp add: Suc)
qed simp

lemma signal_run_inv: "shutdown_inv catch hs sigs wl s \<Longrightarrow> shutdown_inv catch hs sigs wl (signal_run catch k s)"
  by (induction k arbitrary: s) (auto split: option.split intro: shutdown_inv_proceed)

lemma signal_run_enough:
  assumes inv: "shutdown_inv catch hs sigs wl s" and go: "hs = [] \<or> sg_chan s \<noteq> [] \<or> sg_phase s \<noteq> Started"
  shows "sg_phase (signal_run catch (length hs + 2) s) = Stopped"
proof (cases "sg_phase s")
  case Started
  show ?thesis
  proof (cases hs)
    case Nil
    then show ?thesis using inv Started by (simp add: shutdown_inv_def signal_step_def stop_and_cancel_def numeral_2_eq_2)
  next
    case (Cons h hs')
    then obtain n ns where "sg_chan s = n # ns" using go Started by (cases "sg_chan s") auto
    then show ?thesis using inv Started Cons signal_run_handling [of "s\<lparr>sg_chan := ns, sg_phase := Handling hs\<rparr>" hs catch]
      by (simp add: shutdown_inv_def signal_step_def numeral_2_eq_2)
  qed
next
  case (Handling rest)
  then have "length hs + 2 = Suc (length rest) + (length hs + 1 - length rest)" using inv by (auto simp: shutdown_inv_def)
  then show ?thesis using signal_run_handling [OF Handling, of catch]
    by (simp only: signal_run_add) (simp add: signal_run_stopped)
next
  case Stopped
  then show ?thesis by (simp add: signal_step_def)
qed

text \<open>What the handlers leave when all of them run, and what each is reported as.\<close>

definition after_handlers :: "('w \<Rightarrow> handler_outcome \<times> 'w) list \<Rightarrow> 'w \<Rightarrow> 'w" where
  "after_handlers hs w = fold (\<lambda>h w. snd (h w)) hs w"

fun handler_reports :: "(string \<Rightarrow> string) \<Rightarrow> ('w \<Rightarrow> handler_outcome \<times> 'w) list \<Rightarrow> 'w \<Rightarrow> string list" where
  "handler_reports catch [] w = []"
| "handler_reports catch (h # hs) w =
     (case fst (h w) of Returned \<Rightarrow> [] | Failed e \<Rightarrow> [''[Signal] handler failed: '' @ e] | Panicked e \<Rightarrow> [catch e]) @
     handler_reports catch hs (snd (h w))"

lemma fold_run_handler:
  "fold (run_handler catch) hs wl = (after_handlers hs (fst wl), snd wl @ handler_reports catch hs (fst wl))"
  by (induction hs arbitrary: wl) (auto simp: after_handlers_def run_handler_def split: prod.split handler_outcome.split)

text \<open>
  C19: After OnSignal, whichever signals arrive in between: the context is done only after every handler has run
  once, in order, a handler that fails or panics being logged and not stopping the others; with handlers and no
  signal in the channel the goroutine waits; and once a signal that was asked for has arrived, or when there
  is no handler, the goroutine makes the context done in at most two steps more than there are handlers, so
  that a wait for the shutdown returns.
\<close>

theorem shutdown_runs_all_handlers:
  assumes reach: "(shutdown_step catch)\<^sup>*\<^sup>* (OnSignal hs sigs wl) s"
  shows "(WaitForShutdown (Some s) \<longrightarrow> sg_world s = (after_handlers hs (fst wl), snd wl @ handler_reports catch hs (fst wl))) \<and>
    (hs \<noteq> [] \<and> sg_phase s = Started \<and> sg_chan s = [] \<longrightarrow> signal_step catch s = None) \<and>
    (hs = [] \<or> sg_chan s \<noteq> [] \<or> sg_phase s \<noteq> Started \<longrightarrow>
       WaitForShutdown (Some (signal_run catch (length hs + 2) s)) \<and>
       sg_world (signal_run catch (length hs + 2) s) = (after_handlers hs (fst wl), snd wl @ handler_reports catch hs (fst wl)))"
proof -
  note inv = shutdown.reachable_I [OF reach]
  have world: "sg_done t \<Longrightarrow> sg_world t = fold (run_handler catch) hs wl" if "shutdown_inv catch hs sigs wl t" for t
    using that by (auto simp: shutdown_inv_def)
  have "sg_done (signal_run catch (length hs + 2) s)" if "hs = [] \<or> sg_chan s \<noteq> [] \<or> sg_phase s \<noteq> Started"
    using signal_run_enough [OF inv that] signal_run_inv [OF inv, of "length hs + 2"] by (simp add: shutdown_inv_def)
  moreover have "hs \<noteq> [] \<and> sg_phase s = Started \<and> sg_chan s = [] \<longrightarrow> signal_step catch s = None"
    using inv by (simp add: shutdown_inv_def signal_step_def)
  ultimately show ?thesis
    using world [OF inv] world [OF signal_run_inv [OF inv, of "length hs + 2"]] by (simp add: WaitForShutdown_def fold_run_handler)
qed

definition tiny_handlers :: "(int \<Rightarrow> handler_outcome \<times> int) list" where
  "tiny_handlers = [\<lambda>w. (Panicked ''boom'', w + 1), \<lambda>w. (Returned, 10 * w)]"

theorem shutdown_runs_all_handlers_witness:
  "(shutdown_step (interruption_Catch None False [])) \<^sup>*\<^sup>* (OnSignal tiny_handlers [15] (0, [])) (deliver 15 (OnSignal tiny_handlers [15] (0, []))) \<and>
   WaitForShutdown (Some (signal_run (interruption_Catch None False []) 4 (deliver 15 (OnSignal tiny_handlers [15] (0, []))))) \<and>
   sg_world (signal_run (interruption_Catch None False []) 4 (deliver 15 (OnSignal tiny_handlers [15] (0, [])))) =
     (10, [''[Interrupt] unknown code: 0 => boom''])"
proof -
  let ?s = "deliver 15 (OnSignal tiny_handlers [15] (0, []))"
  have r: "(shutdown_step (interruption_Catch None False []))\<^sup>*\<^sup>* (OnSignal tiny_handlers [15] (0, [])) ?s"
    by (rule r_into_rtranclp) (rule arrive)
  have "sg_chan ?s \<noteq> []" by (simp add: deliver_def OnSignal_def)
  moreover have "(after_handlers tiny_handlers 0, handler_reports (interruption_Catch None False []) tiny_handlers 0) =
      (10, [''[Interrupt] unknown code: 0 => boom''])"
    by code_simp
  moreover have "length tiny_handlers + 2 = 4" by (simp add: tiny_handlers_def)
  ultimately show ?thesis using shutdown_runs_all_handlers [OF r] r by (metis append_Nil fst_conv snd_conv)
qed

text \<open>With no handler the wait does not wait for a signal.\<close>

lemma shutdown_without_handlers: "WaitForShutdown (Some (signal_run catch 1 (fst (SetupGracefulShutdown [] sigs wl))))"
  by (simp add: SetupGracefulShutdown_def OnSignal_def signal_step_def stop_and_cancel_def WaitForShutdown_def)

end
