(* ===== verification/Logger.thy ===== *)
theory Logger
  imports GoPath
begin

text \<open>
  The logger (\<open>src/zlog/zlog.go\<close>): its outputs are a Go slice, kept as an array and a length so that loggers derived
  from one another share the array as they do in the program, and its log file is an address. \<open>zerolog\<close> and
  \<open>lumberjack\<close> are a record of calls on an environment. Levels are numbers, debug 0, info 1, trace -1.
\<close>

section \<open>Slices of writers\<close>

datatype 'o writer = WConsole | WFile nat | WOther 'o

type_synonym slice = "nat \<times> nat"

record LogFile =
  lf_Filename :: string
  lf_MaxSize :: int
  lf_MaxAge :: int
  lf_MaxBackups :: int
  lf_Compress :: bool

record ('o, 'e) LogState =
  ls_arrays :: "'o writer list list"
  ls_files :: "LogFile list"
  ls_env :: 'e

definition elems :: "('o, 'e) LogState \<Rightarrow> slice \<Rightarrow> 'o writer list" where
  "elems s sl = take (snd sl) (ls_arrays s ! fst sl)"

text \<open>
  Go's \<open>append\<close>: in place while the array has room, and otherwise into a new array with the capacity that
  \<open>grow\<close> gives; its unused places hold some writer.
\<close>

definition append_slice :: "(nat \<Rightarrow> nat) \<Rightarrow> slice \<Rightarrow> 'o writer list \<Rightarrow> ('o, 'e) LogState \<Rightarrow> slice \<times> ('o, 'e) LogState" where
  "append_slice grow sl xs s =
     (let (a, n) = sl; arr = ls_arrays s ! a; m = n + length xs
      in if m \<le> length arr then ((a, m), s\<lparr>ls_arrays := (ls_arrays s)[a := take n arr @ xs @ drop m arr]\<rparr>)
         else ((length (ls_arrays s), m),
               s\<lparr>ls_arrays := ls_arrays s @ [take n arr @ xs @ replicate (grow m - m) WConsole]\<rparr>))"

section \<open>The logger\<close>

record logger =
  lg_level :: int
  lg_file :: "nat option"
  lg_outputs :: slice

record ('o, 'e) Zero =
  z_SetGlobalLevel :: "int \<Rightarrow> 'e \<Rightarrow> 'e"
  z_SetOutput :: "'o writer list \<Rightarrow> 'e \<Rightarrow> 'e"
  z_Msg :: "int \<Rightarrow> string \<Rightarrow> 'e \<Rightarrow> 'e"
  z_Error :: "string \<Rightarrow> string \<Rightarrow> 'e \<Rightarrow> 'e"
  z_Close :: "LogFile \<Rightarrow> 'e \<Rightarrow> string option \<times> 'e"
  z_Rotate :: "LogFile \<Rightarrow> 'e \<Rightarrow> string option \<times> 'e"

text \<open>The package's variable and its \<open>init\<close>.\<close>

definition zl_start :: "'e \<Rightarrow> logger \<times> ('o, 'e) LogState" where
  "zl_start e = (\<lparr>lg_level = 0, lg_file = None, lg_outputs = (0, 0)\<rparr>, \<lparr>ls_arrays = [[]], ls_files = [], ls_env = e\<rparr>)"

definition zl_init :: "('o, 'e) Zero \<Rightarrow> ('o, 'e) LogState \<Rightarrow> ('o, 'e) LogState" where
  "zl_init z s = s\<lparr>ls_env := z_SetOutput z [WConsole] (z_SetGlobalLevel z 1 (ls_env s))\<rparr>"

definition set_file :: "(LogFile \<Rightarrow> LogFile) \<Rightarrow> logger \<times> ('o, 'e) LogState \<Rightarrow> logger \<times> ('o, 'e) LogState" where
  "set_file f ls =
     (case ls of (l, s) \<Rightarrow>
        (case lg_file l of None \<Rightarrow> (l, s) | Some a \<Rightarrow> (l, s\<lparr>ls_files := (ls_files s)[a := f (ls_files s ! a)]\<rparr>)))"

definition zl_Init :: "('o, 'e) Zero \<Rightarrow> string \<Rightarrow> string \<Rightarrow> int \<Rightarrow> logger \<times> ('o, 'e) LogState \<Rightarrow> logger \<times> ('o, 'e) LogState" where
  "zl_Init z path logname level ls =
     (let logname = (if \<not> HasSuffix logname ''.log'' then logname @ ''.log'' else logname);
          (l, s) = set_file (\<lambda>f. f\<lparr>lf_Filename := path_Join path logname\<rparr>) ls
      in (l, s\<lparr>ls_env := z_SetOutput z (elems s (lg_outputs l)) (z_SetGlobalLevel z level (ls_env s))\<rparr>))"

definition zl_With :: "(nat \<Rightarrow> nat) \<Rightarrow> 'o writer list \<Rightarrow> logger \<times> ('o, 'e) LogState \<Rightarrow> logger \<times> ('o, 'e) LogState" where
  "zl_With grow ws ls = (case ls of (l, s) \<Rightarrow> (case append_slice grow (lg_outputs l) ws s of (sl, s) \<Rightarrow> (l\<lparr>lg_outputs := sl\<rparr>, s)))"

definition zl_WithConsole :: "(nat \<Rightarrow> nat) \<Rightarrow> logger \<times> ('o, 'e) LogState \<Rightarrow> logger \<times> ('o, 'e) LogState" where
  "zl_WithConsole grow ls = (case ls of (l, s) \<Rightarrow> (case append_slice grow (lg_outputs l) [WConsole] s of (sl, s) \<Rightarrow> (l\<lparr>lg_outputs := sl\<rparr>, s)))"

definition zl_WithLogFile :: "(nat \<Rightarrow> nat) \<Rightarrow> logger \<times> ('o, 'e) LogState \<Rightarrow> logger \<times> ('o, 'e) LogState" where
  "zl_WithLogFile grow ls =
     (case ls of (l, s) \<Rightarrow>
        let a = length (ls_files s);
            s = s\<lparr>ls_files := ls_files s @ [\<lparr>lf_Filename = [], lf_MaxSize = 10, lf_MaxAge = 28, lf_MaxBackups = 10, lf_Compress = True\<rparr>]\<rparr>
        in (case append_slice grow (lg_outputs l) [WFile a] s of (sl, s) \<Rightarrow> (l\<lparr>lg_file := Some a, lg_outputs := sl\<rparr>, s)))"

definition zl_Stop :: "('o, 'e) Zero \<Rightarrow> logger \<times> ('o, 'e) LogState \<Rightarrow> logger \<times> ('o, 'e) LogState" where
  "zl_Stop z ls =
     (case ls of (l, s) \<Rightarrow>
        (case lg_file l of
           None \<Rightarrow> (l, s)
         | Some a \<Rightarrow>
             (case z_Close z (ls_files s ! a) (ls_env s) of
                (Some e, v) \<Rightarrow> (l, s\<lparr>ls_env := z_Error z e ''[Logger] failed to close log file'' v\<rparr>)
              | (None, v) \<Rightarrow> (l, s\<lparr>ls_env := v\<rparr>))))"

text \<open>\<open>Rotate\<close> calls the file without a check; on a nil file the call panics, which is \<open>None\<close>.\<close>

definition zl_Rotate :: "('o, 'e) Zero \<Rightarrow> logger \<times> ('o, 'e) LogState \<Rightarrow> (logger \<times> ('o, 'e) LogState) option" where
  "zl_Rotate z ls =
     (case ls of (l, s) \<Rightarrow>
        (case lg_file l of
           None \<Rightarrow> None
         | Some a \<Rightarrow>
             (case z_Rotate z (ls_files s ! a) (ls_env s) of
                (Some e, v) \<Rightarrow> Some (l, s\<lparr>ls_env := z_Error z e ''[Logger] failed to rotate log file'' v\<rparr>)
              | (None, v) \<Rightarrow> Some (l, s\<lparr>ls_env := v\<rparr>))))"

definition zl_SetLevel :: "('o, 'e) Zero \<Rightarrow> int \<Rightarrow> logger \<times> ('o, 'e) LogState \<Rightarrow> logger \<times> ('o, 'e) LogState" where
  "zl_SetLevel z level ls = (case ls of (l, s) \<Rightarrow> (l\<lparr>lg_level := level\<rparr>, s\<lparr>ls_env := z_SetGlobalLevel z level (ls_env s)\<rparr>))"

definition zl_GetLevel :: "logger \<Rightarrow> int" where
  "zl_GetLevel l = lg_level l"

definition zl_WithLevel :: "int \<Rightarrow> logger \<Rightarrow> logger" where
  "zl_WithLevel level l = \<lparr>lg_level = level, lg_file = lg_file l, lg_outputs = lg_outputs l\<rparr>"

definition zl_SetMaxSize :: "int \<Rightarrow> logger \<times> ('o, 'e) LogState \<Rightarrow> logger \<times> ('o, 'e) LogState" where
  "zl_SetMaxSize n = set_file (\<lambda>f. f\<lparr>lf_MaxSize := n\<rparr>)"

definition zl_SetMaxAge :: "int \<Rightarrow> logger \<times> ('o, 'e) LogState \<Rightarrow> logger \<times> ('o, 'e) LogState" where
  "zl_SetMaxAge n = set_file (\<lambda>f. f\<lparr>lf_MaxAge := n\<rparr>)"

definition zl_SetMaxBackups :: "int \<Rightarrow> logger \<times> ('o, 'e) LogState \<Rightarrow> logger \<times> ('o, 'e) LogState" where
  "zl_SetMaxBackups n = set_file (\<lambda>f. f\<lparr>lf_MaxBackups := n\<rparr>)"

definition zl_SetCompress :: "bool \<Rightarrow> logger \<times> ('o, 'e) LogState \<Rightarrow> logger \<times> ('o, 'e) LogState" where
  "zl_SetCompress c = set_file (\<lambda>f. f\<lparr>lf_Compress := c\<rparr>)"

definition zl_GetPath :: "logger \<times> ('o, 'e) LogState \<Rightarrow> string" where
  "zl_GetPath ls = (case lg_file (fst ls) of None \<Rightarrow> [] | Some a \<Rightarrow> lf_Filename (ls_files (snd ls) ! a))"

definition zl_GetOutputs :: "logger \<times> ('o, 'e) LogState \<Rightarrow> 'o writer list" where
  "zl_GetOutputs ls = elems (snd ls) (lg_outputs (fst ls))"

definition zl_GetFile :: "logger \<Rightarrow> nat option" where
  "zl_GetFile l = lg_file l"

definition zl_Write :: "('o, 'e) Zero \<Rightarrow> string \<Rightarrow> logger \<times> ('o, 'e) LogState \<Rightarrow> nat \<times> logger \<times> ('o, 'e) LogState" where
  "zl_Write z p ls = (case ls of (l, s) \<Rightarrow> (length p, l, s\<lparr>ls_env := z_Msg z (lg_level l) (TrimSpace p) (ls_env s)\<rparr>))"

section \<open>The outputs of one logger\<close>

text \<open>A slice within its array, and a capacity that is enough.\<close>

definition slice_ok :: "('o, 'e) LogState \<Rightarrow> slice \<Rightarrow> bool" where
  "slice_ok s sl \<longleftrightarrow> fst sl < length (ls_arrays s) \<and> snd sl \<le> length (ls_arrays s ! fst sl)"

lemma append_slice_elems:
  assumes "slice_ok s sl" "append_slice grow sl xs s = (sl', s')" "\<forall>n. n \<le> grow n"
  shows "slice_ok s' sl' \<and> elems s' sl' = elems s sl @ xs"
  using assms by (auto simp: slice_ok_def append_slice_def elems_def Let_def nth_append split: prod.splits if_splits)

text \<open>The slices that another append leaves alone: those in another array, and those no longer than where it wrote.\<close>

lemma append_slice_other:
  assumes "slice_ok s sl" "slice_ok s ot" "append_slice grow sl xs s = (sl', s')" "fst ot \<noteq> fst sl \<or> snd ot \<le> snd sl"
  shows "slice_ok s' ot \<and> elems s' ot = elems s ot"
  using assms by (auto simp: slice_ok_def append_slice_def elems_def Let_def nth_append nth_list_update min_def split: prod.splits if_splits)

datatype 'o added = AddConsole | AddFile | AddWriters "'o writer list"

fun add :: "(nat \<Rightarrow> nat) \<Rightarrow> 'o added \<Rightarrow> logger \<times> ('o, 'e) LogState \<Rightarrow> logger \<times> ('o, 'e) LogState" where
  "add grow AddConsole ls = zl_WithConsole grow ls"
| "add grow AddFile ls = zl_WithLogFile grow ls"
| "add grow (AddWriters ws) ls = zl_With grow ws ls"

text \<open>What a chain of calls adds when the next log file gets the given address.\<close>

fun added_outputs :: "nat \<Rightarrow> 'o added list \<Rightarrow> 'o writer list" where
  "added_outputs n [] = []"
| "added_outputs n (AddConsole # as) = WConsole # added_outputs n as"
| "added_outputs n (AddFile # as) = WFile n # added_outputs (Suc n) as"
| "added_outputs n (AddWriters ws # as) = ws @ added_outputs n as"

definition logger_ok :: "logger \<times> ('o, 'e) LogState \<Rightarrow> bool" where
  "logger_ok ls \<longleftrightarrow> slice_ok (snd ls) (lg_outputs (fst ls))"

lemma append_slice_files [simp]: "ls_files (snd (append_slice grow sl xs s)) = ls_files s"
  by (auto simp: append_slice_def Let_def split: prod.split)

lemma zl_With_spec:
  assumes "logger_ok ls" "\<forall>n. n \<le> grow n"
  shows "logger_ok (zl_With grow ws ls)" "zl_GetOutputs (zl_With grow ws ls) = zl_GetOutputs ls @ ws"
    "ls_files (snd (zl_With grow ws ls)) = ls_files (snd ls)"
proof -
  obtain l s where ls: "ls = (l, s)" by (cases ls)
  obtain sl s' where ap: "append_slice grow (lg_outputs l) ws s = (sl, s')" by (metis surj_pair)
  note e = append_slice_elems [OF _ ap assms(2)]
  show "logger_ok (zl_With grow ws ls)" "zl_GetOutputs (zl_With grow ws ls) = zl_GetOutputs ls @ ws"
    "ls_files (snd (zl_With grow ws ls)) = ls_files (snd ls)"
    using assms(1) e append_slice_files [of grow "lg_outputs l" ws s] ls ap
    by (simp_all add: logger_ok_def zl_With_def zl_GetOutputs_def)
qed

lemma zl_WithConsole_With: "zl_WithConsole grow = zl_With grow [WConsole]"
  by (simp add: zl_WithConsole_def zl_With_def fun_eq_iff)

lemma zl_WithLogFile_With:
  "zl_WithLogFile grow (l, s) =
     (case zl_With grow [WFile (length (ls_files s))]
        (l, s\<lparr>ls_files := ls_files s @ [\<lparr>lf_Filename = [], lf_MaxSize = 10, lf_MaxAge = 28, lf_MaxBackups = 10, lf_Compress = True\<rparr>]\<rparr>) of
        (l', s') \<Rightarrow> (l'\<lparr>lg_file := Some (length (ls_files s))\<rparr>, s'))"
  by (simp add: zl_WithLogFile_def zl_With_def Let_def split: prod.split)

lemma zl_WithLogFile_spec:
  assumes "logger_ok ls" "\<forall>n. n \<le> grow n"
  shows "logger_ok (zl_WithLogFile grow ls)"
    "zl_GetOutputs (zl_WithLogFile grow ls) = zl_GetOutputs ls @ [WFile (length (ls_files (snd ls)))]"
    "length (ls_files (snd (zl_WithLogFile grow ls))) = Suc (length (ls_files (snd ls)))"
proof -
  obtain l s where ls: "ls = (l, s)" by (cases ls)
  let ?s = "s\<lparr>ls_files := ls_files s @ [\<lparr>lf_Filename = [], lf_MaxSize = 10, lf_MaxAge = 28, lf_MaxBackups = 10, lf_Compress = True\<rparr>]\<rparr>"
  have ok: "logger_ok (l, ?s)" using assms(1) by (simp add: ls logger_ok_def slice_ok_def)
  have same: "zl_GetOutputs (l, ?s) = zl_GetOutputs ls" by (simp add: ls zl_GetOutputs_def elems_def)
  note w = zl_With_spec [OF ok assms(2), of "[WFile (length (ls_files s))]"]
  show "logger_ok (zl_WithLogFile grow ls)"
    "zl_GetOutputs (zl_WithLogFile grow ls) = zl_GetOutputs ls @ [WFile (length (ls_files (snd ls)))]"
    "length (ls_files (snd (zl_WithLogFile grow ls))) = Suc (length (ls_files (snd ls)))"
    using w same by (auto simp: ls zl_WithLogFile_With logger_ok_def zl_GetOutputs_def split: prod.split)
qed

lemma fold_add_outputs:
  assumes "\<forall>n. n \<le> grow n"
  shows "logger_ok ls \<Longrightarrow> zl_GetOutputs (fold (add grow) as ls) = zl_GetOutputs ls @ added_outputs (length (ls_files (snd ls))) as"
proof (induction as arbitrary: ls)
  case (Cons a as)
  then show ?case
    by (cases a) (simp_all add: zl_WithConsole_With zl_With_spec [OF _ assms] zl_WithLogFile_spec [OF _ assms])
qed simp

text \<open>
  C36: The logger's outputs, a slice over a shared array with Go's growth of arrays, are a plain list as far as one logger
  goes: whatever chain of \<open>WithConsole\<close>, \<open>WithLogFile\<close> and \<open>With\<close> is called on it from the start, its outputs are
  the writers of the calls in order, each log file a new one, and \<open>Init\<close> hands exactly these to the global
  logger.
\<close>

theorem logger_outputs_refine:
  assumes "\<forall>n. n \<le> grow n"
  shows "zl_GetOutputs (fold (add grow) as (zl_start e)) = added_outputs 0 as \<and>
    ls_env (snd (zl_Init z path name level (fold (add grow) as (zl_start e)))) =
      z_SetOutput z (added_outputs 0 as) (z_SetGlobalLevel z level (ls_env (snd (fold (add grow) as (zl_start e)))))"
proof -
  have "logger_ok (zl_start e)" by (simp add: logger_ok_def zl_start_def slice_ok_def)
  then have outs: "zl_GetOutputs (fold (add grow) as (zl_start e)) = added_outputs 0 as"
    using fold_add_outputs [OF assms, of "zl_start e" as] by (simp add: zl_GetOutputs_def elems_def zl_start_def)
  obtain l s where ls: "fold (add grow) as (zl_start e) = (l, s)" by (cases "fold (add grow) as (zl_start e)")
  have "elems (snd (set_file f (l, s))) (lg_outputs (fst (set_file f (l, s)))) = elems s (lg_outputs l)"
    and "ls_env (snd (set_file f (l, s))) = ls_env s" for f
    by (simp_all add: set_file_def elems_def split: option.split)
  then show ?thesis using outs by (simp add: ls zl_Init_def zl_GetOutputs_def Let_def split: prod.split) (metis fst_conv snd_conv)
qed

text \<open>
  Two loggers that share the array do not keep this: what the one derived by \<open>WithLevel\<close> appends in the room
  that is left replaces what the first has appended since.
\<close>

lemma derived_logger_overwrites:
  assumes ok: "logger_ok (l, s)" and room: "snd (lg_outputs l) < length (ls_arrays s ! fst (lg_outputs l))"
    and first: "zl_With grow [w] (l, s) = (l1, s1)" and second: "zl_With grow [w'] (zl_WithLevel level l, s1) = (l2, s2)"
  shows "zl_GetOutputs (l1, s1) = zl_GetOutputs (l, s) @ [w]" "zl_GetOutputs (l1, s2) = zl_GetOutputs (l, s) @ [w']"
  using assms
  by (auto simp: logger_ok_def slice_ok_def zl_With_def zl_WithLevel_def append_slice_def zl_GetOutputs_def elems_def Let_def
      min_def Suc_le_eq split: prod.splits if_splits)

section \<open>Levels and files\<close>

text \<open>\<open>Init\<close> sets the global level and not the logger's own, so \<open>GetLevel\<close> returns what it was.\<close>

lemma init_keeps_level: "zl_GetLevel (fst (zl_Init z path name level ls)) = zl_GetLevel (fst ls)"
  by (cases ls) (simp add: zl_Init_def set_file_def zl_GetLevel_def Let_def split: option.split prod.split)

lemma rotate_without_file: "lg_file l = None \<Longrightarrow> zl_Rotate z (l, s) = None"
  by (simp add: zl_Rotate_def)

text \<open>The settings of the file are shared with every logger derived from this one.\<close>

lemma set_file_derived:
  "lg_file l = Some a \<Longrightarrow> a < length (ls_files s) \<Longrightarrow>
   zl_GetPath (l, snd (zl_SetMaxSize n (zl_WithLevel level l, s))) = zl_GetPath (l, s) \<and>
   lf_MaxSize (ls_files (snd (zl_SetMaxSize n (zl_WithLevel level l, s))) ! a) = n"
  by (simp add: zl_SetMaxSize_def set_file_def zl_WithLevel_def zl_GetPath_def)

lemma init_file_path:
  "lg_file l = Some a \<Longrightarrow> a < length (ls_files s) \<Longrightarrow>
   zl_GetPath (zl_Init z path name level (l, s)) = path_Join path (if HasSuffix name ''.log'' then name else name @ ''.log'')"
  by (simp add: zl_Init_def set_file_def zl_GetPath_def Let_def)

definition tiny_zero :: "(nat, nat) Zero" where
  "tiny_zero = \<lparr>z_SetGlobalLevel = (\<lambda>l e. e), z_SetOutput = (\<lambda>ws e. length ws), z_Msg = (\<lambda>l m e. e), z_Error = (\<lambda>e m v. v),
     z_Close = (\<lambda>f e. (None, e)), z_Rotate = (\<lambda>f e. (None, e))\<rparr>"

theorem logger_outputs_refine_witness:
  "(\<forall>n :: nat. n \<le> 2 * n) \<and>
   zl_GetOutputs (fold (add (\<lambda>n. 2 * n)) [AddConsole, AddFile, AddWriters [WOther 7], AddFile] (zl_start (0 :: nat))) =
     [WConsole, WFile 0, WOther (7 :: nat), WFile 1] \<and>
   ls_env (snd (zl_Init tiny_zero ''d'' ''app'' 1 (fold (add (\<lambda>n. 2 * n)) [AddConsole, AddFile, AddWriters [WOther 7], AddFile] (zl_start 0)))) = 4"
  using logger_outputs_refine [of "\<lambda>n. 2 * n" "[AddConsole, AddFile, AddWriters [WOther 7], AddFile]" 0 tiny_zero "''d''" "''app''" 1]
  by (simp add: tiny_zero_def)

end
