(* ===== verification/Flags.thy ===== *)
theory Flags
  imports GoStrings
begin

text \<open>
  Command-line flags (\<open>src/flag/flag.go\<close>): the flags the package declares and those an application adds.
  \<open>pflag\<close>'s set of flags is a map from names; its parser and its help page are arguments.
\<close>

section \<open>The flags\<close>

text \<open>
  The types of \<open>RegisterFlag\<close>'s switch. A value is no pointer, a nil pointer, a pointer to a variable of one of
  these types, or a pointer to a variable of another type. \<open>FVar\<close> is the variable's address.
\<close>

datatype flag_type = TString | TBool | TInt | TInt8 | TInt16 | TInt32 | TInt64 | TUint | TUint8 | TUint16 | TUint32 | TUint64
  | TFloat32 | TFloat64

datatype flag_arg = NotPointer | NilPointer | FVar nat flag_type | OtherPointer string

record flag_entry =
  fe_type :: flag_type
  fe_var :: nat
  fe_default :: "value"
  fe_usage :: string

record FlagState =
  fl_set :: "string \<rightharpoonup> flag_entry"
  fl_vars :: "nat \<Rightarrow> value"

text \<open>The four variables of the package, at the first addresses.\<close>

definition define_var :: "flag_type \<Rightarrow> nat \<Rightarrow> string \<Rightarrow> value \<Rightarrow> string \<Rightarrow> FlagState \<Rightarrow> FlagState" where
  "define_var t a name dflt usage s =
     s\<lparr>fl_set := (fl_set s)(name \<mapsto> \<lparr>fe_type = t, fe_var = a, fe_default = dflt, fe_usage = usage\<rparr>),
       fl_vars := (fl_vars s)(a := dflt)\<rparr>"

definition flag_init :: "FlagState \<Rightarrow> FlagState" where
  "flag_init s =
     define_var TBool 3 ''debug'' (VBool False) ''Enables debug mode''
       (define_var TBool 2 ''version'' (VBool False) ''Prints the software version''
         (define_var TBool 1 ''help'' (VBool False) ''Prints the help page''
           (define_var TString 0 ''path'' (VString ''./data'') ''Sets the application default path'' s)))"

definition flag_Print :: "('e \<Rightarrow> 'e) \<Rightarrow> (string \<Rightarrow> 'e \<Rightarrow> 'e) \<Rightarrow> 'e \<Rightarrow> 'e" where
  "flag_Print printDefaults println e = printDefaults (println ''Usage:'' e)"

text \<open>\<open>parse\<close> is \<open>pflag.Parse\<close>, which sets the variables from the command line.\<close>

definition flag_Init :: "(FlagState \<Rightarrow> FlagState) \<Rightarrow> ('e \<Rightarrow> 'e) \<Rightarrow> (string \<Rightarrow> 'e \<Rightarrow> 'e) \<Rightarrow> FlagState \<times> 'e \<Rightarrow> FlagState \<times> 'e" where
  "flag_Init parse printDefaults println se =
     (let s = parse (fst se) in (s, if fl_vars s 1 = VBool True then flag_Print printDefaults println (snd se) else snd se))"

text \<open>A panic is its message.\<close>

definition RegisterFlag :: "string \<Rightarrow> flag_arg \<Rightarrow> string \<Rightarrow> FlagState \<Rightarrow> string + FlagState" where
  "RegisterFlag name v usage s =
     (if fl_set s name \<noteq> None then Inl (''flag '' @ name @ '' already registered'')
      else case v of
             NotPointer \<Rightarrow> Inl (''flag '' @ name @ '' must be a pointer'')
           | NilPointer \<Rightarrow> Inl (''flag '' @ name @ '' must not be nil'')
           | FVar a t \<Rightarrow> Inr (define_var t a name (fl_vars s a) usage s)
           | OtherPointer ty \<Rightarrow> Inl (''unsupported type '' @ ty))"

section \<open>Lemmas\<close>

fun register_all :: "(string \<times> flag_arg \<times> string) list \<Rightarrow> FlagState \<Rightarrow> string + FlagState" where
  "register_all [] s = Inr s"
| "register_all ((n, v, u) # fs) s = (case RegisterFlag n v u s of Inl e \<Rightarrow> Inl e | Inr s \<Rightarrow> register_all fs s)"

text \<open>Registering never changes a variable or an earlier flag; each flag's default is the value its variable had.\<close>

lemma RegisterFlag_Inr:
  "RegisterFlag name v usage s = Inr s' \<longleftrightarrow>
   fl_set s name = None \<and> (\<exists>a t. v = FVar a t \<and>
     s' = s\<lparr>fl_set := (fl_set s)(name \<mapsto> \<lparr>fe_type = t, fe_var = a, fe_default = fl_vars s a, fe_usage = usage\<rparr>)\<rparr>)"
  by (cases v) (auto simp: RegisterFlag_def define_var_def)

lemma register_all_Inr:
  "register_all fs s = Inr s' \<Longrightarrow>
   fl_vars s' = fl_vars s \<and> fl_set s \<subseteq>\<^sub>m fl_set s' \<and> dom (fl_set s') = dom (fl_set s) \<union> fst ` set fs \<and>
   distinct (map fst fs) \<and> fst ` set fs \<inter> dom (fl_set s) = {} \<and>
   (\<forall>(n, v, u) \<in> set fs. \<exists>a t. v = FVar a t \<and> fl_set s' n = Some \<lparr>fe_type = t, fe_var = a, fe_default = fl_vars s a, fe_usage = u\<rparr>)"
proof (induction fs s rule: register_all.induct)
  case (2 n v u fs s)
  then obtain s1 where s1: "RegisterFlag n v u s = Inr s1" "register_all fs s1 = Inr s'" by (auto split: sum.splits)
  then obtain a t where new: "fl_set s n = None" "v = FVar a t"
    "s1 = s\<lparr>fl_set := (fl_set s)(n \<mapsto> \<lparr>fe_type = t, fe_var = a, fe_default = fl_vars s a, fe_usage = u\<rparr>)\<rparr>"
    by (auto simp: RegisterFlag_Inr)
  have vars: "fl_vars s1 = fl_vars s" by (simp add: new(3))
  note ih = "2.IH" [OF s1, unfolded vars]
  note le = ih [THEN conjunct2, THEN conjunct1]
  have "fl_set s \<subseteq>\<^sub>m fl_set s1" using new by (auto simp: map_le_def)
  then have "fl_set s \<subseteq>\<^sub>m fl_set s'" using le by (rule map_le_trans)
  moreover have "fl_set s' n = Some \<lparr>fe_type = t, fe_var = a, fe_default = fl_vars s a, fe_usage = u\<rparr>"
    (is "_ = ?entry")
  proof -
    have "fl_set s1 n = ?entry" by (simp add: new(3))
    then show ?thesis using le by (metis domI map_le_def)
  qed
  moreover have "dom (fl_set s1) = insert n (dom (fl_set s))" by (simp add: new(3))
  moreover have "n \<notin> dom (fl_set s)" using new(1) by blast
  ultimately show ?case using ih new(2) by simp
qed simp

text \<open>The package's own names are taken from the start.\<close>

lemma flag_init_taken:
  "name \<in> {''path'', ''help'', ''version'', ''debug''} \<Longrightarrow>
   RegisterFlag name v usage (flag_init s) = Inl (''flag '' @ name @ '' already registered'')"
  by (auto simp: RegisterFlag_def flag_init_def define_var_def)

end
