(* ===== verification/Spec2Isabelle.thy ===== *)
theory Spec2Isabelle
  imports TieredCache RedisCache RabbitQueue TaskScheduler WebServer Database MailManager MailCertificate Pgp ConfigFile
    Interruption Logger Flags
begin

text \<open>
  \<^bold>\<open>Verification of the go-core library.\<close>

  The repository is a Go library of independent packages that applications combine: caches
  (\<open>src/cache\<close>), a job queue with workers, cron expressions and a task scheduler (\<open>src/queue\<close>), a web
  server with a router (\<open>src/web\<close>), mail sending and receiving (\<open>src/mail\<close>), error values
  (\<open>src/apperror\<close>), version and size helpers (\<open>src/version\<close>, \<open>src/memsize\<close>), database connections and migrations (\<open>src/database\<close>), cryptography
  (\<open>src/security\<close>), configuration (\<open>src/config\<close>), and flags, logging and shutdown (\<open>src/flag\<close>, \<open>src/zlog\<close>,
  \<open>src/interruption\<close>). The mail package uses the queue, every
  package uses \<open>apperror\<close>, and a tiered cache uses two caches behind the \<open>Cache\<close> interface.

  \<^bold>\<open>Conventions.\<close> A struct is a record whose fields carry a short prefix, an operation is a function from
  the old state to result and new state, and an error return is a value of an \<open>option\<close> or a sum. A Go
  panic that the source can reach is \<open>None\<close>. Instants and durations are integers in nanoseconds; one
  operation reads the clock once, as an argument. 64-bit integers are \<open>int\<close> with \<open>wrap64\<close> where they can
  wrap, ports and addresses are words. Strings are byte strings. A map whose iteration order is visible is
  an association list. A mutex makes an operation one step; where the source gives a lock up in between,
  the critical sections are separate definitions, and goroutines are the steps of a transition system.
  Code outside the repository (\<open>http.ServeMux\<close>, the rate limiter, \<open>net\<close>'s address parsing,
  \<open>html/template\<close>, mail delivery, JSON, \<open>viper\<close>, \<open>zerolog\<close>, OpenPGP, ciphers and the file system) is a record of functions passed as an argument; what is assumed of
  it is a named predicate (\<open>net_prints\<close>, \<open>json_laws\<close>, \<open>redis_laws\<close>, \<open>queue_laws\<close>, \<open>broker_laws\<close>, \<open>release_laws\<close>,
  \<open>gcm_law\<close>, \<open>rand_law\<close>, \<open>file_laws\<close>, \<open>x509_laws\<close>, \<open>pgp_laws\<close>, \<open>pair_laws\<close>) with a concrete instance among the witnesses.

  \<^bold>\<open>Shared theories.\<close> \<open>Prelude\<close> (time, wrap-around, dynamic values, list lemmas), \<open>GoStrings\<close> (the
  functions of \<open>strings\<close> and \<open>strconv\<close>, with the round trip of numbers), \<open>GoPath\<close> (\<open>path/filepath\<close>), \<open>Calendar\<close> (civil
  time), \<open>Encoding\<close> (base64 with its round trip, hexadecimal),
  \<open>Heap\<close> (\<open>container/heap\<close>; the locale \<open>priority_queue\<close> is what it promises, a sublocale of \<open>weak_order\<close>),
  \<open>Http\<close> (what the web package uses of \<open>net/http\<close>, and the buffering \<open>ResponseWriter\<close> with its shared
  backing arrays).

  \<^bold>\<open>Caches.\<close> \<open>CacheBase\<close> models \<open>cache.go\<close>; \<open>CacheContract\<close> the \<open>Cache\<close> interface with its contract as the
  locale \<open>cache_contract\<close>; \<open>MemoryCache\<close> models \<open>memory.go\<close> with the list elements as addresses, proves that
  it refines an abstract list of live entries in order of use, that it never exceeds its size however the critical
  sections of its operations interleave, short of the race in \<open>Exists\<close>, and interprets the contract; \<open>TieredCache\<close> models \<open>tiered.go\<close> and proves its properties in the locale
  \<open>tiered_contract\<close>, for any two backends that keep the contract, interpreted on two memory caches;
  \<open>RedisCache\<close> models \<open>redis.go\<close> over a record of the client's calls.

  \<^bold>\<open>Queue.\<close> \<open>Cron\<close> models the parser and the next-run search of \<open>cron.go\<close>: the result is the earliest
  matching instant, and an error means there is none in the years the search covers (its bound is the
  code's own). \<open>Jobs\<close> models \<open>job.go\<close>, \<open>builder.go\<close> and \<open>middleware.go\<close>; \<open>MemoryQueue\<close> \<open>memory.go\<close>, whose
  heap is an interpretation of \<open>weak_order\<close>; \<open>QueueManager\<close> \<open>queue.go\<close> as a transition system in which
  workers run jobs at the same time (\<open>W\<close>), with the invariant that bounds the attempts of every job except those
  whose submission gives no guarantee (\<open>D\<close>); \<open>Batches\<close> the batch manager; \<open>TaskScheduler\<close> \<open>task.go\<close>. The other two
  backends are \<open>RedisQueue\<close> (\<open>redis.go\<close>, over a reference model of hashes and sorted sets: the order of
  delivery, what moving scheduled jobs does, and that scanning ends) and \<open>RabbitQueue\<close> (\<open>rabbitmq.go\<close>: a
  failed setup leaves no connection, and what completing and retrying do to a job's message).

  \<^bold>\<open>Web.\<close> \<open>Router\<close> models \<open>router.go\<close> and \<open>middlewares.go\<close>: pattern matching is longest-prefix routing, the
  middlewares with negative orders run first, sorted stably, a blocked request changes nothing, a honeypot blocks
  exactly its visitor, and the rate limiter does not stop a request. \<open>WebServer\<close> models \<open>web.go\<close>: the handlers
  of the server are routes of the router after any registration calls, and how \<open>Start\<close> and \<open>Stop\<close> interact.

  \<^bold>\<open>Mail.\<close> \<open>MailMessage\<close> models \<open>types.go\<close> and \<open>config.go\<close>, \<open>MailTemplates\<close> \<open>template.go\<close>, \<open>MailSender\<close>
  \<open>sender.go\<close> with its retry loop, \<open>MailServer\<close> \<open>server.go\<close> as a transition system of sessions and workers
  (only authenticated mail is accepted), and \<open>MailManager\<close> \<open>mail.go\<close>
  on the model of the queue manager (what a queued message keeps and loses on its way). \<open>MailCertificate\<close> models the
  server's certificate, which once saved is used again, also when it has expired.

  \<^bold>\<open>Database.\<close> \<open>Database\<close> models \<open>src/database\<close>: no migration step runs twice, which steps run when lookups fail, and that the
  flags of the connection loop agree in every reachable state (an interpretation of \<open>state_machine\<close>).

  \<^bold>\<open>Security.\<close> \<open>Security\<close> models \<open>security.go\<close>, \<open>aes.go\<close> and \<open>tls.go\<close>: AES encryption is undone by decryption with the
  same key, a passphrase file is made once, a TLS configuration is returned exactly for a chain within its
  dates, and a self-signed certificate is valid for its year. \<open>Pgp\<close> models \<open>pgp.go\<close>: what a generated key pair
  encrypts it decrypts, and errors stick.

  \<^bold>\<open>Configuration.\<close> \<open>ConfigFile\<close> models \<open>config/core.go\<close> on reflected values: the flags that \<open>Register\<close> declares are the
  dotted paths of the leaves, counted from the last pointer (and what goes wrong with that), the current
  configuration is valid in every reachable state unless it is a value that a caller registered or wrote
  (an interpretation of \<open>state_machine\<close>), what \<open>Write\<close> leaves when it fails, and that file events
  reach the caller at least a second apart.

  \<^bold>\<open>Process.\<close> \<open>Interruption\<close> models \<open>interruption.go\<close>: all handlers run before the context is done, for any arrival
  of signals (an interpretation of \<open>state_machine\<close>), and which files a recovered panic misnames. \<open>Logger\<close> models
  \<open>zlog.go\<close> with Go's slices: the outputs refine a list for one logger, and two that share the array
  overwrite each other. \<open>Flags\<close> models \<open>flag.go\<close>.

  \<^bold>\<open>Helpers.\<close> \<open>AppError\<close> models \<open>apperror.go\<close> with shared detail maps by address and rendering as a partial
  function; \<open>Version\<close> models \<open>version.go\<close> and \<open>memsize.go\<close>.

  \<^bold>\<open>Termination and bounds.\<close> Nearly every loop of the source is a terminating recursion here: over a list, over a
  decreasing measure (retries, the unit loop), or, for the next-run search, over the years up to the limit
  the code sets. The two scans of the Redis queue end only if the server ends its iteration; they are
  \<open>partial_function (option)\<close>, and that they return is proved from what Redis documents of \<open>SCAN\<close>. No
  definition that models code uses fuel that the code does not have; \<open>mg_drive\<close>, which drives the queue manager for
  a liveness property, has fuel of which twice the number of attempts left is shown to be enough.

  \<^bold>\<open>Not modelled.\<close> The loops of background goroutines that only wait for a ticker and call a modelled operation (the
  scheduler's loop, the wait for the database), accessors of fields, interface types, and \<open>Close\<close> of the Redis
  cache. Text output of loggers is part of the state only where it is the
  operation's effect (\<open>interruption.go\<close>). Time zones: the
  cron search works in UTC, without the gaps and repeats of daylight saving time. Handlers of \<open>config\<close> that write to
  the configuration they are called with.
  Floating-point numbers are exact rationals.
\<close>

end
